(* ===== verification/Prelude.thy ===== *)
theory Prelude
  imports Main "HOL-Library.AList"
begin

text \<open>
  Shared vocabulary of the development: the Go types every component uses (\<open>int64\<close>
  arithmetic, \<open>map[string]V\<close>, \<open>time.Time\<close>), the named collections of rewrite rules the
  component proofs run on, and the generic lemmas on lists and maps they share.
\<close>

section \<open>Named collections\<close>

named_theorems go_str \<open>definitions of the Go string, path and URL functions, for evaluation\<close>
named_theorems sess_defs \<open>operations of the session component\<close>
named_theorems srv_defs \<open>handlers of the server component\<close>

section \<open>Signed 64-bit integers\<close>

text \<open>
  Go's \<open>int64\<close> and (on the 64-bit targets) \<open>int\<close> are kept as mathematical integers; the
  places where the source adds or increments write the wrap-around out with \<open>wrap64\<close>.
\<close>

definition int64_ok :: "int \<Rightarrow> bool" where
  "int64_ok x \<longleftrightarrow> - (2 ^ 63) \<le> x \<and> x < 2 ^ 63"

definition wrap64 :: "int \<Rightarrow> int" where
  "wrap64 x = (x + 2 ^ 63) mod 2 ^ 64 - 2 ^ 63"

lemma wrap64_ok [simp]: "int64_ok (wrap64 x)"
  by (simp add: int64_ok_def wrap64_def)

lemma wrap64_id: "int64_ok x \<Longrightarrow> wrap64 x = x"
  by (simp add: int64_ok_def wrap64_def)

lemma int64_ok_of_bounds: "0 \<le> x \<Longrightarrow> x < 2 ^ 63 \<Longrightarrow> int64_ok x"
  by (simp add: int64_ok_def)

section \<open>Go maps with string keys\<close>

text \<open>
  A \<open>map[string]V\<close> is an association list with distinct keys, listed in the order in which the
  runtime ranges over it. Go leaves that order open, so a theorem about every such list covers
  every iteration order. Lookup is \<open>map_of\<close>, assignment \<open>AList.update\<close>, \<open>delete\<close> is
  \<open>AList.delete\<close> and \<open>len\<close> is \<open>length\<close>.
\<close>

type_synonym 'v gomap = "(string \<times> 'v) list"

definition gomap_wf :: "('k \<times> 'v) list \<Rightarrow> bool" where
  "gomap_wf m \<longleftrightarrow> distinct (map fst m)"

definition keys :: "('k \<times> 'v) list \<Rightarrow> 'k set" where
  "keys m = fst ` set m"

lemma keys_Nil [simp]: "keys [] = {}"
  by (simp add: keys_def)

lemma keys_Cons [simp]: "keys (p # m) = insert (fst p) (keys m)"
  by (simp add: keys_def)

lemma keys_append [simp]: "keys (m @ n) = keys m \<union> keys n"
  by (simp add: keys_def image_Un)

lemma keys_finite [simp]: "finite (keys m)"
  by (simp add: keys_def)

lemma keysI: "(k, v) \<in> set m \<Longrightarrow> k \<in> keys m"
  by (force simp: keys_def)

lemma gomap_wf_Nil [simp]: "gomap_wf []"
  by (simp add: gomap_wf_def)

lemma gomap_wf_Cons [simp]: "gomap_wf (p # m) \<longleftrightarrow> fst p \<notin> keys m \<and> gomap_wf m"
  by (simp add: gomap_wf_def keys_def)

lemma gomap_wf_update [simp, intro]: "gomap_wf m \<Longrightarrow> gomap_wf (AList.update k v m)"
  by (simp add: gomap_wf_def distinct_update)

lemma gomap_wf_delete [simp, intro]: "gomap_wf m \<Longrightarrow> gomap_wf (AList.delete k m)"
  by (simp add: gomap_wf_def distinct_delete)

lemma gomap_update [simp]: "map_of (AList.update k v m) = (map_of m)(k \<mapsto> v)"
  by (rule AList.update_conv')

lemma gomap_delete [simp]: "map_of (AList.delete k m) = (map_of m)(k := None)"
  by (rule AList.delete_conv')

lemma keys_update [simp]: "keys (AList.update k v m) = insert k (keys m)"
  using AList.dom_update [of k v m] by (simp add: keys_def)

lemma keys_delete [simp]: "keys (AList.delete k m) = keys m - {k}"
  by (auto simp: AList.delete_eq keys_def)

lemma map_of_None_iff: "map_of m k = None \<longleftrightarrow> k \<notin> keys m"
  by (simp add: keys_def map_of_eq_None_iff)

lemma map_of_Some_key: "map_of m k = Some v \<Longrightarrow> k \<in> keys m"
  by (metis map_of_None_iff option.distinct(1))

lemma key_map_of: "k \<in> keys m \<Longrightarrow> \<exists>v. map_of m k = Some v"
  by (metis map_of_None_iff option.exhaust)

lemma gomap_len: "gomap_wf m \<Longrightarrow> length m = card (keys m)"
  by (metis gomap_wf_def keys_def distinct_card length_map list.set_map)

text \<open>
  \<open>len(a) == len(b)\<close> decides \<open>keys a = keys b\<close> when the first key set is contained in the second:
  the shape of the test the session component uses for completion.
\<close>

lemma gomap_len_eq_iff:
  assumes "gomap_wf a" "gomap_wf b" "keys a \<subseteq> keys b"
  shows "length a = length b \<longleftrightarrow> keys a = keys b"
proof
  assume "length a = length b"
  then have "card (keys a) = card (keys b)"
    using assms by (simp add: gomap_len)
  then show "keys a = keys b"
    using assms(3) by (simp add: card_subset_eq)
next
  assume "keys a = keys b"
  then show "length a = length b"
    using assms by (simp add: gomap_len)
qed

section \<open>Instants and durations\<close>

text \<open>
  \<open>time.Time\<close> is an instant, in nanoseconds of the monotonic clock; \<open>time.Duration\<close> is an
  \<open>int64\<close> number of nanoseconds. \<open>t.Sub(u)\<close> saturates at the ends of \<open>int64\<close>. Instants are
  ordered as \<open>Before\<close>/\<open>After\<close> order them.
\<close>

datatype gotime = Time (nanos: int)

instantiation gotime :: linorder
begin

definition less_eq_gotime :: "gotime \<Rightarrow> gotime \<Rightarrow> bool" where
  "less_eq_gotime t u \<longleftrightarrow> nanos t \<le> nanos u"

definition less_gotime :: "gotime \<Rightarrow> gotime \<Rightarrow> bool" where
  "less_gotime t u \<longleftrightarrow> nanos t < nanos u"

instance
  by standard (auto simp: less_eq_gotime_def less_gotime_def intro: gotime.expand)

end

definition Sub :: "gotime \<Rightarrow> gotime \<Rightarrow> int" where
  "Sub t u = max (- (2 ^ 63)) (min (2 ^ 63 - 1) (nanos t - nanos u))"

definition Second :: int where "Second = 1000000000"

definition Minute :: int where "Minute = 60 * Second"

lemma Sub_self [simp]: "Sub t t = 0"
  by (simp add: Sub_def)

lemma Sub_mono: "t \<le> t' \<Longrightarrow> Sub t u \<le> Sub t' u"
  by (auto simp: Sub_def less_eq_gotime_def)

lemma Sub_antimono: "u \<le> u' \<Longrightarrow> Sub t u' \<le> Sub t u"
  by (auto simp: Sub_def less_eq_gotime_def)

section \<open>Lists\<close>

lemma takeWhile_rev_free: "c \<notin> set xs \<Longrightarrow> takeWhile (\<lambda>x. x \<noteq> c) (xs @ c # ys) = xs"
  by (induction xs) auto

lemma dropWhile_rev_free: "c \<notin> set xs \<Longrightarrow> dropWhile (\<lambda>x. x \<noteq> c) (xs @ c # ys) = c # ys"
  by (induction xs) auto

lemma last_split_inject:
  assumes "a @ c # b = a' @ c # b'" "c \<notin> set b" "c \<notin> set b'"
  shows "a = a' \<and> b = b'"
proof -
  have "rev b @ c # rev a = rev b' @ c # rev a'" using arg_cong [OF assms(1), of rev] by simp
  then have "rev b = rev b'"
    using takeWhile_rev_free [of c "rev b"] takeWhile_rev_free [of c "rev b'"] assms(2,3) by (metis set_rev)
  then show ?thesis using assms(1) by simp
qed

text \<open>A finite list cannot hold all values of an injective sequence: some early one is missing.\<close>

lemma first_missing:
  assumes inj: "inj_on f {1..Suc (length xs)}"
  shows "\<exists>k. 1 \<le> k \<and> k \<le> Suc (length xs) \<and> f k \<notin> set xs"
proof (rule ccontr)
  assume "\<not> ?thesis"
  then have "f ` {1..Suc (length xs)} \<subseteq> set xs" by auto
  then have "card (f ` {1..Suc (length xs)}) \<le> card (set xs)"
    by (intro card_mono) auto
  moreover have "card (f ` {1..Suc (length xs)}) = Suc (length xs)"
    using inj by (simp add: card_image)
  moreover have "card (set xs) \<le> length xs" by (rule card_length)
  ultimately show False by simp
qed

end
