(* ===== verification/GoStrings.thy ===== *)
theory GoStrings
  imports Prelude
begin

text \<open>
  The functions of Go's \<open>strings\<close>, \<open>strconv\<close> and \<open>encoding/hex\<close> that the source calls. A Go
  string is a sequence of bytes, and Isabelle's \<open>char\<close> is a byte, so \<open>string\<close> is exactly that
  sequence (UTF-8 text included) and \<open>length\<close> is Go's \<open>len\<close>.
\<close>

section \<open>Bytes as numbers\<close>

abbreviation ord :: "char \<Rightarrow> nat" where
  "ord c \<equiv> of_char c"

abbreviation chr :: "nat \<Rightarrow> char" where
  "chr n \<equiv> char_of n"

lemma ord_chr: "n < 256 \<Longrightarrow> ord (chr n) = n"
  by simp

lemma ord_lt: "ord c < 256"
  by (rule nat_of_char_less_256)

lemma ord_eq_iff: "ord c = ord d \<longleftrightarrow> c = d"
  by (rule of_char_eq_iff)

section \<open>Case folding\<close>

text \<open>
  \<open>strings.ToLower\<close> maps runes with \<open>unicode.ToLower\<close>. The source compares the result with ASCII
  constants only, so the model has the ASCII letters and the two other runes whose lower case is
  an ASCII letter (U+212A, the Kelvin sign, and U+0130, the dotted capital I); every other byte
  stays, and no comparison with an ASCII constant depends on it.
\<close>

definition toLowerByte :: "char \<Rightarrow> char" where
  "toLowerByte c = (if 65 \<le> ord c \<and> ord c \<le> 90 then chr (ord c + 32) else c)"

fun ToLower :: "string \<Rightarrow> string" where
  "ToLower [] = []"
| "ToLower (c # cs) =
     (if ord c = 226 \<and> take 2 cs = [chr 132, chr 170] then CHR ''k'' # ToLower (drop 2 cs)
      else if ord c = 196 \<and> take 1 cs = [chr 176] then CHR ''i'' # ToLower (drop 1 cs)
      else toLowerByte c # ToLower cs)"

text \<open>
  \<open>strings.EqualFold\<close>, for a comparison in which one side is hexadecimal digits: no byte outside
  ASCII folds to one of them, so folding the ASCII letters is exact.
\<close>

definition EqualFold :: "string \<Rightarrow> string \<Rightarrow> bool" where
  "EqualFold s t \<longleftrightarrow> map toLowerByte s = map toLowerByte t"

lemma EqualFold_refl [simp]: "EqualFold s s"
  by (simp add: EqualFold_def)

lemma EqualFold_length: "EqualFold s t \<Longrightarrow> length s = length t"
  unfolding EqualFold_def by (metis length_map)

lemma toLowerByte_id: "\<not> (65 \<le> ord c \<and> ord c \<le> 90) \<Longrightarrow> toLowerByte c = c"
  by (auto simp: toLowerByte_def)

section \<open>Prefixes, splitting and joining\<close>

definition HasPrefix :: "string \<Rightarrow> string \<Rightarrow> bool" where
  "HasPrefix s p \<longleftrightarrow> take (length p) s = p"

text \<open>\<open>strings.Split\<close> with a one-byte separator: always at least one piece.\<close>

fun Split :: "string \<Rightarrow> char \<Rightarrow> string list" where
  "Split [] sep = [[]]"
| "Split (c # cs) sep =
     (if c = sep then [] # Split cs sep
      else (case Split cs sep of [] \<Rightarrow> [[c]] | p # ps \<Rightarrow> (c # p) # ps))"

fun Join :: "string list \<Rightarrow> string \<Rightarrow> string" where
  "Join [] sep = []"
| "Join [p] sep = p"
| "Join (p # q # ps) sep = p @ sep @ Join (q # ps) sep"

lemma Split_nonempty [simp]: "Split s sep \<noteq> []"
  by (cases s) (auto split: list.splits)

lemma Split_free: "sep \<notin> set s \<Longrightarrow> Split s sep = [s]"
  by (induction s) auto

lemma Split_append: "Split (s @ sep # t) sep = Split s sep @ Split t sep"
  by (induction s) (auto split: list.splits)

lemma Split_pieces_free: "p \<in> set (Split s sep) \<Longrightarrow> sep \<notin> set p"
  by (induction s arbitrary: p) (auto split: list.splits if_splits)

lemma Join_Cons: "ps \<noteq> [] \<Longrightarrow> Join (p # ps) sep = p @ sep @ Join ps sep"
  by (cases ps) auto

lemma Join_append:
  "ps \<noteq> [] \<Longrightarrow> qs \<noteq> [] \<Longrightarrow> Join (ps @ qs) sep = Join ps sep @ sep @ Join qs sep"
  by (induction ps rule: induct_list012) (auto simp: Join_Cons)

lemma Join_push: "Join ((c # p) # ps) sep = c # Join (p # ps) sep"
  by (cases ps) auto

lemma Join_Split: "Join (Split s sep) [sep] = s"
  by (induction s) (auto simp: Join_Cons Join_push split: list.splits)

lemma Split_Join:
  "ps \<noteq> [] \<Longrightarrow> \<forall>p \<in> set ps. sep \<notin> set p \<Longrightarrow> Split (Join ps [sep]) sep = ps"
  by (induction ps rule: induct_list012) (auto simp: Split_free Split_append)

text \<open>
  \<open>strings.TrimSpace\<close> on the ASCII white space. The source calls it on what \<open>fmt.Scanln\<close> stored,
  a token that never holds white space.
\<close>

definition isSpace :: "char \<Rightarrow> bool" where
  "isSpace c \<longleftrightarrow> ord c \<in> {9, 10, 11, 12, 13, 32}"

definition TrimSpace :: "string \<Rightarrow> string" where
  "TrimSpace s = rev (dropWhile isSpace (rev (dropWhile isSpace s)))"

text \<open>\<open>strings.ReplaceAll\<close> of one byte by a string.\<close>

definition ReplaceByte :: "string \<Rightarrow> char \<Rightarrow> string \<Rightarrow> string" where
  "ReplaceByte s c r = concat (map (\<lambda>x. if x = c then r else [x]) s)"

lemma ReplaceByte_free: "c \<notin> set s \<Longrightarrow> ReplaceByte s c r = s"
  by (induction s) (auto simp: ReplaceByte_def)

section \<open>Decimal numbers\<close>

definition digit :: "nat \<Rightarrow> char" where
  "digit d = chr (48 + d)"

definition isDigit :: "char \<Rightarrow> bool" where
  "isDigit c \<longleftrightarrow> 48 \<le> ord c \<and> ord c \<le> 57"

definition digitVal :: "char \<Rightarrow> nat" where
  "digitVal c = ord c - 48"

fun natDigits :: "nat \<Rightarrow> string" where
  "natDigits n = (if n < 10 then [digit n] else natDigits (n div 10) @ [digit (n mod 10)])"

declare natDigits.simps [simp del]

lemma natDigits_small: "n < 10 \<Longrightarrow> natDigits n = [digit n]"
  by (subst natDigits.simps) simp

lemma natDigits_big: "\<not> n < 10 \<Longrightarrow> natDigits n = natDigits (n div 10) @ [digit (n mod 10)]"
  by (subst natDigits.simps) simp

text \<open>\<open>strconv.Itoa\<close> and the \<open>%d\<close> verb.\<close>

definition Itoa :: "int \<Rightarrow> string" where
  "Itoa i = (if i < 0 then CHR ''-'' # natDigits (nat (- i)) else natDigits (nat i))"

definition digitsVal :: "string \<Rightarrow> nat" where
  "digitsVal s = foldl (\<lambda>a c. 10 * a + digitVal c) 0 s"

text \<open>
  \<open>strconv.Atoi\<close> returns a value and an error, and the source reads the value of a failed call:
  0 for a syntax error, the nearer end of \<open>int64\<close> for a number out of range.
\<close>

datatype numError = ErrSyntax | ErrRange

definition Atoi :: "string \<Rightarrow> int \<times> numError option" where
  "Atoi s =
     (let neg = (case s of c # _ \<Rightarrow> c = CHR ''-'' | [] \<Rightarrow> False);
          ds = (case s of c # cs \<Rightarrow> if c = CHR ''-'' \<or> c = CHR ''+'' then cs else s | [] \<Rightarrow> s)
      in if ds = [] \<or> \<not> list_all isDigit ds then (0, Some ErrSyntax)
         else let v = (if neg then - int (digitsVal ds) else int (digitsVal ds))
              in if int64_ok v then (v, None)
                 else (if neg then - (2 ^ 63) else 2 ^ 63 - 1, Some ErrRange))"

lemma isDigit_digit [simp]: "d < 10 \<Longrightarrow> isDigit (digit d)"
  by (simp add: isDigit_def digit_def)

lemma digitVal_digit [simp]: "d < 10 \<Longrightarrow> digitVal (digit d) = d"
  by (simp add: digitVal_def digit_def)

lemma natDigits_digits: "list_all isDigit (natDigits n)"
proof (induction n rule: natDigits.induct)
  case (1 n)
  then show ?case by (subst natDigits.simps) auto
qed

lemma natDigits_nonempty [simp]: "natDigits n \<noteq> []"
  by (subst natDigits.simps) simp

lemma digitsVal_natDigits [simp]: "digitsVal (natDigits n) = n"
proof (induction n rule: natDigits.induct)
  case (1 n)
  show ?case
  proof (cases "n < 10")
    case True
    then show ?thesis by (subst natDigits.simps) (simp add: digitsVal_def)
  next
    case False
    with "1.IH" have "digitsVal (natDigits (n div 10)) = n div 10" by simp
    with False show ?thesis by (subst natDigits.simps) (simp add: digitsVal_def)
  qed
qed

lemma natDigits_inject [simp]: "natDigits m = natDigits n \<longleftrightarrow> m = n"
  by (metis digitsVal_natDigits)

lemma natDigits_all: "c \<in> set (natDigits n) \<Longrightarrow> isDigit c"
  using natDigits_digits [of n] by (auto simp: list_all_iff)

lemma not_isDigit_minus [simp]: "\<not> isDigit CHR ''-''" "\<not> isDigit CHR ''+''"
  by (simp_all add: isDigit_def)

lemma natDigits_hd: "natDigits n = c # cs \<Longrightarrow> isDigit c"
  using natDigits_all [of c n] by simp

lemma Itoa_chars: "c \<in> set (Itoa i) \<Longrightarrow> isDigit c \<or> c = CHR ''-''"
  by (auto simp: Itoa_def split: if_splits dest: natDigits_all)

lemma Itoa_nonempty [simp]: "Itoa i \<noteq> []"
  by (simp add: Itoa_def)

lemma Atoi_Itoa:
  assumes "int64_ok i"
  shows "Atoi (Itoa i) = (i, None)"
proof (cases "i < 0")
  case True
  then show ?thesis
    using assms natDigits_digits [of "nat (- i)"] by (simp add: Atoi_def Itoa_def Let_def)
next
  case False
  obtain c cs where ds: "natDigits (nat i) = c # cs"
    by (cases "natDigits (nat i)") auto
  then have "c \<noteq> CHR ''-''" "c \<noteq> CHR ''+''"
    using natDigits_hd [OF ds] by auto
  then show ?thesis
    using False assms ds natDigits_digits [of "nat i"] digitsVal_natDigits [of "nat i"]
    by (simp add: Atoi_def Itoa_def Let_def)
qed

lemma Itoa_inject [simp]: "Itoa i = Itoa j \<longleftrightarrow> i = j"
proof
  assume eq: "Itoa i = Itoa j"
  have aux: "natDigits m \<noteq> CHR ''-'' # xs" for m xs
    using natDigits_hd [of m "CHR ''-''" xs] by auto
  from eq show "i = j"
    by (auto simp: Itoa_def aux aux [symmetric] split: if_splits)
qed simp

lemma colon_not_Itoa [simp]: "CHR '':'' \<notin> set (Itoa i)"
  using Itoa_chars [of "CHR '':''" i] by (auto simp: isDigit_def)

text \<open>\<open>strconv.FormatBool\<close>.\<close>

definition FormatBool :: "bool \<Rightarrow> string" where
  "FormatBool b = (if b then ''true'' else ''false'')"

section \<open>Hexadecimal\<close>

definition hexDigit :: "nat \<Rightarrow> char" where
  "hexDigit d = (if d < 10 then chr (48 + d) else chr (87 + d))"

text \<open>\<open>hex.EncodeToString\<close>: two lower-case digits a byte.\<close>

definition hexEncode :: "string \<Rightarrow> string" where
  "hexEncode bs = concat (map (\<lambda>b. [hexDigit (ord b div 16), hexDigit (ord b mod 16)]) bs)"

definition isLowerHex :: "char \<Rightarrow> bool" where
  "isLowerHex c \<longleftrightarrow> isDigit c \<or> (97 \<le> ord c \<and> ord c \<le> 102)"

lemma isLowerHex_hexDigit [simp]: "d < 16 \<Longrightarrow> isLowerHex (hexDigit d)"
  by (auto simp: isLowerHex_def hexDigit_def isDigit_def)

lemma hexDigit_inject: "d < 16 \<Longrightarrow> e < 16 \<Longrightarrow> hexDigit d = hexDigit e \<Longrightarrow> d = e"
  by (auto simp: hexDigit_def split: if_splits dest: arg_cong [where f = ord])

lemma length_hexEncode [simp]: "length (hexEncode bs) = 2 * length bs"
  by (induction bs) (auto simp: hexEncode_def)

lemma hexEncode_chars: "c \<in> set (hexEncode bs) \<Longrightarrow> isLowerHex c"
  by (auto simp: hexEncode_def less_mult_imp_div_less)

lemma hexEncode_inject: "hexEncode a = hexEncode b \<Longrightarrow> a = b"
proof (induction a arbitrary: b)
  case Nil
  then show ?case by (cases b) (auto simp: hexEncode_def)
next
  case (Cons x a)
  then obtain y b' where b: "b = y # b'"
    by (cases b) (auto simp: hexEncode_def)
  from Cons.prems have hi: "hexDigit (ord x div 16) = hexDigit (ord y div 16)"
    and lo: "hexDigit (ord x mod 16) = hexDigit (ord y mod 16)"
    and tl: "hexEncode a = hexEncode b'"
    by (auto simp: b hexEncode_def)
  have "ord x div 16 = ord y div 16" "ord x mod 16 = ord y mod 16"
    using hexDigit_inject [OF _ _ hi] hexDigit_inject [OF _ _ lo]
    by (auto simp: less_mult_imp_div_less)
  then have "ord x = ord y" by (metis div_mult_mod_eq)
  then have "x = y" by (simp add: ord_eq_iff)
  with Cons.IH [OF tl] show ?case by (simp add: b)
qed

end
