(* ===== verification/Protocol.thy ===== *)
theory Protocol
  imports GoStrings
begin

text \<open>
  \<open>pkg/protocol\<close>: the constants, the structures exchanged between devices, the error values, the
  random alias (\<open>alias.go\<close>) and the default device (\<open>device.go\<close>). Field names carry the
  structure as a prefix: \<open>dev_\<close> for \<open>Device\<close>, \<open>meta_\<close> for \<open>FileMetadata\<close>, and so on.
\<close>

section \<open>Constants\<close>

definition DefaultPort :: int where "DefaultPort = 53317"

definition MulticastGroup :: string where "MulticastGroup = ''224.0.0.167''"

definition MulticastAddr :: string where "MulticastAddr = ''224.0.0.167:53317''"

definition ProtocolVersion :: string where "ProtocolVersion = ''2.0''"

type_synonym deviceType = string

definition DeviceTypeMobile :: deviceType where "DeviceTypeMobile = ''mobile''"
definition DeviceTypeDesktop :: deviceType where "DeviceTypeDesktop = ''desktop''"
definition DeviceTypeWeb :: deviceType where "DeviceTypeWeb = ''web''"
definition DeviceTypeHeadless :: deviceType where "DeviceTypeHeadless = ''headless''"
definition DeviceTypeServer :: deviceType where "DeviceTypeServer = ''server''"

section \<open>Structures\<close>

record device =
  dev_Alias :: string
  dev_Version :: string
  dev_DeviceModel :: string
  dev_DeviceType :: deviceType
  dev_Fingerprint :: string
  dev_Port :: int
  dev_Protocol :: string
  dev_Download :: bool
  dev_IP :: string

text \<open>The zero value \<open>Device{}\<close>.\<close>

definition zeroDevice :: device where
  "zeroDevice =
     \<lparr>dev_Alias = [], dev_Version = [], dev_DeviceModel = [], dev_DeviceType = [],
      dev_Fingerprint = [], dev_Port = 0, dev_Protocol = [], dev_Download = False, dev_IP = []\<rparr>"

record announceMessage =
  msg_Device :: device
  msg_Announce :: bool

record fileMetadata =
  meta_ID :: string
  meta_FileName :: string
  meta_Size :: int
  meta_FileType :: string
  meta_Sha256 :: string
  meta_Preview :: string
  meta_Metadata :: "string gomap"

definition zeroMeta :: fileMetadata where
  "zeroMeta =
     \<lparr>meta_ID = [], meta_FileName = [], meta_Size = 0, meta_FileType = [], meta_Sha256 = [],
      meta_Preview = [], meta_Metadata = []\<rparr>"

record prepareUploadRequest =
  pureq_Info :: device
  pureq_Files :: "fileMetadata gomap"

record prepareUploadResponse =
  puresp_SessionID :: string
  puresp_Files :: "string gomap"

record prepareDownloadResponse =
  pdresp_Info :: device
  pdresp_SessionID :: string
  pdresp_Files :: "fileMetadata gomap"

record infoResponse =
  info_Alias :: string
  info_Version :: string
  info_DeviceModel :: string
  info_DeviceType :: deviceType
  info_Fingerprint :: string
  info_Download :: bool

section \<open>Error values\<close>

datatype protoError =
    ErrRejected
  | ErrInvalidPIN
  | ErrSessionBusy
  | ErrDeviceNotFound
  | ErrTransferCanceled
  | ErrChecksumMismatch

fun errorText :: "protoError \<Rightarrow> string" where
  "errorText ErrRejected = ''transfer rejected by receiver''"
| "errorText ErrInvalidPIN = ''invalid or missing PIN''"
| "errorText ErrSessionBusy = ''receiver is busy with another session''"
| "errorText ErrDeviceNotFound = ''target device not found''"
| "errorText ErrTransferCanceled = ''transfer canceled''"
| "errorText ErrChecksumMismatch = ''checksum mismatch''"

section \<open>Random alias\<close>

definition adjectives :: "string list" where
  "adjectives =
     [''Fast'', ''Slow'', ''Nice'', ''Warm'', ''Cold'', ''Beautiful'', ''Smart'', ''Cool'', ''Sweet'', ''Sour'',
      ''Fresh'', ''Cute'', ''Strong'', ''Gentle'', ''Happy'', ''Sad'', ''Angry'', ''Calm'', ''Wild'', ''Crazy'']"

definition fruits :: "string list" where
  "fruits =
     [''Apple'', ''Banana'', ''Cherry'', ''Date'', ''Elderberry'', ''Fig'', ''Grape'', ''Honeydew'', ''Kiwi'',
      ''Lemon'', ''Mango'', ''Nectarine'', ''Orange'', ''Peach'', ''Pear'', ''Plum'', ''Quince'', ''Raspberry'',
      ''Strawberry'', ''Tomato'']"

text \<open>
  The random source is an argument: \<open>intn k n\<close> is the \<open>k\<close>-th result of \<open>r.Intn(n)\<close> on the freshly
  seeded generator, a number below \<open>n\<close>.
\<close>

definition GenerateRandomAlias :: "(nat \<Rightarrow> nat \<Rightarrow> nat) \<Rightarrow> string" where
  "GenerateRandomAlias intn =
     (let adj = adjectives ! intn 0 (length adjectives);
          fruit = fruits ! intn 1 (length fruits)
      in adj @ '' '' @ fruit)"

definition intn_ok :: "(nat \<Rightarrow> nat \<Rightarrow> nat) \<Rightarrow> bool" where
  "intn_ok intn \<longleftrightarrow> (\<forall>k n. 0 < n \<longrightarrow> intn k n < n)"

section \<open>Default device\<close>

text \<open>\<open>os.Hostname()\<close> and \<open>runtime.GOOS\<close> are arguments; a failed \<open>Hostname\<close> is \<open>None\<close>.\<close>

definition osModel :: "string \<Rightarrow> string \<times> deviceType" where
  "osModel goos =
     (if goos = ''windows'' then (''Windows'', DeviceTypeDesktop)
      else if goos = ''darwin'' then (''macOS'', DeviceTypeDesktop)
      else if goos = ''linux'' then (''Linux'', DeviceTypeDesktop)
      else (''Headless OS'', DeviceTypeHeadless))"

definition GetDefaultDevice ::
  "(nat \<Rightarrow> nat \<Rightarrow> nat) \<Rightarrow> string \<Rightarrow> string option \<Rightarrow> int \<Rightarrow> string \<Rightarrow> bool \<Rightarrow> device" where
  "GetDefaultDevice intn goos hostname0 port protocolStr download =
     (let alias = GenerateRandomAlias intn;
          hostname = (case hostname0 of Some h \<Rightarrow> h | None \<Rightarrow> ''Unknown'');
          (model, devType) = osModel goos;
          model' = (if hostname \<noteq> [] \<and> hostname \<noteq> ''Unknown''
                    then model @ '' ('' @ hostname @ '')'' else model)
      in \<lparr>dev_Alias = alias, dev_Version = ProtocolVersion, dev_DeviceModel = model',
          dev_DeviceType = devType, dev_Fingerprint = [], dev_Port = port,
          dev_Protocol = protocolStr, dev_Download = download, dev_IP = []\<rparr>)"

section \<open>Properties\<close>

lemma adjectives_no_space: "\<forall>a \<in> set adjectives. CHR '' '' \<notin> set a"
  by (simp add: adjectives_def)

lemma fruits_no_space: "\<forall>f \<in> set fruits. CHR '' '' \<notin> set f"
  by (simp add: fruits_def)

lemma length_adjectives [simp]: "length adjectives = 20"
  by (simp add: adjectives_def)

lemma length_fruits [simp]: "length fruits = 20"
  by (simp add: fruits_def)

lemma distinct_alias_words: "distinct adjectives" "distinct fruits"
  by (simp_all add: adjectives_def fruits_def)

lemma alias_split:
  assumes "intn_ok intn"
  shows "Split (GenerateRandomAlias intn) CHR '' '' = [adjectives ! intn 0 20, fruits ! intn 1 20]"
proof -
  have a: "adjectives ! intn 0 20 \<in> set adjectives" and f: "fruits ! intn 1 20 \<in> set fruits"
    using assms by (auto simp: intn_ok_def)
  have "Split ((adjectives ! intn 0 20) @ CHR '' '' # (fruits ! intn 1 20)) CHR '' ''
        = Split (adjectives ! intn 0 20) CHR '' '' @ Split (fruits ! intn 1 20) CHR '' ''"
    by (rule Split_append)
  moreover have "CHR '' '' \<notin> set (adjectives ! intn 0 20)" "CHR '' '' \<notin> set (fruits ! intn 1 20)"
    using a f adjectives_no_space fruits_no_space by auto
  ultimately show ?thesis
    by (simp add: GenerateRandomAlias_def Split_free)
qed

end
