(* ===== verification/ProtocolJson.thy ===== *)
theory ProtocolJson
  imports Protocol "HOL-Library.List_Lexorder" "HOL-Library.Char_ord"
begin

text \<open>
  How the structures of \<open>pkg/protocol\<close> travel: the JSON values \<open>json.Marshal\<close> produces from the
  field tags, and what \<open>json.Unmarshal\<close>/\<open>Decode\<close> accept back. JSON text is taken after lexing,
  as a value tree; a body that is not JSON is \<open>None\<close> where the handlers receive it.
\<close>

datatype json =
    JNull
  | JBool bool
  | JInt int          \<comment> \<open>a number literal without fraction and exponent\<close>
  | JNum string       \<comment> \<open>any other number literal\<close>
  | JStr string
  | JArr "json list"
  | JObj "(string \<times> json) list"

section \<open>Marshalling\<close>

definition deviceFields :: "device \<Rightarrow> (string \<times> json) list" where
  "deviceFields d =
     [(''alias'', JStr (dev_Alias d)), (''version'', JStr (dev_Version d)),
      (''deviceModel'', JStr (dev_DeviceModel d)), (''deviceType'', JStr (dev_DeviceType d)),
      (''fingerprint'', JStr (dev_Fingerprint d)), (''port'', JInt (dev_Port d)),
      (''protocol'', JStr (dev_Protocol d)), (''download'', JBool (dev_Download d))]"

definition encodeDevice :: "device \<Rightarrow> json" where
  "encodeDevice d = JObj (deviceFields d)"

text \<open>The embedded \<open>Device\<close> contributes its fields to the outer object.\<close>

definition encodeAnnounce :: "announceMessage \<Rightarrow> json" where
  "encodeAnnounce m = JObj (deviceFields (msg_Device m) @ [(''announce'', JBool (msg_Announce m))])"

text \<open>A map is written with its keys in increasing order.\<close>

definition encodeMap :: "('a \<Rightarrow> json) \<Rightarrow> 'a gomap \<Rightarrow> json" where
  "encodeMap enc m = JObj (map (\<lambda>(k, v). (k, enc v)) (sort_key fst m))"

definition omitEmpty :: "bool \<Rightarrow> string \<Rightarrow> json \<Rightarrow> (string \<times> json) list" where
  "omitEmpty isEmpty k j = (if isEmpty then [] else [(k, j)])"

definition encodeMeta :: "fileMetadata \<Rightarrow> json" where
  "encodeMeta f =
     JObj ([(''id'', JStr (meta_ID f)), (''fileName'', JStr (meta_FileName f)),
            (''size'', JInt (meta_Size f)), (''fileType'', JStr (meta_FileType f))]
           @ omitEmpty (meta_Sha256 f = []) ''sha256'' (JStr (meta_Sha256 f))
           @ omitEmpty (meta_Preview f = []) ''preview'' (JStr (meta_Preview f))
           @ omitEmpty (meta_Metadata f = []) ''metadata'' (encodeMap JStr (meta_Metadata f)))"

definition encodePrepareUpload :: "prepareUploadRequest \<Rightarrow> json" where
  "encodePrepareUpload r =
     JObj [(''info'', encodeDevice (pureq_Info r)), (''files'', encodeMap encodeMeta (pureq_Files r))]"

definition encodePrepareResponse :: "prepareUploadResponse \<Rightarrow> json" where
  "encodePrepareResponse r =
     JObj [(''sessionId'', JStr (puresp_SessionID r)), (''files'', encodeMap JStr (puresp_Files r))]"

definition encodePrepareDownload :: "prepareDownloadResponse \<Rightarrow> json" where
  "encodePrepareDownload r =
     JObj [(''info'', encodeDevice (pdresp_Info r)), (''sessionId'', JStr (pdresp_SessionID r)),
           (''files'', encodeMap encodeMeta (pdresp_Files r))]"

definition encodeInfo :: "infoResponse \<Rightarrow> json" where
  "encodeInfo i =
     JObj [(''alias'', JStr (info_Alias i)), (''version'', JStr (info_Version i)),
           (''deviceModel'', JStr (info_DeviceModel i)), (''deviceType'', JStr (info_DeviceType i)),
           (''fingerprint'', JStr (info_Fingerprint i)), (''download'', JBool (info_Download i))]"

section \<open>Unmarshalling\<close>

text \<open>
  A JSON value is stored into a field of the structure it has so far: a value of the wrong kind,
  or an integer outside \<open>int64\<close>, is an error (\<open>None\<close>), \<open>null\<close> leaves the field as it is.
\<close>

definition decString :: "json \<Rightarrow> string \<Rightarrow> string option" where
  "decString j old = (case j of JStr s \<Rightarrow> Some s | JNull \<Rightarrow> Some old | _ \<Rightarrow> None)"

definition decBool :: "json \<Rightarrow> bool \<Rightarrow> bool option" where
  "decBool j old = (case j of JBool b \<Rightarrow> Some b | JNull \<Rightarrow> Some old | _ \<Rightarrow> None)"

definition decInt :: "json \<Rightarrow> int \<Rightarrow> int option" where
  "decInt j old =
     (case j of JInt i \<Rightarrow> if int64_ok i then Some i else None | JNull \<Rightarrow> Some old | _ \<Rightarrow> None)"

text \<open>Field names match exactly, or else up to case (with the two non-ASCII runes that fold).\<close>

fun foldName :: "string \<Rightarrow> string" where
  "foldName [] = []"
| "foldName (c # cs) =
     (if ord c = 226 \<and> take 2 cs = [chr 132, chr 170] then CHR ''k'' # foldName (drop 2 cs)
      else if ord c = 197 \<and> take 1 cs = [chr 191] then CHR ''s'' # foldName (drop 1 cs)
      else toLowerByte c # foldName cs)"

type_synonym 'a setter = "json \<Rightarrow> 'a \<Rightarrow> 'a option"

definition findField :: "(string \<times> 'a setter) list \<Rightarrow> string \<Rightarrow> 'a setter option" where
  "findField fs k =
     (case map_of fs k of
        Some f \<Rightarrow> Some f
      | None \<Rightarrow> map_of (map (\<lambda>(n, f). (foldName n, f)) fs) (foldName k))"

fun storeFields :: "(string \<times> 'a setter) list \<Rightarrow> (string \<times> json) list \<Rightarrow> 'a \<Rightarrow> 'a option" where
  "storeFields fs [] x = Some x"
| "storeFields fs ((k, j) # kvs) x =
     (case findField fs k of
        None \<Rightarrow> storeFields fs kvs x
      | Some f \<Rightarrow> (case f j x of None \<Rightarrow> None | Some x' \<Rightarrow> storeFields fs kvs x'))"

definition decStruct :: "(string \<times> 'a setter) list \<Rightarrow> 'a setter" where
  "decStruct fs j x =
     (case j of JObj kvs \<Rightarrow> storeFields fs kvs x | JNull \<Rightarrow> Some x | _ \<Rightarrow> None)"

fun storeEntries :: "'a setter \<Rightarrow> 'a \<Rightarrow> (string \<times> json) list \<Rightarrow> 'a gomap \<Rightarrow> 'a gomap option" where
  "storeEntries dec zero [] m = Some m"
| "storeEntries dec zero ((k, j) # kvs) m =
     (case dec j zero of
        None \<Rightarrow> None
      | Some v \<Rightarrow> storeEntries dec zero kvs (AList.update k v m))"

definition decMap :: "'a setter \<Rightarrow> 'a \<Rightarrow> json \<Rightarrow> 'a gomap \<Rightarrow> 'a gomap option" where
  "decMap dec zero j m =
     (case j of JObj kvs \<Rightarrow> storeEntries dec zero kvs m | JNull \<Rightarrow> Some [] | _ \<Rightarrow> None)"

definition deviceSetters :: "(string \<times> device setter) list" where
  "deviceSetters =
     [(''alias'', \<lambda>j d. map_option (\<lambda>v. d\<lparr>dev_Alias := v\<rparr>) (decString j (dev_Alias d))),
      (''version'', \<lambda>j d. map_option (\<lambda>v. d\<lparr>dev_Version := v\<rparr>) (decString j (dev_Version d))),
      (''deviceModel'', \<lambda>j d. map_option (\<lambda>v. d\<lparr>dev_DeviceModel := v\<rparr>) (decString j (dev_DeviceModel d))),
      (''deviceType'', \<lambda>j d. map_option (\<lambda>v. d\<lparr>dev_DeviceType := v\<rparr>) (decString j (dev_DeviceType d))),
      (''fingerprint'', \<lambda>j d. map_option (\<lambda>v. d\<lparr>dev_Fingerprint := v\<rparr>) (decString j (dev_Fingerprint d))),
      (''port'', \<lambda>j d. map_option (\<lambda>v. d\<lparr>dev_Port := v\<rparr>) (decInt j (dev_Port d))),
      (''protocol'', \<lambda>j d. map_option (\<lambda>v. d\<lparr>dev_Protocol := v\<rparr>) (decString j (dev_Protocol d))),
      (''download'', \<lambda>j d. map_option (\<lambda>v. d\<lparr>dev_Download := v\<rparr>) (decBool j (dev_Download d)))]"

definition decodeDevice :: "json \<Rightarrow> device option" where
  "decodeDevice j = decStruct deviceSetters j zeroDevice"

definition onDevice :: "device setter \<Rightarrow> announceMessage setter" where
  "onDevice f j m = map_option (\<lambda>d. m\<lparr>msg_Device := d\<rparr>) (f j (msg_Device m))"

definition decodeAnnounce :: "json \<Rightarrow> announceMessage option" where
  "decodeAnnounce j =
     decStruct
       (map (\<lambda>(n, f). (n, onDevice f)) deviceSetters
        @ [(''announce'', \<lambda>j m. map_option (\<lambda>v. m\<lparr>msg_Announce := v\<rparr>) (decBool j (msg_Announce m)))])
       j \<lparr>msg_Device = zeroDevice, msg_Announce = False\<rparr>"

definition metaSetters :: "(string \<times> fileMetadata setter) list" where
  "metaSetters =
     [(''id'', \<lambda>j f. map_option (\<lambda>v. f\<lparr>meta_ID := v\<rparr>) (decString j (meta_ID f))),
      (''fileName'', \<lambda>j f. map_option (\<lambda>v. f\<lparr>meta_FileName := v\<rparr>) (decString j (meta_FileName f))),
      (''size'', \<lambda>j f. map_option (\<lambda>v. f\<lparr>meta_Size := v\<rparr>) (decInt j (meta_Size f))),
      (''fileType'', \<lambda>j f. map_option (\<lambda>v. f\<lparr>meta_FileType := v\<rparr>) (decString j (meta_FileType f))),
      (''sha256'', \<lambda>j f. map_option (\<lambda>v. f\<lparr>meta_Sha256 := v\<rparr>) (decString j (meta_Sha256 f))),
      (''preview'', \<lambda>j f. map_option (\<lambda>v. f\<lparr>meta_Preview := v\<rparr>) (decString j (meta_Preview f))),
      (''metadata'', \<lambda>j f. map_option (\<lambda>v. f\<lparr>meta_Metadata := v\<rparr>) (decMap decString [] j (meta_Metadata f)))]"

definition decodePrepareUpload :: "json \<Rightarrow> prepareUploadRequest option" where
  "decodePrepareUpload j =
     decStruct
       [(''info'', \<lambda>j r. map_option (\<lambda>v. r\<lparr>pureq_Info := v\<rparr>) (decStruct deviceSetters j (pureq_Info r))),
        (''files'', \<lambda>j r. map_option (\<lambda>v. r\<lparr>pureq_Files := v\<rparr>)
                          (decMap (decStruct metaSetters) zeroMeta j (pureq_Files r)))]
       j \<lparr>pureq_Info = zeroDevice, pureq_Files = []\<rparr>"

definition decodePrepareResponse :: "json \<Rightarrow> prepareUploadResponse option" where
  "decodePrepareResponse j =
     decStruct
       [(''sessionId'', \<lambda>j r. map_option (\<lambda>v. r\<lparr>puresp_SessionID := v\<rparr>) (decString j (puresp_SessionID r))),
        (''files'', \<lambda>j r. map_option (\<lambda>v. r\<lparr>puresp_Files := v\<rparr>) (decMap decString [] j (puresp_Files r)))]
       j \<lparr>puresp_SessionID = [], puresp_Files = []\<rparr>"

section \<open>Round trips\<close>

text \<open>A field of the structure is found under its own name.\<close>

lemma findField_exact: "map_of fs k = Some f \<Longrightarrow> findField fs k = Some f"
  by (simp add: findField_def)

lemmas dec_defs = decString_def decBool_def decInt_def decStruct_def

lemma device_fields_store:
  assumes "int64_ok (dev_Port d)"
  shows "storeFields deviceSetters (deviceFields d) zeroDevice = Some (d\<lparr>dev_IP := []\<rparr>)"
  using assms
  by (simp add: deviceSetters_def deviceFields_def findField_exact dec_defs zeroDevice_def)

lemma decodeDevice_encodeDevice:
  "int64_ok (dev_Port d) \<Longrightarrow> decodeDevice (encodeDevice d) = Some (d\<lparr>dev_IP := []\<rparr>)"
  by (simp add: decodeDevice_def encodeDevice_def decStruct_def device_fields_store)

lemma storeEntries_new:
  assumes "gomap_wf kvs" "keys kvs \<inter> keys m = {}"
    and "\<forall>(k, j) \<in> set kvs. dec j zero = Some (g k)"
  shows "storeEntries dec zero kvs m = Some (m @ map (\<lambda>(k, j). (k, g k)) kvs)"
  using assms
proof (induction kvs arbitrary: m)
  case (Cons p kvs)
  obtain k j where p: "p = (k, j)" by force
  have "AList.update k (g k) m = m @ [(k, g k)]"
    using Cons.prems(2) by (induction m) (auto simp: p)
  moreover have "keys kvs \<inter> keys (m @ [(k, g k)]) = {}"
    using Cons.prems by (auto simp: p)
  ultimately show ?case
    using Cons.IH [of "m @ [(k, g k)]"] Cons.prems by (auto simp: p)
qed simp

text \<open>
  A map comes back in the order of its keys, each value as its own round trip leaves it.
\<close>

lemma decMap_encodeMap:
  assumes wf: "gomap_wf m" and dec: "\<forall>v \<in> snd ` set m. dec (enc v) zero = Some (h v)"
  shows "decMap dec zero (encodeMap enc m) [] = Some (map (\<lambda>(k, v). (k, h v)) (sort_key fst m))"
proof -
  let ?s = "sort_key fst m"
  let ?g = "\<lambda>k. h (the (map_of m k))"
  have ds: "distinct (map fst ?s)"
    using wf by (simp add: gomap_wf_def distinct_map inj_on_def)
  have look: "map_of m k = Some v" if "(k, v) \<in> set m" for k v
    using wf that by (simp add: gomap_wf_def)
  have "storeEntries dec zero (map (\<lambda>(k, v). (k, enc v)) ?s) []
        = Some ([] @ map (\<lambda>(k, j). (k, ?g k)) (map (\<lambda>(k, v). (k, enc v)) ?s))"
  proof (rule storeEntries_new)
    show "gomap_wf (map (\<lambda>(k, v). (k, enc v)) ?s)"
      using ds by (simp add: gomap_wf_def comp_def case_prod_unfold)
    show "\<forall>(k, j) \<in> set (map (\<lambda>(k, v). (k, enc v)) ?s). dec j zero = Some (?g k)"
      using dec look by force
  qed simp
  also have "[] @ map (\<lambda>(k, j). (k, ?g k)) (map (\<lambda>(k, v). (k, enc v)) ?s)
             = map (\<lambda>(k, v). (k, h v)) ?s"
    using look by auto
  finally show ?thesis by (simp add: decMap_def encodeMap_def)
qed

lemma map_of_sort_key:
  assumes "gomap_wf m"
  shows "map_of (sort_key fst m) = map_of m"
proof (rule map_of_eqI)
  have "distinct (map fst (sort_key fst m))"
    using assms by (simp add: gomap_wf_def distinct_map inj_on_def)
  then show "\<forall>k \<in> set (map fst (sort_key fst m)). map_of (sort_key fst m) k = map_of m k"
    using assms by (auto simp: gomap_wf_def)
qed simp

lemma gomap_wf_sort_key: "gomap_wf m \<Longrightarrow> gomap_wf (sort_key fst m)"
  by (simp add: gomap_wf_def distinct_map inj_on_def)

text \<open>What a decoded metadata record holds: the original, its own map in key order.\<close>

definition canonMeta :: "fileMetadata \<Rightarrow> fileMetadata" where
  "canonMeta f = f\<lparr>meta_Metadata := sort_key fst (meta_Metadata f)\<rparr>"

definition meta_ok :: "fileMetadata \<Rightarrow> bool" where
  "meta_ok f \<longleftrightarrow> int64_ok (meta_Size f) \<and> gomap_wf (meta_Metadata f)"

lemma decString_JStr [simp]: "decString (JStr s) old = Some s"
  by (simp add: decString_def)

lemma decMap_strings: "gomap_wf m \<Longrightarrow> decMap decString [] (encodeMap JStr m) [] = Some (sort_key fst m)"
  using decMap_encodeMap [of m decString JStr "[]" "\<lambda>v. v"] by simp

lemma decodeMeta_encodeMeta:
  assumes "meta_ok f"
  shows "decStruct metaSetters (encodeMeta f) zeroMeta = Some (canonMeta f)"
proof -
  have i: "int64_ok (meta_Size f)" and m: "gomap_wf (meta_Metadata f)"
    using assms by (auto simp: meta_ok_def)
  show ?thesis
    using i decMap_strings [OF m]
    by (cases "meta_Sha256 f = []"; cases "meta_Preview f = []"; cases "meta_Metadata f = []")
      (simp_all add: encodeMeta_def metaSetters_def omitEmpty_def findField_exact decStruct_def
        decInt_def zeroMeta_def canonMeta_def)
qed

section \<open>Properties\<close>

text \<open>An announcement decodes to what was sent, except for the in-memory IP field, which does not travel.\<close>

lemma decodeAnnounce_encodeAnnounce:
  assumes "int64_ok (dev_Port (msg_Device m))"
  shows "decodeAnnounce (encodeAnnounce m)
         = Some \<lparr>msg_Device = (msg_Device m)\<lparr>dev_IP := []\<rparr>, msg_Announce = msg_Announce m\<rparr>"
  using assms
  by (simp add: decodeAnnounce_def encodeAnnounce_def decStruct_def deviceSetters_def deviceFields_def
      findField_exact onDevice_def decBool_def decInt_def zeroDevice_def)

lemma decodePrepareUpload_encode:
  assumes port: "int64_ok (dev_Port (pureq_Info r))" and wf: "gomap_wf (pureq_Files r)"
    and metas: "\<forall>f \<in> snd ` set (pureq_Files r). meta_ok f"
  shows "\<exists>r'. decodePrepareUpload (encodePrepareUpload r) = Some r'
             \<and> pureq_Info r' = (pureq_Info r)\<lparr>dev_IP := []\<rparr>
             \<and> gomap_wf (pureq_Files r')
             \<and> map_of (pureq_Files r') = (\<lambda>k. map_option canonMeta (map_of (pureq_Files r) k))"
proof -
  let ?fs = "map (\<lambda>(k, v). (k, canonMeta v)) (sort_key fst (pureq_Files r))"
  have dev: "decStruct deviceSetters (encodeDevice (pureq_Info r)) zeroDevice
             = Some ((pureq_Info r)\<lparr>dev_IP := []\<rparr>)"
    using decodeDevice_encodeDevice [OF port] by (simp add: decodeDevice_def)
  have files: "decMap (decStruct metaSetters) zeroMeta (encodeMap encodeMeta (pureq_Files r)) []
               = Some ?fs"
    using metas decodeMeta_encodeMeta by (intro decMap_encodeMap [OF wf]) auto
  have "decodePrepareUpload (encodePrepareUpload r)
        = Some \<lparr>pureq_Info = (pureq_Info r)\<lparr>dev_IP := []\<rparr>, pureq_Files = ?fs\<rparr>"
    by (simp add: decodePrepareUpload_def encodePrepareUpload_def decStruct_def [of _ "JObj _"]
        findField_exact dev files)
  moreover have "gomap_wf ?fs"
    using gomap_wf_sort_key [OF wf] by (simp add: gomap_wf_def comp_def case_prod_unfold)
  moreover have "map_of ?fs k = map_option canonMeta (map_of (pureq_Files r) k)" for k
    using map_of_sort_key [OF wf] by (simp add: map_of_map)
  ultimately show ?thesis by (intro exI [of _ "\<lparr>pureq_Info = (pureq_Info r)\<lparr>dev_IP := []\<rparr>, pureq_Files = ?fs\<rparr>"]) auto
qed



end
