(* ===== verification/Sha256.thy ===== *)
theory Sha256
  imports GoStrings "HOL-Library.Word"
begin

text \<open>
  \<open>crypto/sha256\<close>: the SHA-256 digest of a byte string (FIPS 180-4), written out so that no
  theorem of the development depends on an uninterpreted hash. The components use two facts of
  it only: it is a function of the bytes, and its digest has 32 bytes.
\<close>

unbundle bit_operations_syntax

type_synonym u32 = "32 word"

text \<open>
  The constants are the first 32 bits of the fractional parts of the cube roots of the first 64
  primes, and of the square roots of the first eight. \<open>intRoot k n\<close> is the integer part of the
  \<open>k\<close>-th root of \<open>n\<close>, bit by bit from the top.
\<close>

definition shaPrimes :: "nat list" where
  "shaPrimes =
     [2, 3, 5, 7, 11, 13, 17, 19, 23, 29, 31, 37, 41, 43, 47, 53, 59, 61, 67, 71,
      73, 79, 83, 89, 97, 101, 103, 107, 109, 113, 127, 131, 137, 139, 149, 151, 157, 163, 167, 173,
      179, 181, 191, 193, 197, 199, 211, 223, 227, 229, 233, 239, 241, 251, 257, 263, 269, 271, 277, 281,
      283, 293, 307, 311]"

definition intRoot :: "nat \<Rightarrow> nat \<Rightarrow> nat" where
  "intRoot k n = foldr (\<lambda>i r. if (r + 2 ^ i) ^ k \<le> n then r + 2 ^ i else r) [0..<40] 0"

definition sha_k :: "u32 list" where
  "sha_k = map (\<lambda>p. word_of_int (int (intRoot 3 (p * 2 ^ 96)))) shaPrimes"

definition sha_init :: "u32 list" where
  "sha_init = map (\<lambda>p. word_of_int (int (intRoot 2 (p * 2 ^ 64)))) (take 8 shaPrimes)"

definition rotr :: "nat \<Rightarrow> u32 \<Rightarrow> u32" where
  "rotr n x = drop_bit n x OR push_bit (32 - n) x"

section \<open>Padding\<close>

definition be_bytes :: "nat \<Rightarrow> nat \<Rightarrow> string" where
  "be_bytes n v = map (\<lambda>i. chr (v div 256 ^ (n - 1 - i) mod 256)) [0..<n]"

definition sha_pad :: "string \<Rightarrow> string" where
  "sha_pad m =
     m @ [chr 128] @ replicate ((119 - length m mod 64) mod 64) (chr 0)
       @ be_bytes 8 (8 * length m mod 2 ^ 64)"

text \<open>The padded message is cut into 64-byte blocks of sixteen big-endian words.\<close>

fun to_words :: "string \<Rightarrow> u32 list" where
  "to_words (a # b # c # d # r) =
     of_nat (ord a * 16777216 + ord b * 65536 + ord c * 256 + ord d) # to_words r"
| "to_words _ = []"

fun blocks :: "nat \<Rightarrow> u32 list \<Rightarrow> u32 list list" where
  "blocks 0 ws = []"
| "blocks (Suc n) ws = take 16 ws # blocks n (drop 16 ws)"

section \<open>Compression\<close>

text \<open>The message schedule keeps the last sixteen words, newest first.\<close>

definition sched_next :: "u32 list \<Rightarrow> u32" where
  "sched_next w =
     (let x = w ! 14; y = w ! 1;
          s0 = rotr 7 x XOR rotr 18 x XOR drop_bit 3 x;
          s1 = rotr 17 y XOR rotr 19 y XOR drop_bit 10 y
      in w ! 15 + s0 + w ! 6 + s1)"

fun schedule :: "nat \<Rightarrow> u32 list \<Rightarrow> u32 list" where
  "schedule 0 w = []"
| "schedule (Suc n) w = (let x = sched_next w in x # schedule n (x # take 15 w))"

fun sha_round :: "u32 list \<Rightarrow> u32 \<times> u32 \<Rightarrow> u32 list" where
  "sha_round [a, b, c, d, e, f, g, h] (k, w) =
     (let s1 = rotr 6 e XOR rotr 11 e XOR rotr 25 e;
          ch = (e AND f) XOR (NOT e AND g);
          t1 = h + s1 + ch + k + w;
          s0 = rotr 2 a XOR rotr 13 a XOR rotr 22 a;
          maj = (a AND b) XOR (a AND c) XOR (b AND c);
          t2 = s0 + maj
      in [t1 + t2, a, b, c, d + t1, e, f, g])"
| "sha_round st _ = st"

definition sha_block :: "u32 list \<Rightarrow> u32 list \<Rightarrow> u32 list" where
  "sha_block st blk =
     map2 (+) st (foldl sha_round st (zip sha_k (blk @ schedule 48 (rev blk))))"

definition word_bytes :: "u32 \<Rightarrow> string" where
  "word_bytes w = be_bytes 4 (unat w)"

definition sha256 :: "string \<Rightarrow> string" where
  "sha256 m =
     (let p = sha_pad m
      in concat (map word_bytes (foldl sha_block sha_init (blocks (length p div 64) (to_words p)))))"

section \<open>The digest has 32 bytes\<close>

lemma length_shaPrimes: "length shaPrimes = 64"
  by (simp add: shaPrimes_def)

lemma length_be_bytes [simp]: "length (be_bytes n v) = n"
  by (simp add: be_bytes_def)

lemma length_sha_round: "length (sha_round st kw) = length st"
  by (induction st kw rule: sha_round.induct) (auto simp: Let_def)

lemma length_sha_rounds: "length (foldl sha_round st kws) = length st"
  by (induction kws arbitrary: st) (auto simp: length_sha_round)

lemma length_sha_block: "length (sha_block st blk) = length st"
  by (simp add: sha_block_def length_sha_rounds)

lemma length_sha_blocks: "length (foldl sha_block st bs) = length st"
  by (induction bs arbitrary: st) (auto simp: length_sha_block)

lemma length_concat_word_bytes: "length (concat (map word_bytes ws)) = 4 * length ws"
  by (induction ws) (auto simp: word_bytes_def)

lemma length_sha256 [simp]: "length (sha256 m) = 32"
  by (simp add: sha256_def Let_def length_concat_word_bytes length_sha_blocks sha_init_def
      length_shaPrimes)

end
