(* ===== verification/GoPath.thy ===== *)
theory GoPath
  imports GoStrings
begin

text \<open>
  Go's \<open>path/filepath\<close> for the Unix separator: \<open>Base\<close>, \<open>Ext\<close>, \<open>Clean\<close> and \<open>Join\<close>, with the
  facts the server's path handling rests on: a plain name joined to a directory is a direct
  child of it, and distinct names give distinct paths.
\<close>

section \<open>Base and Ext\<close>

abbreviation slash :: char where "slash \<equiv> CHR ''/''"

abbreviation dot :: char where "dot \<equiv> CHR ''.''"

definition Base :: "string \<Rightarrow> string" where
  "Base path =
     (if path = [] then ''.''
      else let stripped = rev (dropWhile (\<lambda>c. c = slash) (rev path));
               b = rev (takeWhile (\<lambda>c. c \<noteq> slash) (rev stripped))
           in if b = [] then ''/'' else b)"

definition Ext :: "string \<Rightarrow> string" where
  "Ext path =
     (let t = takeWhile (\<lambda>c. c \<noteq> dot \<and> c \<noteq> slash) (rev path)
      in case drop (length t) (rev path) of
           c # _ \<Rightarrow> if c = dot then dot # rev t else []
         | [] \<Rightarrow> [])"

section \<open>Clean and Join\<close>

text \<open>
  \<open>Clean\<close> works through the slash-separated elements with a stack: empty elements and \<open>.\<close> are
  dropped, \<open>..\<close> removes the element before it, is dropped at the root and kept at the front of
  a relative path.
\<close>

fun clean_step :: "bool \<Rightarrow> string \<Rightarrow> string list \<Rightarrow> string list" where
  "clean_step rooted e stack =
     (if e = [] \<or> e = ''.'' then stack
      else if e = ''..'' then
        (case stack of
           [] \<Rightarrow> if rooted then [] else [''..'']
         | prev # rest \<Rightarrow> if prev = ''..'' then ''..'' # stack else rest)
      else e # stack)"

definition clean_elems :: "bool \<Rightarrow> string \<Rightarrow> string list" where
  "clean_elems rooted p = rev (fold (clean_step rooted) (Split p slash) [])"

definition isRooted :: "string \<Rightarrow> bool" where
  "isRooted p \<longleftrightarrow> (case p of c # _ \<Rightarrow> c = slash | [] \<Rightarrow> False)"

definition render_path :: "bool \<Rightarrow> string list \<Rightarrow> string" where
  "render_path rooted es =
     (if rooted then slash # Join es ''/'' else if es = [] then ''.'' else Join es ''/'')"

definition Clean :: "string \<Rightarrow> string" where
  "Clean p = (if p = [] then ''.'' else render_path (isRooted p) (clean_elems (isRooted p) p))"

definition PathJoin :: "string list \<Rightarrow> string" where
  "PathJoin elems =
     (case dropWhile (\<lambda>e. e = []) elems of [] \<Rightarrow> [] | es \<Rightarrow> Clean (Join es ''/''))"

section \<open>Plain names\<close>

text \<open>A plain name is one path element that names an entry of the directory it is joined to.\<close>

definition plain_name :: "string \<Rightarrow> bool" where
  "plain_name n \<longleftrightarrow> slash \<notin> set n \<and> n \<noteq> [] \<and> n \<noteq> ''.'' \<and> n \<noteq> ''..''"

definition child :: "string \<Rightarrow> string \<Rightarrow> string" where
  "child d n = render_path (isRooted d) (clean_elems (isRooted d) d @ [n])"

lemma clean_elems_snoc:
  assumes "plain_name n"
  shows "clean_elems r (d @ slash # n) = clean_elems r d @ [n]"
proof -
  have "Split (d @ slash # n) slash = Split d slash @ [n]"
    using assms by (simp add: Split_append Split_free plain_name_def)
  then show ?thesis
    using assms by (simp add: clean_elems_def plain_name_def)
qed

lemma isRooted_append [simp]: "d \<noteq> [] \<Longrightarrow> isRooted (d @ x) = isRooted d"
  by (cases d) (auto simp: isRooted_def)

lemma clean_elems_Nil [simp]: "clean_elems r [] = []"
  by (simp add: clean_elems_def)

lemma plain_not_rooted: "plain_name n \<Longrightarrow> \<not> isRooted n"
  by (auto simp: plain_name_def isRooted_def split: list.splits)

lemma PathJoin_plain:
  assumes "plain_name n"
  shows "PathJoin [d, n] = child d n"
proof (cases "d = []")
  case True
  have "clean_elems False n = [n]"
    using assms by (simp add: clean_elems_def plain_name_def Split_free)
  then show ?thesis
    using True assms plain_not_rooted [OF assms]
    by (auto simp: PathJoin_def Clean_def child_def isRooted_def plain_name_def split: list.splits)
next
  case False
  then show ?thesis
    using assms by (simp add: PathJoin_def Clean_def child_def clean_elems_snoc)
qed

subsection \<open>The elements of a cleaned path\<close>

text \<open>
  Every element that survives cleaning is free of slashes and not empty; the elements of a
  rooted path hold no \<open>..\<close>.
\<close>

definition elem_ok :: "string \<Rightarrow> bool" where
  "elem_ok e \<longleftrightarrow> slash \<notin> set e \<and> e \<noteq> [] \<and> e \<noteq> ''.''"

lemma plain_elem_ok: "plain_name n \<Longrightarrow> elem_ok n"
  by (simp add: plain_name_def elem_ok_def)

lemma elem_ok_dotdot [simp]: "elem_ok ''..''"
  by (simp add: elem_ok_def)

lemma clean_step_ok:
  assumes "slash \<notin> set e" "\<forall>x \<in> set stack. elem_ok x"
  shows "\<forall>x \<in> set (clean_step r e stack). elem_ok x"
proof (cases "e = [] \<or> e = ''.'' \<or> e = ''..''")
  case True
  then show ?thesis using assms(2) by (cases stack) auto
next
  case False
  then have "elem_ok e" using assms(1) by (simp add: elem_ok_def)
  then show ?thesis using False assms(2) by simp
qed

lemma clean_fold_ok:
  "\<forall>e \<in> set es. slash \<notin> set e \<Longrightarrow> \<forall>x \<in> set stack. elem_ok x \<Longrightarrow>
   \<forall>x \<in> set (fold (clean_step r) es stack). elem_ok x"
proof (induction es arbitrary: stack)
  case (Cons e es)
  then have "\<forall>x \<in> set (clean_step r e stack). elem_ok x"
    by (intro clean_step_ok) auto
  then show ?case using Cons.IH Cons.prems(1) by (simp del: clean_step.simps)
qed simp

lemma clean_elems_ok: "\<forall>x \<in> set (clean_elems r p). elem_ok x"
  unfolding clean_elems_def
  using clean_fold_ok [of "Split p slash" "[]" r] Split_pieces_free by auto

lemma Split_render_inj:
  assumes "\<forall>e \<in> set es. slash \<notin> set e" "\<forall>e \<in> set fs. slash \<notin> set e" "es \<noteq> []" "fs \<noteq> []"
    and "render_path r es = render_path r fs"
  shows "es = fs"
proof -
  have "Join es [slash] = Join fs [slash]"
    using assms(3-5) by (auto simp: render_path_def split: if_splits)
  then show ?thesis
    using assms by (metis Split_Join)
qed

text \<open>Two plain names under one directory give the same path only when they are equal.\<close>

lemma child_inject:
  assumes "plain_name m" "plain_name n"
  shows "child d m = child d n \<longleftrightarrow> m = n"
proof
  assume eq: "child d m = child d n"
  have "\<forall>e \<in> set (clean_elems (isRooted d) d @ [k]). slash \<notin> set e" if "plain_name k" for k
    using clean_elems_ok [of "isRooted d" d] that by (auto simp: elem_ok_def plain_name_def)
  then have "clean_elems (isRooted d) d @ [m] = clean_elems (isRooted d) d @ [n]"
    using eq assms unfolding child_def by (intro Split_render_inj [of _ _ "isRooted d"]) auto
  then show "m = n" by simp
qed simp

text \<open>The name is the last element of the child's path.\<close>

lemma Split_child:
  assumes "plain_name n"
  shows "n \<in> set (Split (child d n) slash)"
proof -
  let ?es = "clean_elems (isRooted d) d @ [n]"
  have free: "\<forall>e \<in> set ?es. slash \<notin> set e"
    using clean_elems_ok [of "isRooted d" d] assms by (auto simp: elem_ok_def plain_name_def)
  then have "Split (Join ?es [slash]) slash = ?es" by (intro Split_Join) auto
  then have "n \<in> set (Split (Join ?es [slash]) slash)" by simp
  then show ?thesis
    by (cases "isRooted d") (simp_all add: child_def render_path_def)
qed

lemma Split_subset: "e \<in> set (Split p sep) \<Longrightarrow> set e \<subseteq> set p"
proof (induction p arbitrary: e)
  case (Cons a p)
  obtain q qs where q: "Split p sep = q # qs" by (cases "Split p sep") auto
  then have "set q \<subseteq> set p" "\<And>x. x \<in> set qs \<Longrightarrow> set x \<subseteq> set p"
    using Cons.IH by auto
  then show ?case using Cons.prems q by (fastforce split: if_splits)
qed simp

text \<open>\<open>Base\<close> yields a single element: it has no slash, unless it is the root itself.\<close>

lemma Base_nonempty [simp]: "Base p \<noteq> []"
  by (simp add: Base_def Let_def)

lemma Base_no_slash: "Base p \<noteq> ''/'' \<Longrightarrow> slash \<notin> set (Base p)"
  by (auto simp: Base_def Let_def dest: set_takeWhileD split: if_splits)

lemma Base_cases:
  obtains "Base p = ''/''" | "Base p = ''.''" | "Base p = ''..''" | "plain_name (Base p)"
proof (cases "Base p = ''/'' \<or> Base p = ''.'' \<or> Base p = ''..''")
  case False
  then show ?thesis
    using that(4) Base_no_slash [of p] by (simp add: plain_name_def)
qed (use that in auto)

text \<open>A name without a slash is its own base.\<close>

lemma Base_id:
  assumes "slash \<notin> set n" "n \<noteq> []"
  shows "Base n = n"
proof -
  have dw: "dropWhile (\<lambda>c. c = slash) (rev n) = rev n"
    using assms by (simp add: dropWhile_eq_self_iff hd_rev) (metis last_in_set)
  have tw: "takeWhile (\<lambda>c. c \<noteq> slash) (rev n) = rev n"
    using assms(1) by (intro takeWhile_eq_all_conv [THEN iffD2]) auto
  show ?thesis
    unfolding Base_def Let_def dw using assms(2) tw by (simp del: takeWhile_eq_all_conv)
qed

text \<open>\<open>Ext\<close> is a suffix of the name; the rest of the name is what comes before it.\<close>

lemma Ext_suffix: "\<exists>b. p = b @ Ext p"
proof -
  let ?t = "takeWhile (\<lambda>c. c \<noteq> dot \<and> c \<noteq> slash) (rev p)"
  have split: "rev p = ?t @ drop (length ?t) (rev p)"
    by (simp flip: dropWhile_eq_drop)
  show ?thesis
  proof (cases "drop (length ?t) (rev p)")
    case Nil
    then show ?thesis by (simp add: Ext_def)
  next
    case (Cons c r)
    then have "rev p = ?t @ c # r" using split by simp
    then have "p = rev (?t @ c # r)" by (metis rev_rev_ident)
    then have "p = rev r @ (c # rev ?t)" by simp
    then show ?thesis
      using Cons by (cases "c = dot") (auto simp: Ext_def)
  qed
qed

lemma Ext_length: "length (Ext p) \<le> length p"
  using Ext_suffix [of p] by (metis le_add2 length_append)

lemma stem_Ext: "take (length p - length (Ext p)) p @ Ext p = p"
proof -
  obtain b where b: "p = b @ Ext p" using Ext_suffix by blast
  then have "length p - length (Ext p) = length b" by (metis add_diff_cancel_right' length_append)
  then show ?thesis using b by (metis append_eq_conv_conj)
qed

end
