(* ===== verification/GoFS.thy ===== *)
theory GoFS
  imports GoPath
begin

text \<open>
  The file system as \<open>os\<close> shows it: \<open>Stat\<close>, \<open>Create\<close>, writing through an open file, \<open>Remove\<close>,
  \<open>ReadFile\<close>, \<open>WriteFile\<close>. Paths are the strings the source passes. The kernel's own limits are
  part of the model (a NUL byte, an element over 255 bytes, a path of 4096 bytes or more);
  every other refusal (permissions, an I/O error, an element that is not a directory) is the
  state component \<open>fs_refuse\<close>, an arbitrary function of the path.
\<close>

datatype os_error = ENOENT | EEXIST | EINVAL | ENAMETOOLONG | EACCES | ENOTDIR | EISDIR | ENOSPC | EIO

datatype node = Dir int | File string

record fsys =
  fs_nodes :: "(string \<times> node) list"
  fs_refuse :: "string \<Rightarrow> os_error option"

definition IsNotExist :: "os_error \<Rightarrow> bool" where
  "IsNotExist e \<longleftrightarrow> e = ENOENT"

text \<open>The checks the kernel makes on the path before it looks it up.\<close>

definition path_error :: "fsys \<Rightarrow> string \<Rightarrow> os_error option" where
  "path_error fs p =
     (if CHR 0x00 \<in> set p then Some EINVAL
      else if 4096 \<le> length p \<or> list_ex (\<lambda>e. 255 < length e) (Split p slash) then Some ENAMETOOLONG
      else fs_refuse fs p)"

definition Stat :: "fsys \<Rightarrow> string \<Rightarrow> os_error + node" where
  "Stat fs p =
     (case path_error fs p of
        Some e \<Rightarrow> Inl e
      | None \<Rightarrow> (case map_of (fs_nodes fs) p of None \<Rightarrow> Inl ENOENT | Some n \<Rightarrow> Inr n))"

fun nodeSize :: "node \<Rightarrow> int" where
  "nodeSize (Dir n) = n"
| "nodeSize (File bs) = int (length bs)"

fun isDir :: "node \<Rightarrow> bool" where
  "isDir (Dir _) = True"
| "isDir (File _) = False"

text \<open>\<open>os.Create\<close>: an existing file is truncated, a missing one is made.\<close>

definition Create :: "fsys \<Rightarrow> string \<Rightarrow> os_error + fsys" where
  "Create fs p =
     (case path_error fs p of
        Some e \<Rightarrow> Inl e
      | None \<Rightarrow>
          (case map_of (fs_nodes fs) p of
             Some (Dir _) \<Rightarrow> Inl EISDIR
           | _ \<Rightarrow> Inr (fs\<lparr>fs_nodes := AList.update p (File []) (fs_nodes fs)\<rparr>)))"

text \<open>Bytes written at the end of the open file \<open>p\<close>; nothing is visible once it was unlinked.\<close>

definition appendFile :: "string \<Rightarrow> string \<Rightarrow> fsys \<Rightarrow> fsys" where
  "appendFile p bs fs =
     (case map_of (fs_nodes fs) p of
        Some (File old) \<Rightarrow> fs\<lparr>fs_nodes := AList.update p (File (old @ bs)) (fs_nodes fs)\<rparr>
      | _ \<Rightarrow> fs)"

definition Remove :: "string \<Rightarrow> fsys \<Rightarrow> fsys" where
  "Remove p fs = fs\<lparr>fs_nodes := AList.delete p (fs_nodes fs)\<rparr>"

definition ReadFile :: "fsys \<Rightarrow> string \<Rightarrow> os_error + string" where
  "ReadFile fs p =
     (case Stat fs p of
        Inl e \<Rightarrow> Inl e
      | Inr (Dir _) \<Rightarrow> Inl EISDIR
      | Inr (File bs) \<Rightarrow> Inr bs)"

definition WriteFile :: "fsys \<Rightarrow> string \<Rightarrow> string \<Rightarrow> os_error + fsys" where
  "WriteFile fs p bs =
     (case Create fs p of Inl e \<Rightarrow> Inl e | Inr fs' \<Rightarrow> Inr (appendFile p bs fs'))"

definition fileAt :: "fsys \<Rightarrow> string \<Rightarrow> string option" where
  "fileAt fs p = (case map_of (fs_nodes fs) p of Some (File bs) \<Rightarrow> Some bs | _ \<Rightarrow> None)"

section \<open>Facts\<close>

lemma Stat_NotExist_iff:
  "Stat fs p = Inl ENOENT \<longleftrightarrow>
     path_error fs p = Some ENOENT \<or> path_error fs p = None \<and> p \<notin> keys (fs_nodes fs)"
  by (auto simp: Stat_def map_of_None_iff split: option.splits dest: map_of_Some_key)

lemma Stat_exists:
  "path_error fs p = None \<Longrightarrow> map_of (fs_nodes fs) p = Some n \<Longrightarrow> Stat fs p = Inr n"
  by (simp add: Stat_def)

lemma path_error_nodes [simp]: "path_error (fs\<lparr>fs_nodes := ns\<rparr>) p = path_error fs p"
  by (simp add: path_error_def)

lemma Create_Inr:
  "Create fs p = Inr fs' \<Longrightarrow>
     fs_nodes fs' = AList.update p (File []) (fs_nodes fs) \<and> fs_refuse fs' = fs_refuse fs"
  by (auto simp: Create_def split: option.splits node.splits)

lemma fileAt_Create: "Create fs p = Inr fs' \<Longrightarrow> fileAt fs' q = (if q = p then Some [] else fileAt fs q)"
  by (auto simp: fileAt_def dest: Create_Inr)

lemma fileAt_append:
  "fileAt (appendFile p bs fs) q =
     (if q = p then map_option (\<lambda>old. old @ bs) (fileAt fs p) else fileAt fs q)"
  by (auto simp: fileAt_def appendFile_def split: option.splits node.splits)

lemma fileAt_Remove: "fileAt (Remove p fs) q = (if q = p then None else fileAt fs q)"
  by (auto simp: fileAt_def Remove_def)

lemma appendFile_refuse [simp]: "fs_refuse (appendFile p bs fs) = fs_refuse fs"
  by (auto simp: appendFile_def split: option.splits node.splits)

lemma Remove_refuse [simp]: "fs_refuse (Remove p fs) = fs_refuse fs"
  by (simp add: Remove_def)

lemma path_error_cong: "fs_refuse fs = fs_refuse fs' \<Longrightarrow> path_error fs p = path_error fs' p"
  by (simp add: path_error_def)

lemma path_error_append [simp]: "path_error (appendFile q bs fs) p = path_error fs p"
  by (rule path_error_cong) simp

lemma path_error_Remove [simp]: "path_error (Remove q fs) p = path_error fs p"
  by (rule path_error_cong) simp

lemma nodes_appendFile_other:
  "q \<noteq> p \<Longrightarrow> map_of (fs_nodes (appendFile p bs fs)) q = map_of (fs_nodes fs) q"
  by (auto simp: appendFile_def split: option.splits node.splits)

lemma nodes_Remove_other: "q \<noteq> p \<Longrightarrow> map_of (fs_nodes (Remove p fs)) q = map_of (fs_nodes fs) q"
  by (auto simp: Remove_def)

lemma nodes_Create_other:
  "Create fs p = Inr fs' \<Longrightarrow> q \<noteq> p \<Longrightarrow> map_of (fs_nodes fs') q = map_of (fs_nodes fs) q"
  by (auto dest: Create_Inr)

lemma ReadFile_WriteFile:
  assumes "WriteFile fs p bs = Inr fs'"
  shows "ReadFile fs' p = Inr bs"
proof -
  obtain fs1 where c: "Create fs p = Inr fs1" and fs': "fs' = appendFile p bs fs1"
    using assms by (auto simp: WriteFile_def split: sum.splits)
  have "path_error fs p = None"
    using c by (auto simp: Create_def split: option.splits)
  then have "path_error fs1 p = None"
    using Create_Inr [OF c] by (metis path_error_cong)
  then show ?thesis
    using Create_Inr [OF c] by (simp add: fs' ReadFile_def Stat_def appendFile_def)
qed

end
