(* ===== verification/Crypto.thy ===== *)
theory Crypto
  imports Sha256 GoFS
begin

text \<open>
  \<open>pkg/crypto/crypto.go\<close>: the certificate fingerprint, and loading or generating the TLS
  credentials. Key generation and X.509 are the named parameters of \<open>x509Env\<close>; certificates are
  their DER bytes, files are the file system of \<open>GoFS\<close>.
\<close>

section \<open>Fingerprint\<close>

definition CalculateFingerprint :: "string \<Rightarrow> string" where
  "CalculateFingerprint der = hexEncode (sha256 der)"

section \<open>Generating a certificate\<close>

text \<open>
  The library functions: \<open>pem.EncodeToMemory\<close> on a block type and bytes, \<open>tls.X509KeyPair\<close> on two
  PEM texts (leaf DER on success), and whether \<open>x509.ParseCertificate\<close> accepts DER bytes.
\<close>

record x509Env =
  xe_PemEncode :: "string \<Rightarrow> string \<Rightarrow> string"
  xe_KeyPair :: "string \<Rightarrow> string \<Rightarrow> string option"
  xe_Parses :: "string \<Rightarrow> bool"

text \<open>Documented behaviour: a pair built from the PEM text of a certificate has that leaf.\<close>

definition keyPair_ok :: "x509Env \<Rightarrow> bool" where
  "keyPair_ok xe \<longleftrightarrow>
     (\<forall>der k d. xe_KeyPair xe (xe_PemEncode xe ''CERTIFICATE'' der) k = Some d \<longrightarrow> d = der)"

text \<open>
  The outcomes of the random and fallible calls of one run: the key, the serial number, the DER
  bytes \<open>x509.CreateCertificate\<close> makes from them, and the PKCS8 form of the key.
\<close>

record certRun =
  cr_GenerateKey :: "string option"
  cr_Serial :: "nat option"
  cr_Create :: "string \<Rightarrow> nat \<Rightarrow> string option"
  cr_Marshal :: "string \<Rightarrow> string option"

datatype genError = ErrKey | ErrSerial | ErrCreate | ErrMarshal | ErrKeyPair | ErrParse

definition GenerateSelfSignedCert :: "x509Env \<Rightarrow> certRun \<Rightarrow> genError + (string \<times> string \<times> string)" where
  "GenerateSelfSignedCert xe cr =
     (case cr_GenerateKey cr of
        None \<Rightarrow> Inl ErrKey
      | Some priv \<Rightarrow>
      (case cr_Serial cr of
        None \<Rightarrow> Inl ErrSerial
      | Some serial \<Rightarrow>
      (case cr_Create cr priv serial of
        None \<Rightarrow> Inl ErrCreate
      | Some derBytes \<Rightarrow>
        let certPEM = xe_PemEncode xe ''CERTIFICATE'' derBytes
        in (case cr_Marshal cr priv of
              None \<Rightarrow> Inl ErrMarshal
            | Some privBytes \<Rightarrow>
              let keyPEM = xe_PemEncode xe ''PRIVATE KEY'' privBytes
              in (case xe_KeyPair xe certPEM keyPEM of
                    None \<Rightarrow> Inl ErrKeyPair
                  | Some leaf \<Rightarrow> if xe_Parses xe derBytes then Inr (leaf, certPEM, keyPEM) else Inl ErrParse)))))"

lemma GenerateSelfSignedCert_Inr:
  assumes "GenerateSelfSignedCert xe cr = Inr (leaf, c, k)" "keyPair_ok xe"
  shows "xe_KeyPair xe c k = Some leaf \<and> xe_Parses xe leaf"
  using assms
  by (auto simp: GenerateSelfSignedCert_def keyPair_ok_def Let_def split: option.splits if_splits)

section \<open>Credentials\<close>

text \<open>
  \<open>TLSCert\<close> and \<open>X509Cert\<close> are both represented by the DER bytes of the leaf certificate
  together with the private key PEM the pair was built from.
\<close>

record certificateInfo =
  ci_Leaf :: string
  ci_Key :: string
  ci_Fingerprint :: string

datatype certError =
    ErrGenerate genError
  | ErrMkdir os_error
  | ErrWriteCert os_error
  | ErrWriteKey os_error

definition statOk :: "fsys \<Rightarrow> string \<Rightarrow> bool" where
  "statOk fs p = (case Stat fs p of Inr _ \<Rightarrow> True | Inl _ \<Rightarrow> False)"

text \<open>
  The first half of \<open>LoadOrGenerateCredentials\<close>: what the files on disk give, if anything.
  \<open>tls.LoadX509KeyPair\<close> reads both files and pairs them.
\<close>

definition loadExisting :: "x509Env \<Rightarrow> fsys \<Rightarrow> string \<Rightarrow> string \<Rightarrow> certificateInfo option" where
  "loadExisting xe fs certPath keyPath =
     (if certPath \<noteq> [] \<and> keyPath \<noteq> [] \<and> statOk fs certPath \<and> statOk fs keyPath then
        (case (ReadFile fs certPath, ReadFile fs keyPath) of
           (Inr c, Inr k) \<Rightarrow>
             (case xe_KeyPair xe c k of
                None \<Rightarrow> None
              | Some der \<Rightarrow>
                  if xe_Parses xe der
                  then Some \<lparr>ci_Leaf = der, ci_Key = k, ci_Fingerprint = CalculateFingerprint der\<rparr>
                  else None)
         | _ \<Rightarrow> None)
      else None)"

text \<open>\<open>mkdir\<close> is what \<open>os.MkdirAll\<close> answers for the directory of the certificate.\<close>

definition LoadOrGenerateCredentials ::
  "x509Env \<Rightarrow> certRun \<Rightarrow> os_error option \<Rightarrow> string \<Rightarrow> string \<Rightarrow> fsys
   \<Rightarrow> (certError + certificateInfo) \<times> fsys" where
  "LoadOrGenerateCredentials xe cr mkdir certPath keyPath fs =
     (case loadExisting xe fs certPath keyPath of
        Some ci \<Rightarrow> (Inr ci, fs)
      | None \<Rightarrow>
          (case GenerateSelfSignedCert xe cr of
             Inl e \<Rightarrow> (Inl (ErrGenerate e), fs)
           | Inr (der, certPEM, keyPEM) \<Rightarrow>
               let ci = \<lparr>ci_Leaf = der, ci_Key = keyPEM, ci_Fingerprint = CalculateFingerprint der\<rparr>
               in if certPath \<noteq> [] \<and> keyPath \<noteq> [] then
                    (case mkdir of
                       Some e \<Rightarrow> (Inl (ErrMkdir e), fs)
                     | None \<Rightarrow>
                         (case WriteFile fs certPath certPEM of
                            Inl e \<Rightarrow> (Inl (ErrWriteCert e), fs)
                          | Inr fs1 \<Rightarrow>
                              (case WriteFile fs1 keyPath keyPEM of
                                 Inl e \<Rightarrow> (Inl (ErrWriteKey e), fs1)
                               | Inr fs2 \<Rightarrow> (Inr ci, fs2))))
                  else (Inr ci, fs)))"

section \<open>Properties\<close>

text \<open>
  A fingerprint is 64 lower-case hexadecimal digits, and two certificates have
  the same fingerprint exactly when their SHA-256 digests agree.
\<close>

lemma fingerprint_format:
  "length (CalculateFingerprint der) = 64 \<and> list_all isLowerHex (CalculateFingerprint der)
   \<and> (CalculateFingerprint der = CalculateFingerprint der' \<longleftrightarrow> sha256 der = sha256 der')"
  by (auto simp: CalculateFingerprint_def list_all_iff dest: hexEncode_chars hexEncode_inject)

lemma WriteFile_other:
  "WriteFile fs p bs = Inr fs' \<Longrightarrow> q \<noteq> p \<Longrightarrow> ReadFile fs' q = ReadFile fs q"
proof -
  assume w: "WriteFile fs p bs = Inr fs'" and q: "q \<noteq> p"
  obtain fs1 where c: "Create fs p = Inr fs1" and fs': "fs' = appendFile p bs fs1"
    using w by (auto simp: WriteFile_def split: sum.splits)
  have "fs_refuse fs' = fs_refuse fs"
    using Create_Inr [OF c] by (simp add: fs')
  then have pe: "path_error fs' q = path_error fs q" by (rule path_error_cong)
  have ns: "map_of (fs_nodes fs') q = map_of (fs_nodes fs) q"
    using nodes_Create_other [OF c q] nodes_appendFile_other [OF q] by (simp add: fs')
  show ?thesis unfolding ReadFile_def Stat_def pe ns by (rule refl)
qed

lemma statOk_ReadFile: "ReadFile fs p = Inr bs \<Longrightarrow> statOk fs p"
  by (auto simp: ReadFile_def statOk_def split: sum.splits)

lemma loadExisting_files:
  assumes "ReadFile fs certPath = Inr c" "ReadFile fs keyPath = Inr k" "certPath \<noteq> []" "keyPath \<noteq> []"
    and "xe_KeyPair xe c k = Some der" "xe_Parses xe der"
  shows "loadExisting xe fs certPath keyPath
         = Some \<lparr>ci_Leaf = der, ci_Key = k, ci_Fingerprint = CalculateFingerprint der\<rparr>"
  using assms by (simp add: loadExisting_def statOk_ReadFile)

text \<open>
  C23: once a call with two different paths has succeeded, every later call on the
  files it left returns the same certificate with the same fingerprint and writes nothing. The
  identity of a device survives a restart.
\<close>

theorem credentials_stable:
  assumes lib: "keyPair_ok xe"
    and first: "LoadOrGenerateCredentials xe cr mkdir certPath keyPath fs = (Inr ci, fs')"
    and paths: "certPath \<noteq> []" "keyPath \<noteq> []" "certPath \<noteq> keyPath"
  shows "LoadOrGenerateCredentials xe cr' mkdir' certPath keyPath fs' = (Inr ci, fs')
         \<and> ci_Fingerprint ci = CalculateFingerprint (ci_Leaf ci)"
proof (cases "loadExisting xe fs certPath keyPath")
  case (Some c)
  moreover from this have "ci_Fingerprint c = CalculateFingerprint (ci_Leaf c)"
    by (auto simp: loadExisting_def split: if_splits sum.splits option.splits)
  ultimately show ?thesis using first by (auto simp: LoadOrGenerateCredentials_def)
next
  case None
  obtain der cp kp where g: "GenerateSelfSignedCert xe cr = Inr (der, cp, kp)"
    using first None
    by (cases "GenerateSelfSignedCert xe cr") (auto simp: LoadOrGenerateCredentials_def)
  obtain fs1 where w1: "WriteFile fs certPath cp = Inr fs1" and w2: "WriteFile fs1 keyPath kp = Inr fs'"
    and ci: "ci = \<lparr>ci_Leaf = der, ci_Key = kp, ci_Fingerprint = CalculateFingerprint der\<rparr>"
    using first None g paths
    by (auto simp: LoadOrGenerateCredentials_def Let_def split: option.splits sum.splits)
  have "ReadFile fs' certPath = Inr cp"
    using ReadFile_WriteFile [OF w1] WriteFile_other [OF w2 paths(3)] by simp
  then have "loadExisting xe fs' certPath keyPath = Some ci"
    using ReadFile_WriteFile [OF w2] GenerateSelfSignedCert_Inr [OF g lib] paths
    by (simp add: ci loadExisting_files)
  then show ?thesis by (simp add: LoadOrGenerateCredentials_def ci)
qed

text \<open>A library that encodes a block as its type, a colon and the bytes, for a concrete instance.\<close>

definition demo_x509 :: x509Env where
  "demo_x509 = \<lparr>xe_PemEncode = (\<lambda>t b. t @ CHR '':'' # b),
                xe_KeyPair = (\<lambda>c k. if take 12 c = ''CERTIFICATE:'' then Some (drop 12 c) else None),
                xe_Parses = (\<lambda>_. True)\<rparr>"

definition demo_run :: certRun where
  "demo_run = \<lparr>cr_GenerateKey = Some ''key'', cr_Serial = Some 7, cr_Create = (\<lambda>k n. Some (k @ Itoa (int n))),
               cr_Marshal = Some\<rparr>"

theorem credentials_stable_witness:
  "\<exists>ci fs'. LoadOrGenerateCredentials demo_x509 demo_run None ''c.pem'' ''k.pem''
               \<lparr>fs_nodes = [], fs_refuse = (\<lambda>_. None)\<rparr> = (Inr ci, fs')
     \<and> LoadOrGenerateCredentials demo_x509 (demo_run\<lparr>cr_GenerateKey := Some ''other''\<rparr>) None ''c.pem'' ''k.pem'' fs'
       = (Inr ci, fs')"
proof -
  let ?fs = "\<lparr>fs_nodes = [], fs_refuse = (\<lambda>_. None)\<rparr>"
  have ok: "keyPair_ok demo_x509" by (simp add: keyPair_ok_def demo_x509_def)
  have w1: "WriteFile ?fs ''c.pem'' c = Inr \<lparr>fs_nodes = [(''c.pem'', File c)], fs_refuse = (\<lambda>_. None)\<rparr>" for c
    by (simp add: WriteFile_def Create_def path_error_def appendFile_def)
  have w2: "WriteFile \<lparr>fs_nodes = [(''c.pem'', File c)], fs_refuse = (\<lambda>_. None)\<rparr> ''k.pem'' k
            = Inr \<lparr>fs_nodes = [(''c.pem'', File c), (''k.pem'', File k)], fs_refuse = (\<lambda>_. None)\<rparr>" for c k
    by (simp add: WriteFile_def Create_def path_error_def appendFile_def)
  have none: "loadExisting demo_x509 ?fs ''c.pem'' ''k.pem'' = None"
    by (simp add: loadExisting_def statOk_def Stat_def path_error_def)
  obtain d c k where gen: "GenerateSelfSignedCert demo_x509 demo_run = Inr (d, c, k)"
    by (simp add: GenerateSelfSignedCert_def demo_x509_def demo_run_def)
  obtain ci fs' where first:
    "LoadOrGenerateCredentials demo_x509 demo_run None ''c.pem'' ''k.pem'' ?fs = (Inr ci, fs')"
    by (simp add: LoadOrGenerateCredentials_def none gen w1 w2)
  from credentials_stable [OF ok first, of "demo_run\<lparr>cr_GenerateKey := Some ''other''\<rparr>" None] first
  show ?thesis by auto
qed

end
