(* ===== verification/GoNet.thy ===== *)
theory GoNet
  imports GoStrings
begin

text \<open>
  The pieces of \<open>net/url\<close> and \<open>net\<close> the source uses on strings: query parsing, percent
  escapes, the query of a URL, and \<open>net.SplitHostPort\<close>. A call that can fail returns an
  option; callers that drop the error read the empty strings Go returns with it.
\<close>

section \<open>Percent escapes\<close>

definition isUnreserved :: "char \<Rightarrow> bool" where
  "isUnreserved c \<longleftrightarrow>
     (65 \<le> ord c \<and> ord c \<le> 90) \<or> (97 \<le> ord c \<and> ord c \<le> 122) \<or> isDigit c
     \<or> c = CHR ''-'' \<or> c = CHR ''_'' \<or> c = CHR ''.'' \<or> c = CHR ''~''"

definition upperHexDigit :: "nat \<Rightarrow> char" where
  "upperHexDigit d = (if d < 10 then chr (48 + d) else chr (55 + d))"

definition hexVal :: "char \<Rightarrow> nat option" where
  "hexVal c =
     (if 48 \<le> ord c \<and> ord c \<le> 57 then Some (ord c - 48)
      else if 97 \<le> ord c \<and> ord c \<le> 102 then Some (ord c - 87)
      else if 65 \<le> ord c \<and> ord c \<le> 70 then Some (ord c - 55)
      else None)"

text \<open>The bytes \<open>url.PathEscape\<close> leaves alone: a plus sign is one of them.\<close>

definition keptInSegment :: "char \<Rightarrow> bool" where
  "keptInSegment c \<longleftrightarrow> isUnreserved c \<or> c \<in> {CHR ''$'', CHR ''&'', CHR ''+'', CHR '':'', CHR ''='', CHR ''@''}"

definition escapeByte :: "char \<Rightarrow> string" where
  "escapeByte c =
     (if keptInSegment c then [c]
      else [CHR ''%'', upperHexDigit (ord c div 16), upperHexDigit (ord c mod 16)])"

definition PathEscape :: "string \<Rightarrow> string" where
  "PathEscape s = concat (map escapeByte s)"

text \<open>
  The inverse: \<open>unescape True\<close> is \<open>url.QueryUnescape\<close>, which reads a plus sign as a space, and
  \<open>unescape False\<close> is \<open>url.PathUnescape\<close>. A percent sign without two hexadecimal digits is an
  error.
\<close>

fun unescape :: "bool \<Rightarrow> string \<Rightarrow> string option" where
  "unescape q [] = Some []"
| "unescape q (c # cs) =
     (if c = CHR ''%'' then
        (case cs of
           h # l # rest \<Rightarrow>
             (case (hexVal h, hexVal l) of
                (Some x, Some y) \<Rightarrow> map_option (Cons (chr (16 * x + y))) (unescape q rest)
              | _ \<Rightarrow> None)
         | _ \<Rightarrow> None)
      else map_option (Cons (if q \<and> c = CHR ''+'' then CHR '' '' else c)) (unescape q cs))"

lemma hexVal_upper: "d < 16 \<Longrightarrow> hexVal (upperHexDigit d) = Some d"
  by (auto simp: hexVal_def upperHexDigit_def)

lemma unescape_escapeByte:
  "unescape False (escapeByte c @ s) = map_option (Cons c) (unescape False s)"
proof (cases "keptInSegment c")
  case True
  then have "c \<noteq> CHR ''%''"
    by (auto simp: keptInSegment_def isUnreserved_def isDigit_def)
  with True show ?thesis by (simp add: escapeByte_def)
next
  case False
  have "ord c div 16 < 16" "ord c mod 16 < 16"
    using ord_lt [of c] by (auto simp: less_mult_imp_div_less)
  then show ?thesis
    using False by (simp add: escapeByte_def hexVal_upper)
qed

lemma unescape_PathEscape: "unescape False (PathEscape s) = Some s"
  by (induction s) (auto simp: PathEscape_def unescape_escapeByte)

lemma unescape_plain:
  "CHR ''%'' \<notin> set s \<Longrightarrow> CHR ''+'' \<notin> set s \<Longrightarrow> unescape q s = Some s"
  by (induction s) auto

section \<open>Queries\<close>

definition cutAt :: "char \<Rightarrow> string \<Rightarrow> string \<times> string" where
  "cutAt c s = (takeWhile (\<lambda>x. x \<noteq> c) s, drop 1 (dropWhile (\<lambda>x. x \<noteq> c) s))"

text \<open>\<open>url.ParseQuery\<close> for a caller that drops its error: malformed pairs are left out.\<close>

definition queryPair :: "string \<Rightarrow> (string \<times> string) list" where
  "queryPair p =
     (if p = [] \<or> CHR '';'' \<in> set p then []
      else case cutAt CHR ''='' p of
             (k, v) \<Rightarrow> (case (unescape True k, unescape True v) of
                          (Some k', Some v') \<Rightarrow> [(k', v')]
                        | _ \<Rightarrow> []))"

definition ParseQuery :: "string \<Rightarrow> (string \<times> string) list" where
  "ParseQuery q = concat (map queryPair (Split q CHR ''&''))"

text \<open>\<open>r.URL.Query().Get(key)\<close>: the first value of the key, or the empty string.\<close>

definition QueryGet :: "string \<Rightarrow> string \<Rightarrow> string" where
  "QueryGet q k = (case map_of (ParseQuery q) k of Some v \<Rightarrow> v | None \<Rightarrow> [])"

text \<open>The query of a URL as it is sent: what follows the first \<open>?\<close>, up to a \<open>#\<close>.\<close>

definition urlQuery :: "string \<Rightarrow> string" where
  "urlQuery u = snd (cutAt CHR ''?'' (fst (cutAt CHR ''#'' u)))"

definition urlBare :: "string \<Rightarrow> string" where
  "urlBare u = fst (cutAt CHR ''?'' (fst (cutAt CHR ''#'' u)))"

text \<open>A query value that reaches the other side as written.\<close>

definition query_safe :: "string \<Rightarrow> bool" where
  "query_safe s \<longleftrightarrow> set s \<inter> {CHR ''%'', CHR ''+'', CHR ''&'', CHR '';'', CHR ''#'', CHR ''=''} = {}"

lemma cutAt_Nil [simp]: "cutAt c [] = ([], [])"
  by (simp add: cutAt_def)

lemma cutAt_Cons: "cutAt c (x # s) = (if x = c then ([], s) else (x # fst (cutAt c s), snd (cutAt c s)))"
  by (simp add: cutAt_def)

lemma cutAt_free: "c \<notin> set s \<Longrightarrow> cutAt c s = (s, [])"
  by (induction s) (auto simp: cutAt_Cons)

lemma cutAt_at: "c \<notin> set s \<Longrightarrow> cutAt c (s @ c # t) = (s, t)"
  by (simp add: cutAt_def takeWhile_rev_free dropWhile_rev_free)

lemma cutAt_append: "c \<notin> set s \<Longrightarrow> cutAt c (s @ t) = (s @ fst (cutAt c t), snd (cutAt c t))"
  by (induction s) (auto simp: cutAt_def)

lemma queryPair_safe:
  assumes "query_safe k" "query_safe v" "k \<noteq> []"
  shows "queryPair (k @ CHR ''='' # v) = [(k, v)]"
  using assms by (auto simp: queryPair_def query_safe_def cutAt_at unescape_plain)

lemma ParseQuery_one: "CHR ''&'' \<notin> set p \<Longrightarrow> ParseQuery p = queryPair p"
  by (simp add: ParseQuery_def Split_free)

lemma ParseQuery_and: "ParseQuery (p @ CHR ''&'' # q) = ParseQuery p @ ParseQuery q"
  by (simp add: ParseQuery_def Split_append)

lemma ParseQuery_pair:
  assumes "query_safe k" "query_safe v" "k \<noteq> []"
  shows "ParseQuery (k @ CHR ''='' # v) = [(k, v)]"
proof -
  have "CHR ''&'' \<notin> set (k @ CHR ''='' # v)"
    using assms by (auto simp: query_safe_def)
  then show ?thesis using assms by (metis ParseQuery_one queryPair_safe)
qed

section \<open>Host and port\<close>

definition SplitHostPort :: "string \<Rightarrow> (string \<times> string) option" where
  "SplitHostPort hp =
     (let colon = CHR '':'';
          port = rev (takeWhile (\<lambda>c. c \<noteq> colon) (rev hp));
          i = length hp - length port - 1
      in if colon \<notin> set hp then None
         else if take 1 hp = ''['' then
           (if CHR '']'' \<notin> set hp then None
            else let end = length (takeWhile (\<lambda>c. c \<noteq> CHR '']'') hp)
                 in if end + 1 \<noteq> i then None
                    else if CHR ''['' \<in> set (drop 1 hp) then None
                    else if CHR '']'' \<in> set (drop (end + 1) hp) then None
                    else Some (drop 1 (take end hp), port))
         else let host = take i hp
              in if colon \<in> set host then None
                 else if CHR ''['' \<in> set hp \<or> CHR '']'' \<in> set hp then None
                 else Some (host, port))"

text \<open>The host, for callers that ignore the error: \<open>ip, _, _ := net.SplitHostPort(addr)\<close>.\<close>

definition hostOf :: "string \<Rightarrow> string" where
  "hostOf addr = (case SplitHostPort addr of Some (h, _) \<Rightarrow> h | None \<Rightarrow> [])"

lemma SplitHostPort_plain:
  assumes "set host \<inter> {CHR '':'', CHR ''['', CHR '']''} = {}"
    and "set port \<inter> {CHR '':'', CHR ''['', CHR '']''} = {}"
  shows "SplitHostPort (host @ CHR '':'' # port) = Some (host, port)"
proof -
  have tw: "takeWhile (\<lambda>c. c \<noteq> CHR '':'') (rev port @ CHR '':'' # rev host) = rev port"
    using assms(2) by (intro takeWhile_rev_free) auto
  have "take 1 (host @ CHR '':'' # port) \<noteq> ''[''"
    using assms(1) by (cases host) auto
  then show ?thesis
    using assms tw by (auto simp: SplitHostPort_def Let_def)
qed

lemma hostOf_plain:
  assumes "set host \<inter> {CHR '':'', CHR ''['', CHR '']''} = {}"
    and "set port \<inter> {CHR '':'', CHR ''['', CHR '']''} = {}"
  shows "hostOf (host @ CHR '':'' # port) = host"
  using SplitHostPort_plain [OF assms] by (simp add: hostOf_def)

end
