(* ===== verification/Session.thy ===== *)
theory Session
  imports Protocol GoNet
begin

text \<open>
  \<open>pkg/session/session.go\<close>, the \<open>UploadSession\<close>: its record, its constructor and every method,
  the invariant that ties the four maps of a session together, and what \<open>IsCompleted\<close> decides.
  The mutex makes each method atomic, so a method is a function of the session; \<open>ctx\<close> and
  \<open>cancel\<close> are the flag \<open>sess_canceled\<close>. \<open>time.Now()\<close> is an argument.
\<close>

section \<open>State\<close>

record uploadSession =
  sess_ID :: string
  sess_ClientIP :: string
  sess_ClientVerified :: bool
  sess_LastAccess :: gotime
  sess_Files :: "string gomap"
  sess_FilesMetadata :: "fileMetadata gomap"
  sess_Progress :: "int gomap"
  sess_completedFiles :: "bool gomap"
  sess_canceled :: bool

text \<open>
  \<open>github.com/google/uuid\<close> is not part of the repository: \<open>gen k\<close> is the string returned by the
  \<open>k\<close>-th call of \<open>uuid.NewString()\<close>, and a state counts the calls made. What the code relies on is
  that no string is returned twice and that the strings need no escaping in a query.
\<close>

definition uuid_ok :: "(nat \<Rightarrow> string) \<Rightarrow> bool" where
  "uuid_ok gen \<longleftrightarrow> inj gen \<and> (\<forall>n. gen n \<noteq> [] \<and> list_all isUnreserved (gen n))"

text \<open>A source with these properties, for the concrete instances of the theorems.\<close>

definition demo_uuid :: "nat \<Rightarrow> string" where
  "demo_uuid k = CHR ''u'' # Itoa (int k)"

lemma demo_uuid_ok: "uuid_ok demo_uuid"
  by (auto simp: uuid_ok_def demo_uuid_def inj_def list_all_iff isUnreserved_def dest!: Itoa_chars)

section \<open>Constructor\<close>

text \<open>The loop over \<open>filesMetadata\<close>, in the order the map is ranged over.\<close>

fun newFilesLoop ::
  "(nat \<Rightarrow> string) \<Rightarrow> fileMetadata gomap \<Rightarrow> nat \<Rightarrow> string gomap \<Rightarrow> int gomap \<Rightarrow> bool gomap
   \<Rightarrow> string gomap \<times> int gomap \<times> bool gomap \<times> nat" where
  "newFilesLoop gen [] n files progress completed = (files, progress, completed, n)"
| "newFilesLoop gen ((fid, meta) # ms) n files progress completed =
     newFilesLoop gen ms (Suc n) (AList.update fid (gen n) files) (AList.update fid 0 progress)
       (if meta_Size meta = 0 then AList.update fid True completed else completed)"

definition NewUploadSession ::
  "(nat \<Rightarrow> string) \<Rightarrow> nat \<Rightarrow> gotime \<Rightarrow> string \<Rightarrow> bool \<Rightarrow> fileMetadata gomap \<Rightarrow> uploadSession \<times> nat" where
  "NewUploadSession gen n now clientIP clientVerified filesMetadata =
     (let (files, progress, completed, n') = newFilesLoop gen filesMetadata n [] [] []
      in (\<lparr>sess_ID = gen n', sess_ClientIP = clientIP, sess_ClientVerified = clientVerified,
           sess_LastAccess = now, sess_Files = files, sess_FilesMetadata = filesMetadata,
           sess_Progress = progress, sess_completedFiles = completed, sess_canceled = False\<rparr>,
          Suc n'))"

section \<open>Methods\<close>

definition Cancel :: "uploadSession \<Rightarrow> uploadSession" where
  "Cancel s = s\<lparr>sess_canceled := True\<rparr>"

definition IsCanceled :: "uploadSession \<Rightarrow> bool" where
  "IsCanceled s = sess_canceled s"

definition Touch :: "gotime \<Rightarrow> uploadSession \<Rightarrow> uploadSession" where
  "Touch now s = s\<lparr>sess_LastAccess := now\<rparr>"

definition UpdateProgress :: "gotime \<Rightarrow> string \<Rightarrow> int \<Rightarrow> uploadSession \<Rightarrow> uploadSession" where
  "UpdateProgress now fileID bytes s =
     (let s1 = (case map_of (sess_Progress s) fileID of
                  None \<Rightarrow> s
                | Some _ \<Rightarrow>
                    let s0 = s\<lparr>sess_Progress := AList.update fileID bytes (sess_Progress s)\<rparr>
                    in if (case map_of (sess_FilesMetadata s) fileID of
                             Some meta \<Rightarrow> meta_Size meta \<le> bytes | None \<Rightarrow> False)
                       then s0\<lparr>sess_completedFiles := AList.update fileID True (sess_completedFiles s)\<rparr>
                       else s0\<lparr>sess_completedFiles := AList.delete fileID (sess_completedFiles s)\<rparr>)
      in s1\<lparr>sess_LastAccess := now\<rparr>)"

text \<open>A missing key reads as the zero value, as in Go.\<close>

definition GetFileTokenAndMeta :: "string \<Rightarrow> uploadSession \<Rightarrow> string \<times> fileMetadata \<times> bool" where
  "GetFileTokenAndMeta fileID s =
     (let token = map_of (sess_Files s) fileID;
          meta = map_of (sess_FilesMetadata s) fileID
      in (case token of Some t \<Rightarrow> t | None \<Rightarrow> [],
          case meta of Some m \<Rightarrow> m | None \<Rightarrow> zeroMeta,
          token \<noteq> None \<and> meta \<noteq> None))"

definition GetClientInfo :: "uploadSession \<Rightarrow> string \<times> bool" where
  "GetClientInfo s = (sess_ClientIP s, sess_ClientVerified s)"

definition IsCompleted :: "uploadSession \<Rightarrow> bool" where
  "IsCompleted s \<longleftrightarrow> length (sess_completedFiles s) = length (sess_FilesMetadata s)"

lemmas [sess_defs] =
  Cancel_def IsCanceled_def Touch_def UpdateProgress_def GetFileTokenAndMeta_def
  GetClientInfo_def IsCompleted_def

section \<open>Invariant\<close>

text \<open>
  The maps \<open>Files\<close>, \<open>FilesMetadata\<close> and \<open>Progress\<close> have the same keys; a completed file has
  received at least its size, and a file of non-negative size that has received its size is
  marked completed.
\<close>

definition sess_inv :: "uploadSession \<Rightarrow> bool" where
  "sess_inv s \<longleftrightarrow>
     gomap_wf (sess_Files s) \<and> gomap_wf (sess_FilesMetadata s) \<and> gomap_wf (sess_Progress s)
     \<and> gomap_wf (sess_completedFiles s)
     \<and> keys (sess_Files s) = keys (sess_FilesMetadata s)
     \<and> keys (sess_Progress s) = keys (sess_FilesMetadata s)
     \<and> keys (sess_completedFiles s) \<subseteq> keys (sess_FilesMetadata s)
     \<and> (\<forall>fid meta p. map_of (sess_FilesMetadata s) fid = Some meta \<longrightarrow>
            map_of (sess_Progress s) fid = Some p \<longrightarrow>
            (fid \<in> keys (sess_completedFiles s) \<longrightarrow> meta_Size meta \<le> p)
            \<and> (0 \<le> meta_Size meta \<and> meta_Size meta \<le> p \<longrightarrow> fid \<in> keys (sess_completedFiles s)))"

lemma newFilesLoop_spec:
  assumes "newFilesLoop gen ms n f p c = (f', p', c', n')"
    and "gomap_wf f" "gomap_wf p" "gomap_wf c"
  shows "gomap_wf f' \<and> gomap_wf p' \<and> gomap_wf c' \<and> n' = n + length ms
         \<and> keys f' = keys f \<union> keys ms \<and> keys p' = keys p \<union> keys ms
         \<and> keys c' = keys c \<union> {fid. \<exists>m. (fid, m) \<in> set ms \<and> meta_Size m = 0}
         \<and> (\<forall>fid \<in> keys ms. map_of p' fid = Some 0)
         \<and> (\<forall>fid. fid \<notin> keys ms \<longrightarrow> map_of p' fid = map_of p fid \<and> map_of f' fid = map_of f fid)
         \<and> (\<forall>fid \<in> keys ms. \<exists>k. n \<le> k \<and> k < n' \<and> map_of f' fid = Some (gen k))"
  using assms
proof (induction ms arbitrary: n f p c)
  case (Cons x ms)
  obtain fid m where x: "x = (fid, m)" by force
  let ?c = "if meta_Size m = 0 then AList.update fid True c else c"
  from Cons.prems have step: "newFilesLoop gen ms (Suc n) (AList.update fid (gen n) f)
      (AList.update fid 0 p) ?c = (f', p', c', n')"
    by (simp add: x)
  have wf: "gomap_wf (AList.update fid (gen n) f)" "gomap_wf (AList.update fid 0 p)" "gomap_wf ?c"
    using Cons.prems by auto
  note IH = Cons.IH [OF step wf]
  have tok: "\<exists>k. n \<le> k \<and> k < n' \<and> map_of f' i = Some (gen k)" if "i \<in> keys (x # ms)" for i
  proof (cases "i \<in> keys ms")
    case True
    with IH show ?thesis by (meson Suc_leD)
  next
    case False
    with that x have "i = fid" by auto
    with False IH show ?thesis by (intro exI [of _ n]) auto
  qed
  have zero: "map_of p' i = Some 0" if "i \<in> keys (x # ms)" for i
    using IH that by (cases "i \<in> keys ms") (auto simp: x)
  have "keys c' = keys c \<union> {i. \<exists>m. (i, m) \<in> set (x # ms) \<and> meta_Size m = 0}"
    using IH by (auto simp: x)
  then show ?case
    using IH tok zero by (auto simp: x)
qed auto

lemma newFilesLoop_tokens_inj:
  assumes "newFilesLoop gen ms n f p c = (f', p', c', n')" "inj gen" "gomap_wf ms"
    and "gomap_wf f" "gomap_wf p" "gomap_wf c"
  shows "inj_on (map_of f') (keys ms)"
  using assms
proof (induction ms arbitrary: n f p c)
  case (Cons x ms)
  obtain fid m where x: "x = (fid, m)" by force
  let ?c = "if meta_Size m = 0 then AList.update fid True c else c"
  from Cons.prems have step: "newFilesLoop gen ms (Suc n) (AList.update fid (gen n) f)
      (AList.update fid 0 p) ?c = (f', p', c', n')"
    by (simp add: x)
  have wf: "gomap_wf (AList.update fid (gen n) f)" "gomap_wf (AList.update fid 0 p)" "gomap_wf ?c"
    using Cons.prems by auto
  note spec = newFilesLoop_spec [OF step wf]
  have new: "fid \<notin> keys ms" using Cons.prems(3) by (simp add: x)
  with spec have fid: "map_of f' fid = Some (gen n)" by auto
  have other: "map_of f' i \<noteq> Some (gen n)" if "i \<in> keys ms" for i
    using spec that \<open>inj gen\<close> by (metis Suc_n_not_le_n injD option.inject)
  then have "map_of f' fid \<notin> map_of f' ` keys ms"
    using fid by (metis imageE)
  moreover have "inj_on (map_of f') (keys ms)"
    using Cons.IH [OF step \<open>inj gen\<close> _ wf] Cons.prems(3) by simp
  ultimately show ?case using new by (simp add: x)
qed simp

lemma NewUploadSession_inv:
  assumes "gomap_wf metas" "NewUploadSession gen n now ip ver metas = (s, n')"
  shows "sess_inv s"
proof -
  obtain f p c k where loop: "newFilesLoop gen metas n [] [] [] = (f, p, c, k)"
    by (metis prod_cases4)
  note spec = newFilesLoop_spec [OF loop gomap_wf_Nil gomap_wf_Nil gomap_wf_Nil]
  have s: "s = \<lparr>sess_ID = gen k, sess_ClientIP = ip, sess_ClientVerified = ver,
      sess_LastAccess = now, sess_Files = f, sess_FilesMetadata = metas, sess_Progress = p,
      sess_completedFiles = c, sess_canceled = False\<rparr>"
    using assms(2) loop by (simp add: NewUploadSession_def)
  have in_iff: "(fid, m) \<in> set metas \<longleftrightarrow> map_of metas fid = Some m" for fid m
    using assms(1) by (simp add: gomap_wf_def)
  show ?thesis
    unfolding sess_inv_def s using spec assms(1)
    by (auto simp: in_iff dest: map_of_Some_key)
qed

lemma NewUploadSession_fields:
  assumes "NewUploadSession gen n now ip ver metas = (s, n')"
  shows "sess_ID s = gen (n + length metas)" "n' = Suc (n + length metas)" "sess_ClientIP s = ip"
    "sess_ClientVerified s = ver" "sess_LastAccess s = now" "sess_FilesMetadata s = metas"
    "\<not> sess_canceled s"
proof -
  obtain f p c k where loop: "newFilesLoop gen metas n [] [] [] = (f, p, c, k)"
    by (metis prod_cases4)
  note spec = newFilesLoop_spec [OF loop gomap_wf_Nil gomap_wf_Nil gomap_wf_Nil]
  show "sess_ID s = gen (n + length metas)" "n' = Suc (n + length metas)" "sess_ClientIP s = ip"
    "sess_ClientVerified s = ver" "sess_LastAccess s = now" "sess_FilesMetadata s = metas"
    "\<not> sess_canceled s"
    using assms loop spec by (auto simp: NewUploadSession_def)
qed

lemma NewUploadSession_details:
  assumes "NewUploadSession gen n now ip ver metas = (s, n')"
  shows "keys (sess_completedFiles s) = {fid. \<exists>m. (fid, m) \<in> set metas \<and> meta_Size m = 0}"
    "\<forall>fid \<in> keys metas. \<exists>k. map_of (sess_Files s) fid = Some (gen k)"
proof -
  obtain f p c k where loop: "newFilesLoop gen metas n [] [] [] = (f, p, c, k)"
    by (metis prod_cases4)
  note spec = newFilesLoop_spec [OF loop gomap_wf_Nil gomap_wf_Nil gomap_wf_Nil]
  have s: "sess_completedFiles s = c" "sess_Files s = f" using assms loop by (auto simp: NewUploadSession_def)
  show "keys (sess_completedFiles s) = {fid. \<exists>m. (fid, m) \<in> set metas \<and> meta_Size m = 0}"
    unfolding s using spec by simp
  show "\<forall>fid \<in> keys metas. \<exists>k. map_of (sess_Files s) fid = Some (gen k)" unfolding s using spec by blast
qed

lemma Touch_inv [simp]: "sess_inv (Touch now s) = sess_inv s"
  by (simp add: Touch_def sess_inv_def)

lemma Cancel_inv [simp]: "sess_inv (Cancel s) = sess_inv s"
  by (simp add: Cancel_def sess_inv_def)

text \<open>\<open>UpdateProgress\<close> on a file of the session, and on an unknown identifier.\<close>

lemma UpdateProgress_known:
  assumes "map_of (sess_Progress s) fid = Some p" "map_of (sess_FilesMetadata s) fid = Some meta"
  shows "UpdateProgress now fid b s =
    s\<lparr>sess_Progress := AList.update fid b (sess_Progress s),
      sess_completedFiles := (if meta_Size meta \<le> b then AList.update fid True (sess_completedFiles s)
                              else AList.delete fid (sess_completedFiles s)),
      sess_LastAccess := now\<rparr>"
  using assms by (simp add: UpdateProgress_def)

lemma UpdateProgress_unknown:
  "map_of (sess_Progress s) fid = None \<Longrightarrow> UpdateProgress now fid b s = Touch now s"
  by (simp add: UpdateProgress_def Touch_def)

lemma UpdateProgress_inv:
  assumes inv: "sess_inv s"
  shows "sess_inv (UpdateProgress now fid b s)"
proof (cases "map_of (sess_Progress s) fid")
  case None
  then show ?thesis using inv by (simp add: UpdateProgress_unknown)
next
  case (Some p)
  with inv have "fid \<in> keys (sess_FilesMetadata s)"
    by (metis map_of_Some_key sess_inv_def)
  then obtain meta where meta: "map_of (sess_FilesMetadata s) fid = Some meta"
    using key_map_of by metis
  note U = UpdateProgress_known [OF Some meta, of now b]
  have k: "fid \<in> keys (sess_Progress s)" "fid \<in> keys (sess_FilesMetadata s)"
    using Some meta by (auto dest: map_of_Some_key)
  show ?thesis
    using inv k meta unfolding U sess_inv_def by auto
qed

lemma UpdateProgress_frame [simp]:
  "sess_ID (UpdateProgress now fid b s) = sess_ID s"
  "sess_ClientIP (UpdateProgress now fid b s) = sess_ClientIP s"
  "sess_ClientVerified (UpdateProgress now fid b s) = sess_ClientVerified s"
  "sess_Files (UpdateProgress now fid b s) = sess_Files s"
  "sess_FilesMetadata (UpdateProgress now fid b s) = sess_FilesMetadata s"
  "sess_canceled (UpdateProgress now fid b s) = sess_canceled s"
  "sess_LastAccess (UpdateProgress now fid b s) = now"
  by (auto simp: UpdateProgress_def Let_def split: option.splits)

lemma Touch_frame [simp]:
  "sess_ID (Touch now s) = sess_ID s" "sess_ClientIP (Touch now s) = sess_ClientIP s"
  "sess_ClientVerified (Touch now s) = sess_ClientVerified s"
  "sess_Files (Touch now s) = sess_Files s" "sess_FilesMetadata (Touch now s) = sess_FilesMetadata s"
  "sess_Progress (Touch now s) = sess_Progress s"
  "sess_completedFiles (Touch now s) = sess_completedFiles s"
  "sess_canceled (Touch now s) = sess_canceled s" "sess_LastAccess (Touch now s) = now"
  by (simp_all add: Touch_def)

lemma Cancel_frame [simp]:
  "sess_ID (Cancel s) = sess_ID s" "sess_canceled (Cancel s)"
  "sess_LastAccess (Cancel s) = sess_LastAccess s"
  by (simp_all add: Cancel_def)

lemma completed_iff_keys:
  "sess_inv s \<Longrightarrow> IsCompleted s \<longleftrightarrow> keys (sess_completedFiles s) = keys (sess_FilesMetadata s)"
  unfolding IsCompleted_def sess_inv_def by (intro gomap_len_eq_iff) auto

section \<open>Properties\<close>

text \<open>
  C18: in a session whose sizes are not negative, \<open>IsCompleted\<close> (a comparison of
  two map lengths) holds exactly when every file has received at least as many bytes as its
  metadata announces.
\<close>

theorem session_completion:
  assumes inv: "sess_inv s" and pos: "\<forall>meta \<in> snd ` set (sess_FilesMetadata s). 0 \<le> meta_Size meta"
  shows "IsCompleted s \<longleftrightarrow>
    (\<forall>fid meta. map_of (sess_FilesMetadata s) fid = Some meta \<longrightarrow>
       (\<exists>p. map_of (sess_Progress s) fid = Some p \<and> meta_Size meta \<le> p))" (is "_ \<longleftrightarrow> ?all")
proof
  assume "IsCompleted s"
  then have k: "keys (sess_completedFiles s) = keys (sess_FilesMetadata s)"
    using inv by (simp add: completed_iff_keys)
  show ?all
  proof (intro allI impI)
    fix fid meta assume m: "map_of (sess_FilesMetadata s) fid = Some meta"
    then have "fid \<in> keys (sess_Progress s)"
      using inv by (metis map_of_Some_key sess_inv_def)
    then obtain p where p: "map_of (sess_Progress s) fid = Some p" using key_map_of by metis
    have "fid \<in> keys (sess_completedFiles s)" using m k by (simp add: map_of_Some_key)
    with m p inv show "\<exists>p. map_of (sess_Progress s) fid = Some p \<and> meta_Size meta \<le> p"
      unfolding sess_inv_def by blast
  qed
next
  assume all: ?all
  have "keys (sess_FilesMetadata s) \<subseteq> keys (sess_completedFiles s)"
  proof
    fix fid assume "fid \<in> keys (sess_FilesMetadata s)"
    then obtain meta where m: "map_of (sess_FilesMetadata s) fid = Some meta" using key_map_of by metis
    then have "0 \<le> meta_Size meta" using pos by (force dest: map_of_SomeD)
    with all m inv show "fid \<in> keys (sess_completedFiles s)" unfolding sess_inv_def by blast
  qed
  with inv show "IsCompleted s" by (auto simp: completed_iff_keys sess_inv_def)
qed

theorem session_completion_witness:
  "let s = UpdateProgress (Time 5) ''a'' 3
             (fst (NewUploadSession demo_uuid 0 (Time 0) ''10.0.0.1'' False
                [(''a'', zeroMeta\<lparr>meta_Size := 3\<rparr>), (''b'', zeroMeta)]))
   in IsCompleted s \<and> map_of (sess_Progress s) ''a'' = Some 3"
proof -
  let ?ms = "[(''a'', zeroMeta\<lparr>meta_Size := 3\<rparr>), (''b'', zeroMeta)]"
  let ?n = "NewUploadSession demo_uuid 0 (Time 0) ''10.0.0.1'' False ?ms"
  let ?s = "UpdateProgress (Time 5) ''a'' 3 (fst ?n)"
  have "sess_inv (fst ?n)"
    by (rule NewUploadSession_inv [of ?ms _ _ _ _ _ _ "snd ?n"]) auto
  then have inv: "sess_inv ?s" by (rule UpdateProgress_inv)
  have pos: "\<forall>meta \<in> snd ` set (sess_FilesMetadata ?s). 0 \<le> meta_Size meta"
    by (simp add: NewUploadSession_def zeroMeta_def)
  from session_completion [OF inv pos] show ?thesis
    by (auto simp: NewUploadSession_def UpdateProgress_def zeroMeta_def Let_def)
qed

text \<open>
  C33: a new session gives every announced file a token, and no two files share
  one; no token equals the session identifier.
\<close>

theorem tokens_distinct:
  assumes uuid: "uuid_ok gen" and wf: "gomap_wf metas"
    and new: "NewUploadSession gen n now ip ver metas = (s, n')"
  shows "keys (sess_Files s) = keys metas \<and> inj_on (map_of (sess_Files s)) (keys metas)
         \<and> Some (sess_ID s) \<notin> map_of (sess_Files s) ` keys metas"
proof -
  obtain f p c k where loop: "newFilesLoop gen metas n [] [] [] = (f, p, c, k)"
    by (metis prod_cases4)
  have f: "sess_Files s = f" and ID: "sess_ID s = gen k"
    using new loop by (auto simp: NewUploadSession_def)
  note spec = newFilesLoop_spec [OF loop gomap_wf_Nil gomap_wf_Nil gomap_wf_Nil]
  have inj: "inj gen" using uuid by (simp add: uuid_ok_def)
  have "inj_on (map_of f) (keys metas)"
    by (rule newFilesLoop_tokens_inj [OF loop inj wf]) simp_all
  moreover have "Some (gen k) \<noteq> map_of f fid" if "fid \<in> keys metas" for fid
  proof -
    from spec that obtain j where "j < k" "map_of f fid = Some (gen j)" by blast
    then show ?thesis by (simp add: inj_eq [OF inj])
  qed
  ultimately show ?thesis using spec f ID by auto
qed

theorem tokens_distinct_witness:
  "let s = fst (NewUploadSession demo_uuid 0 (Time 0) ''10.0.0.1'' False
                  [(''a'', zeroMeta), (''b'', zeroMeta)])
   in keys (sess_Files s) = {''a'', ''b''} \<and> map_of (sess_Files s) ''a'' \<noteq> map_of (sess_Files s) ''b''"
proof -
  let ?ms = "[(''a'', zeroMeta), (''b'', zeroMeta)]"
  let ?n = "NewUploadSession demo_uuid 0 (Time 0) ''10.0.0.1'' False ?ms"
  have "uuid_ok demo_uuid" by (rule demo_uuid_ok)
  moreover have "gomap_wf ?ms" by simp
  ultimately have "keys (sess_Files (fst ?n)) = keys ?ms \<and> inj_on (map_of (sess_Files (fst ?n))) (keys ?ms)"
    using tokens_distinct [of demo_uuid ?ms 0 "Time 0" "''10.0.0.1''" False "fst ?n" "snd ?n"]
    by simp
  then show ?thesis by (auto simp: Let_def inj_on_def)
qed

end
