(* ===== verification/SessionMgr.thy ===== *)
theory SessionMgr
  imports Session
begin

text \<open>
  \<open>pkg/session/session.go\<close>, the \<open>SessionManager\<close>. The \<open>sync.Map\<close> holds pointers: the sessions
  themselves live in a heap, a pointer is an index into it, and a handler that keeps the pointer of
  a deleted session still sees it (that is how an upload notices its cancellation). The
  client-visible contract is the locale \<open>session_store\<close>, stated over the abstract view that maps
  a session identifier to the value of its session.
\<close>

section \<open>State and operations\<close>

record sessionManager =
  mgr_sessions :: "nat gomap"
  mgr_heap :: "uploadSession list"
  mgr_timeout :: int
  mgr_closed :: bool

definition NewSessionManager :: "int \<Rightarrow> sessionManager" where
  "NewSessionManager timeout =
     \<lparr>mgr_sessions = [], mgr_heap = [], mgr_timeout = timeout, mgr_closed = False\<rparr>"

definition CloseManager :: "sessionManager \<Rightarrow> sessionManager" where
  "CloseManager m = m\<lparr>mgr_closed := True\<rparr>"

abbreviation deref :: "sessionManager \<Rightarrow> nat \<Rightarrow> uploadSession" where
  "deref m a \<equiv> mgr_heap m ! a"

definition modify :: "nat \<Rightarrow> (uploadSession \<Rightarrow> uploadSession) \<Rightarrow> sessionManager \<Rightarrow> sessionManager" where
  "modify a f m = m\<lparr>mgr_heap := (mgr_heap m)[a := f (deref m a)]\<rparr>"

definition CreateSession ::
  "(nat \<Rightarrow> string) \<Rightarrow> gotime \<Rightarrow> string \<Rightarrow> bool \<Rightarrow> fileMetadata gomap \<Rightarrow> sessionManager \<times> nat
   \<Rightarrow> nat \<times> sessionManager \<times> nat" where
  "CreateSession gen now clientIP clientVerified filesMetadata mn =
     (let (m, n) = mn;
          (session, n') = NewUploadSession gen n now clientIP clientVerified filesMetadata;
          a = length (mgr_heap m)
      in (a, m\<lparr>mgr_heap := mgr_heap m @ [session],
               mgr_sessions := AList.update (sess_ID session) a (mgr_sessions m)\<rparr>, n'))"

definition GetSession :: "gotime \<Rightarrow> string \<Rightarrow> sessionManager \<Rightarrow> nat option \<times> sessionManager" where
  "GetSession now sid m =
     (case map_of (mgr_sessions m) sid of
        None \<Rightarrow> (None, m)
      | Some a \<Rightarrow> (Some a, modify a (Touch now) m))"

definition DeleteSession :: "string \<Rightarrow> sessionManager \<Rightarrow> sessionManager" where
  "DeleteSession sid m =
     (case map_of (mgr_sessions m) sid of
        None \<Rightarrow> m
      | Some a \<Rightarrow> modify a Cancel (m\<lparr>mgr_sessions := AList.delete sid (mgr_sessions m)\<rparr>))"

text \<open>\<open>IsBusy\<close> ranges over the sessions and stops at the first one inside the timeout.\<close>

fun isBusyRange :: "gotime \<Rightarrow> sessionManager \<Rightarrow> nat gomap \<Rightarrow> bool" where
  "isBusyRange now m [] = False"
| "isBusyRange now m ((k, a) # rest) =
     (if Sub now (sess_LastAccess (deref m a)) < mgr_timeout m then True
      else isBusyRange now m rest)"

definition IsBusy :: "gotime \<Rightarrow> sessionManager \<Rightarrow> bool" where
  "IsBusy now m = isBusyRange now m (mgr_sessions m)"

text \<open>
  One pass of the cleanup loop over the entries the range visits, then the loop itself: it is
  woken by the ticker, and leaves once the manager is closed.
\<close>

fun cleanupRange :: "gotime \<Rightarrow> nat gomap \<Rightarrow> sessionManager \<Rightarrow> sessionManager" where
  "cleanupRange now [] m = m"
| "cleanupRange now ((k, a) # rest) m =
     cleanupRange now rest
       (if mgr_timeout m < Sub now (sess_LastAccess (deref m a)) then DeleteSession k m else m)"

datatype wake = CtxDone | Ticked gotime

fun startCleanupLoop :: "wake list \<Rightarrow> sessionManager \<Rightarrow> sessionManager" where
  "startCleanupLoop [] m = m"
| "startCleanupLoop (CtxDone # _) m = m"
| "startCleanupLoop (Ticked now # ws) m =
     startCleanupLoop ws (cleanupRange now (mgr_sessions m) m)"

lemmas mgr_defs =
  CreateSession_def GetSession_def DeleteSession_def modify_def CloseManager_def

section \<open>Invariant and abstract view\<close>

text \<open>
  Registered pointers are allocated and pairwise different, the key of an entry is the identifier
  of the session it points to, every identifier stems from an earlier UUID, and a session is
  canceled exactly when it is no longer registered.
\<close>

definition mgr_inv :: "(nat \<Rightarrow> string) \<Rightarrow> sessionManager \<times> nat \<Rightarrow> bool" where
  "mgr_inv gen mn \<longleftrightarrow>
     (let (m, n) = mn in
        gomap_wf (mgr_sessions m)
        \<and> (\<forall>sid a. map_of (mgr_sessions m) sid = Some a \<longrightarrow>
              a < length (mgr_heap m) \<and> sess_ID (deref m a) = sid)
        \<and> (\<forall>a < length (mgr_heap m).
              sess_inv (deref m a) \<and> (\<exists>k < n. sess_ID (deref m a) = gen k)
              \<and> (sess_canceled (deref m a) \<longleftrightarrow> map_of (mgr_sessions m) (sess_ID (deref m a)) \<noteq> Some a)))"

definition view :: "sessionManager \<Rightarrow> string \<Rightarrow> uploadSession option" where
  "view m sid = map_option (deref m) (map_of (mgr_sessions m) sid)"

lemma mgr_inv_new: "mgr_inv gen (NewSessionManager t, n)"
  by (simp add: mgr_inv_def NewSessionManager_def)

lemma mgr_inv_ptr:
  assumes "mgr_inv gen (m, n)" "map_of (mgr_sessions m) sid = Some a"
  shows "a < length (mgr_heap m)" "sess_ID (deref m a) = sid" "sess_inv (deref m a)"
    "\<not> sess_canceled (deref m a)"
  using assms by (auto simp: mgr_inv_def)

lemma mgr_inv_heap:
  assumes "mgr_inv gen (m, n)" "a < length (mgr_heap m)"
  shows "sess_inv (deref m a)" "\<exists>k < n. sess_ID (deref m a) = gen k"
    "sess_canceled (deref m a) \<longleftrightarrow> map_of (mgr_sessions m) (sess_ID (deref m a)) \<noteq> Some a"
  using assms by (simp_all add: mgr_inv_def)

lemma mgr_inv_ptr_inj:
  assumes "mgr_inv gen (m, n)" "map_of (mgr_sessions m) sid = Some a"
    "map_of (mgr_sessions m) sid' = Some a"
  shows "sid = sid'"
  using assms mgr_inv_ptr(2) by metis

text \<open>Updating a registered session through its pointer changes the view at its key only.\<close>

lemma modify_frame [simp]:
  "mgr_sessions (modify a f m) = mgr_sessions m" "mgr_timeout (modify a f m) = mgr_timeout m"
  "mgr_closed (modify a f m) = mgr_closed m" "length (mgr_heap (modify a f m)) = length (mgr_heap m)"
  by (simp_all add: modify_def)

lemma deref_modify:
  "a < length (mgr_heap m) \<Longrightarrow> deref (modify a f m) b = (if b = a then f (deref m a) else deref m b)"
  by (simp add: modify_def nth_list_update)

lemma view_modify:
  assumes "mgr_inv gen (m, n)" "map_of (mgr_sessions m) sid = Some a"
  shows "view (modify a f m) = (view m)(sid \<mapsto> f (deref m a))"
proof
  fix k
  show "view (modify a f m) k = ((view m)(sid \<mapsto> f (deref m a))) k"
    using assms mgr_inv_ptr [OF assms] mgr_inv_ptr_inj [OF assms(1)]
    by (cases "map_of (mgr_sessions m) k") (auto simp: view_def deref_modify)
qed

lemma mgr_inv_modify:
  assumes inv: "mgr_inv gen (m, n)" and a: "a < length (mgr_heap m)"
    and f: "sess_ID (f (deref m a)) = sess_ID (deref m a)"
      "sess_canceled (f (deref m a)) = sess_canceled (deref m a)"
      "sess_inv (deref m a) \<Longrightarrow> sess_inv (f (deref m a))"
  shows "mgr_inv gen (modify a f m, n)"
  using inv a f unfolding mgr_inv_def Let_def prod.case modify_frame
  by (auto simp: deref_modify)

lemma GetSession_inv:
  assumes "mgr_inv gen (m, n)"
  shows "mgr_inv gen (snd (GetSession now sid m), n)"
  using assms mgr_inv_ptr [OF assms]
  by (auto simp: GetSession_def split: option.splits intro!: mgr_inv_modify)

lemma DeleteSession_inv:
  assumes inv: "mgr_inv gen (m, n)"
  shows "mgr_inv gen (DeleteSession sid m, n)"
proof (cases "map_of (mgr_sessions m) sid")
  case None
  then show ?thesis using inv by (simp add: DeleteSession_def)
next
  case (Some a)
  note ptr = mgr_inv_ptr [OF inv Some]
  let ?m = "DeleteSession sid m"
  have m': "mgr_sessions ?m = AList.delete sid (mgr_sessions m)"
    "mgr_heap ?m = (mgr_heap m)[a := Cancel (deref m a)]"
    using Some by (simp_all add: DeleteSession_def modify_def)
  have d: "deref ?m b = (if b = a then Cancel (deref m a) else deref m b)"
    if "b < length (mgr_heap m)" for b
    using that by (simp add: m' nth_list_update)
  show ?thesis
    unfolding mgr_inv_def Let_def prod.case
  proof (intro conjI allI impI)
    show "gomap_wf (mgr_sessions ?m)" using inv by (simp add: m' mgr_inv_def)
    fix k b assume "map_of (mgr_sessions ?m) k = Some b"
    then have k: "k \<noteq> sid" "map_of (mgr_sessions m) k = Some b" by (auto simp: m' split: if_splits)
    then have "b \<noteq> a" using mgr_inv_ptr_inj [OF inv Some] by auto
    with k show "b < length (mgr_heap ?m)" "sess_ID (deref ?m b) = k"
      using mgr_inv_ptr [OF inv k(2)] d [of b] by (auto simp: m')
  next
    fix b assume "b < length (mgr_heap ?m)"
    then have b: "b < length (mgr_heap m)" by (simp add: m')
    note old = mgr_inv_heap [OF inv b]
    show "sess_inv (deref ?m b)" using old(1) ptr(3) by (simp add: d [OF b])
    show "\<exists>k < n. sess_ID (deref ?m b) = gen k" using old(2) unfolding d [OF b] by auto
    show "sess_canceled (deref ?m b) \<longleftrightarrow> map_of (mgr_sessions ?m) (sess_ID (deref ?m b)) \<noteq> Some b"
      using old(3) ptr(2) Some by (auto simp: d [OF b] m'(1))
  qed
qed

lemma CreateSession_inv:
  assumes uuid: "uuid_ok gen" and inv: "mgr_inv gen (m, n)" and wf: "gomap_wf metas"
    and new: "CreateSession gen now ip ver metas (m, n) = (a, m', n')"
  shows "mgr_inv gen (m', n')"
proof -
  obtain s where s: "NewUploadSession gen n now ip ver metas = (s, n')"
    and a: "a = length (mgr_heap m)"
    and m': "m' = m\<lparr>mgr_heap := mgr_heap m @ [s], mgr_sessions := AList.update (sess_ID s) a (mgr_sessions m)\<rparr>"
    using new by (auto simp: CreateSession_def Let_def split: prod.splits)
  note f = NewUploadSession_fields [OF s]
  have inj: "inj gen" using uuid by (simp add: uuid_ok_def)
  have fresh: "sess_ID (deref m b) \<noteq> sess_ID s" if b: "b < length (mgr_heap m)" for b
  proof -
    obtain k where "k < n" "sess_ID (deref m b) = gen k"
      using mgr_inv_heap(2) [OF inv b] by blast
    then show ?thesis by (simp add: f(1) inj_eq [OF inj])
  qed
  show ?thesis
    unfolding mgr_inv_def Let_def prod.case
  proof (intro conjI allI impI)
    show "gomap_wf (mgr_sessions m')" using inv by (auto simp: m' mgr_inv_def)
    fix sid b assume l: "map_of (mgr_sessions m') sid = Some b"
    then show "b < length (mgr_heap m')" "sess_ID (deref m' b) = sid"
      using mgr_inv_ptr [OF inv, of sid b] by (auto simp: m' a nth_append split: if_splits)
  next
    fix b assume b: "b < length (mgr_heap m')"
    have cases: "b = length (mgr_heap m) \<or> b < length (mgr_heap m)" using b by (auto simp: m')
    show "sess_inv (deref m' b)"
      using cases mgr_inv_heap(1) [OF inv] NewUploadSession_inv [OF wf s] by (auto simp: m' nth_append)
    show "\<exists>k < n'. sess_ID (deref m' b) = gen k"
    proof (cases "b = length (mgr_heap m)")
      case True
      then show ?thesis using f by (auto simp: m' nth_append)
    next
      case False
      then obtain k where "k < n" "sess_ID (deref m b) = gen k"
        using cases mgr_inv_heap(2) [OF inv] by blast
      then show ?thesis using f False b by (intro exI [of _ k]) (auto simp: m' nth_append)
    qed
    show "sess_canceled (deref m' b) \<longleftrightarrow> map_of (mgr_sessions m') (sess_ID (deref m' b)) \<noteq> Some b"
      using cases
    proof
      assume "b = length (mgr_heap m)"
      then show ?thesis using f(7) by (simp add: m' a)
    next
      assume "b < length (mgr_heap m)"
      then show ?thesis using mgr_inv_heap(3) [OF inv] fresh by (simp add: m' a nth_append)
    qed
  qed
qed

lemma CreateSession_view:
  assumes inv: "mgr_inv gen (m, n)"
    and new: "CreateSession gen now ip ver metas (m, n) = (a, m', n')"
  shows "view m' = (view m)(sess_ID (deref m' a) \<mapsto> deref m' a)"
    and "deref m' a = fst (NewUploadSession gen n now ip ver metas)"
    and "mgr_timeout m' = mgr_timeout m"
proof -
  obtain s where s: "NewUploadSession gen n now ip ver metas = (s, n')"
    and a: "a = length (mgr_heap m)"
    and m': "m' = m\<lparr>mgr_heap := mgr_heap m @ [s], mgr_sessions := AList.update (sess_ID s) a (mgr_sessions m)\<rparr>"
    using new by (auto simp: CreateSession_def Let_def split: prod.splits)
  have d: "deref m' a = s" by (simp add: m' a)
  have "view m' k = ((view m)(sess_ID s \<mapsto> s)) k" for k
    using mgr_inv_ptr [OF inv, of k]
    by (cases "map_of (mgr_sessions m) k") (auto simp: view_def m' a nth_append)
  then show "view m' = (view m)(sess_ID (deref m' a) \<mapsto> deref m' a)" by (auto simp: d)
  show "deref m' a = fst (NewUploadSession gen n now ip ver metas)" by (simp add: d s)
  show "mgr_timeout m' = mgr_timeout m" by (simp add: m')
qed

lemma GetSession_view:
  assumes "mgr_inv gen (m, n)"
  shows "view (snd (GetSession now sid m)) = (view m)(sid := map_option (Touch now) (view m sid))"
proof (cases "map_of (mgr_sessions m) sid")
  case (Some a)
  then show ?thesis
    using view_modify [OF assms Some] by (simp add: GetSession_def view_def [of m sid])
qed (auto simp: GetSession_def view_def)

lemma DeleteSession_view:
  assumes inv: "mgr_inv gen (m, n)"
  shows "view (DeleteSession sid m) = (view m)(sid := None)"
proof
  fix k
  show "view (DeleteSession sid m) k = ((view m)(sid := None)) k"
  proof (cases "map_of (mgr_sessions m) sid")
    case (Some a)
    have "map_of (mgr_sessions m) k \<noteq> Some a" if "k \<noteq> sid"
      using mgr_inv_ptr_inj [OF inv Some] that by auto
    then show ?thesis
      using Some by (auto simp: view_def DeleteSession_def modify_def nth_list_update
          split: option.splits intro: option.expand)
  qed (auto simp: DeleteSession_def view_def)
qed

lemma DeleteSession_timeout [simp]: "mgr_timeout (DeleteSession sid m) = mgr_timeout m"
  by (auto simp: DeleteSession_def split: option.splits)

lemma isBusyRange_iff:
  "isBusyRange now m es \<longleftrightarrow> (\<exists>(k, a) \<in> set es. Sub now (sess_LastAccess (deref m a)) < mgr_timeout m)"
  by (induction es) auto

lemma IsBusy_view:
  assumes "mgr_inv gen (m, n)"
  shows "IsBusy now m \<longleftrightarrow>
    (\<exists>sid s. view m sid = Some s \<and> Sub now (sess_LastAccess s) < mgr_timeout m)"
proof -
  have "(k, a) \<in> set (mgr_sessions m) \<longleftrightarrow> map_of (mgr_sessions m) k = Some a" for k a
    using assms by (simp add: mgr_inv_def gomap_wf_def)
  then show ?thesis by (fastforce simp: IsBusy_def isBusyRange_iff view_def)
qed

subsection \<open>The cleanup pass\<close>

definition expired :: "gotime \<Rightarrow> int \<Rightarrow> uploadSession \<Rightarrow> bool" where
  "expired now timeout s \<longleftrightarrow> timeout < Sub now (sess_LastAccess s)"

lemma cleanupRange_inv: "mgr_inv gen (m, n) \<Longrightarrow> mgr_inv gen (cleanupRange now es m, n)"
  by (induction now es m rule: cleanupRange.induct) (auto simp: DeleteSession_inv)

lemma cleanupRange_timeout [simp]: "mgr_timeout (cleanupRange now es m) = mgr_timeout m"
  by (induction now es m rule: cleanupRange.induct) auto

text \<open>The entries still to visit are the registered ones among the snapshot.\<close>

lemma cleanupRange_view:
  assumes "mgr_inv gen (m, n)" "gomap_wf es"
    and "\<forall>k a. map_of es k = Some a \<longrightarrow> map_of (mgr_sessions m) k = Some a"
  shows "view (cleanupRange now es m) sid =
    (case view m sid of
       None \<Rightarrow> None
     | Some s \<Rightarrow> if sid \<in> keys es \<and> expired now (mgr_timeout m) s then None else Some s)"
  using assms
proof (induction es arbitrary: m)
  case Nil
  then show ?case by (auto split: option.splits)
next
  case (Cons e es)
  obtain k a where e: "e = (k, a)" by force
  have ka: "map_of (mgr_sessions m) k = Some a" using Cons.prems(3) by (simp add: e)
  have vk: "view m k = Some (deref m a)" using ka by (simp add: view_def)
  have new: "k \<notin> keys es" and wf: "gomap_wf es" using Cons.prems(2) by (auto simp: e)
  have rest: "map_of (mgr_sessions m) k' = Some a'" if "map_of es k' = Some a'" for k' a'
    using Cons.prems(3) that new by (auto simp: e dest: map_of_Some_key split: if_splits)
  show ?case
  proof (cases "expired now (mgr_timeout m) (deref m a)")
    case True
    let ?m = "DeleteSession k m"
    have sub: "\<forall>k' a'. map_of es k' = Some a' \<longrightarrow> map_of (mgr_sessions ?m) k' = Some a'"
      using rest new ka by (auto simp: DeleteSession_def map_of_None_iff)
    have "view (cleanupRange now (e # es) m) sid = view (cleanupRange now es ?m) sid"
      using True by (simp add: e expired_def)
    also have "\<dots> = (case view ?m sid of None \<Rightarrow> None
        | Some s \<Rightarrow> if sid \<in> keys es \<and> expired now (mgr_timeout ?m) s then None else Some s)"
      by (rule Cons.IH [OF DeleteSession_inv [OF Cons.prems(1)] wf sub])
    also have "\<dots> = (case view m sid of None \<Rightarrow> None
        | Some s \<Rightarrow> if sid \<in> keys (e # es) \<and> expired now (mgr_timeout m) s then None else Some s)"
      using True vk by (auto simp: DeleteSession_view [OF Cons.prems(1)] e split: option.splits)
    finally show ?thesis .
  next
    case False
    have "view (cleanupRange now (e # es) m) sid = view (cleanupRange now es m) sid"
      using False by (simp add: e expired_def)
    also have "\<dots> = (case view m sid of None \<Rightarrow> None
        | Some s \<Rightarrow> if sid \<in> keys es \<and> expired now (mgr_timeout m) s then None else Some s)"
      using rest by (intro Cons.IH [OF Cons.prems(1) wf]) auto
    also have "\<dots> = (case view m sid of None \<Rightarrow> None
        | Some s \<Rightarrow> if sid \<in> keys (e # es) \<and> expired now (mgr_timeout m) s then None else Some s)"
      using False vk new by (auto simp: e split: option.splits)
    finally show ?thesis .
  qed
qed

lemma cleanup_view:
  assumes inv: "mgr_inv gen (m, n)"
  shows "view (cleanupRange now (mgr_sessions m) m) sid =
    (case view m sid of None \<Rightarrow> None | Some s \<Rightarrow> if expired now (mgr_timeout m) s then None else Some s)"
proof -
  have "sid \<in> keys (mgr_sessions m)" if "view m sid = Some s" for s
    using that by (auto simp: view_def dest: map_of_Some_key)
  then show ?thesis
    using cleanupRange_view [OF inv, of "mgr_sessions m"] inv
    by (auto simp: mgr_inv_def split: option.splits)
qed

section \<open>The contract of the store\<close>

text \<open>
  What the server relies on: a lookup restarts the clock of the session it finds, a deletion and
  the cleanup pass remove sessions from the view and nothing else, and the store is busy while
  some session in view was used within the time limit. The lemmas are proved once from the laws.
\<close>

locale session_store =
  fixes ok :: "'m \<Rightarrow> bool"
    and look :: "'m \<Rightarrow> string \<Rightarrow> uploadSession option"
    and limit :: "'m \<Rightarrow> int"
    and get :: "gotime \<Rightarrow> string \<Rightarrow> 'm \<Rightarrow> nat option \<times> 'm"
    and del :: "string \<Rightarrow> 'm \<Rightarrow> 'm"
    and sweep :: "gotime \<Rightarrow> 'm \<Rightarrow> 'm"
    and busy :: "gotime \<Rightarrow> 'm \<Rightarrow> bool"
  assumes get_ok: "ok m \<Longrightarrow> ok (snd (get now sid m))"
    and get_look: "ok m \<Longrightarrow> look (snd (get now sid m)) = (look m)(sid := map_option (Touch now) (look m sid))"
    and get_hit: "ok m \<Longrightarrow> fst (get now sid m) = None \<longleftrightarrow> look m sid = None"
    and get_limit: "limit (snd (get now sid m)) = limit m"
    and del_ok: "ok m \<Longrightarrow> ok (del sid m)"
    and del_look: "ok m \<Longrightarrow> look (del sid m) = (look m)(sid := None)"
    and del_limit: "limit (del sid m) = limit m"
    and sweep_ok: "ok m \<Longrightarrow> ok (sweep now m)"
    and sweep_look: "ok m \<Longrightarrow> look (sweep now m) sid =
          (case look m sid of None \<Rightarrow> None | Some s \<Rightarrow> if expired now (limit m) s then None else Some s)"
    and sweep_limit: "limit (sweep now m) = limit m"
    and busy_look: "ok m \<Longrightarrow> busy now m \<longleftrightarrow>
          (\<exists>sid s. look m sid = Some s \<and> Sub now (sess_LastAccess s) < limit m)"
begin

lemma deleted_not_found: "ok m \<Longrightarrow> fst (get now sid (del sid m)) = None"
  by (simp add: get_hit del_ok del_look)

lemma delete_twice: "ok m \<Longrightarrow> look (del sid (del sid m)) = look (del sid m)"
  by (simp add: del_ok del_look)

lemma delete_keeps_others: "ok m \<Longrightarrow> sid' \<noteq> sid \<Longrightarrow> look (del sid m) sid' = look m sid'"
  by (simp add: del_look)

lemma hit_makes_busy:
  assumes "ok m" "look m sid \<noteq> None" "0 < limit m"
  shows "busy now (snd (get now sid m))"
proof -
  obtain s where "look m sid = Some s" using assms(2) by blast
  then have "look (snd (get now sid m)) sid = Some (Touch now s)"
    using get_look [OF assms(1)] by simp
  then show ?thesis
    using assms(3) by (simp add: busy_look [OF get_ok [OF assms(1)]] get_limit)
      (metis Sub_self Touch_frame(9))
qed

lemma idle_limit: "ok m \<Longrightarrow> \<not> busy now m \<Longrightarrow> look m sid = Some s \<Longrightarrow> limit m \<le> Sub now (sess_LastAccess s)"
  by (force simp: busy_look)

lemma sweep_live: "ok m \<Longrightarrow> look (sweep now m) sid = Some s \<Longrightarrow> Sub now (sess_LastAccess s) \<le> limit m"
  by (auto simp: sweep_look expired_def split: option.splits if_splits)

lemma sweep_keeps_busy:
  assumes ok: "ok m"
  shows "busy now (sweep now m) = busy now m"
proof
  show "busy now (sweep now m) \<Longrightarrow> busy now m"
    using ok by (auto simp: busy_look sweep_ok sweep_limit sweep_look split: option.splits if_splits)
  show "busy now m \<Longrightarrow> busy now (sweep now m)"
  proof -
    assume "busy now m"
    then obtain sid s where s: "look m sid = Some s" "Sub now (sess_LastAccess s) < limit m"
      using ok by (auto simp: busy_look)
    then have "look (sweep now m) sid = Some s"
      using ok by (simp add: sweep_look expired_def)
    then show "busy now (sweep now m)"
      using s ok by (auto simp: busy_look sweep_ok sweep_limit)
  qed
qed

end

text \<open>A store that also creates sessions: the new one is alone under a fresh identifier.\<close>

locale creating_store = session_store +
  fixes create :: "gotime \<Rightarrow> string \<Rightarrow> bool \<Rightarrow> fileMetadata gomap \<Rightarrow> 'm \<Rightarrow> string \<times> 'm"
  assumes create_ok: "ok m \<Longrightarrow> gomap_wf metas \<Longrightarrow> ok (snd (create now ip ver metas m))"
    and create_fresh: "ok m \<Longrightarrow> look m (fst (create now ip ver metas m)) = None"
    and create_look: "ok m \<Longrightarrow> \<exists>s. look (snd (create now ip ver metas m))
            = (look m)(fst (create now ip ver metas m) \<mapsto> s)
          \<and> sess_ClientIP s = ip \<and> sess_ClientVerified s = ver \<and> sess_LastAccess s = now
          \<and> sess_FilesMetadata s = metas"
    and create_limit: "limit (snd (create now ip ver metas m)) = limit m"
begin

lemma create_makes_busy:
  assumes "ok m" "gomap_wf metas" "0 < limit m"
  shows "busy now (snd (create now ip ver metas m))"
proof -
  obtain s where "look (snd (create now ip ver metas m)) (fst (create now ip ver metas m)) = Some s"
    "sess_LastAccess s = now"
    using create_look [OF assms(1)] by (metis fun_upd_same)
  then show ?thesis
    using assms(3) by (simp add: busy_look [OF create_ok [OF assms(1,2)]] create_limit)
      (metis Sub_self)
qed

lemma create_keeps_others:
  "ok m \<Longrightarrow> sid \<noteq> fst (create now ip ver metas m) \<Longrightarrow> look (snd (create now ip ver metas m)) sid = look m sid"
  using create_look [of m now ip ver metas] by auto

end

text \<open>The manager with its UUID source provides the contract.\<close>

type_synonym store = "(nat \<Rightarrow> string) \<times> sessionManager \<times> nat"

definition storeOk :: "store \<Rightarrow> bool" where
  "storeOk st = (case st of (gen, mn) \<Rightarrow> uuid_ok gen \<and> mgr_inv gen mn)"

definition storeLook :: "store \<Rightarrow> string \<Rightarrow> uploadSession option" where
  "storeLook st = view (fst (snd st))"

definition storeLimit :: "store \<Rightarrow> int" where
  "storeLimit st = mgr_timeout (fst (snd st))"

definition storeGet :: "gotime \<Rightarrow> string \<Rightarrow> store \<Rightarrow> nat option \<times> store" where
  "storeGet now sid st =
     (case st of (gen, m, n) \<Rightarrow> (case GetSession now sid m of (r, m') \<Rightarrow> (r, gen, m', n)))"

definition storeDel :: "string \<Rightarrow> store \<Rightarrow> store" where
  "storeDel sid st = (case st of (gen, m, n) \<Rightarrow> (gen, DeleteSession sid m, n))"

definition storeSweep :: "gotime \<Rightarrow> store \<Rightarrow> store" where
  "storeSweep now st = (case st of (gen, m, n) \<Rightarrow> (gen, cleanupRange now (mgr_sessions m) m, n))"

definition storeBusy :: "gotime \<Rightarrow> store \<Rightarrow> bool" where
  "storeBusy now st = IsBusy now (fst (snd st))"

definition storeCreate ::
  "gotime \<Rightarrow> string \<Rightarrow> bool \<Rightarrow> fileMetadata gomap \<Rightarrow> store \<Rightarrow> string \<times> store" where
  "storeCreate now ip ver metas st =
     (case st of (gen, mn) \<Rightarrow>
        (case CreateSession gen now ip ver metas mn of (a, m', n') \<Rightarrow> (sess_ID (deref m' a), gen, m', n')))"

lemmas store_defs =
  storeOk_def storeLook_def storeLimit_def storeGet_def storeDel_def storeSweep_def storeBusy_def
  storeCreate_def

interpretation mgr: session_store storeOk storeLook storeLimit storeGet storeDel storeSweep storeBusy
proof (unfold_locales, goal_cases)
  case (1 m now sid)
  then show ?case using GetSession_inv [of "fst m" "fst (snd m)" "snd (snd m)" now sid]
    by (simp add: store_defs case_prod_unfold)
next
  case (2 m now sid)
  then show ?case using GetSession_view [of "fst m" "fst (snd m)" "snd (snd m)" now sid]
    by (simp add: store_defs case_prod_unfold)
next
  case (3 m now sid)
  then show ?case by (auto simp: store_defs GetSession_def view_def split: prod.splits option.splits)
next
  case (4 now sid m)
  then show ?case by (auto simp: store_defs GetSession_def split: prod.splits option.splits)
next
  case (5 m sid)
  then show ?case using DeleteSession_inv by (simp add: store_defs case_prod_unfold)
next
  case (6 m sid)
  then show ?case using DeleteSession_view [of "fst m" "fst (snd m)" "snd (snd m)"]
    by (simp add: store_defs case_prod_unfold)
next
  case (7 sid m)
  then show ?case by (simp add: store_defs case_prod_unfold)
next
  case (8 m now)
  then show ?case using cleanupRange_inv by (simp add: store_defs case_prod_unfold)
next
  case (9 m now sid)
  then show ?case using cleanup_view [of "fst m" "fst (snd m)" "snd (snd m)"]
    unfolding store_defs case_prod_unfold by simp
next
  case (10 now m)
  then show ?case by (simp add: store_defs case_prod_unfold)
next
  case (11 m now)
  then show ?case using IsBusy_view [of "fst m" "fst (snd m)" "snd (snd m)"]
    by (simp add: store_defs case_prod_unfold)
qed

lemma CreateSession_fresh:
  assumes uuid: "uuid_ok gen" and inv: "mgr_inv gen (m, n)"
    and new: "CreateSession gen now ip ver metas (m, n) = (a, m', n')"
  shows "view m (sess_ID (deref m' a)) = None"
proof (rule ccontr)
  assume "view m (sess_ID (deref m' a)) \<noteq> None"
  then obtain b where b: "map_of (mgr_sessions m) (sess_ID (deref m' a)) = Some b"
    by (auto simp: view_def)
  obtain s where s: "NewUploadSession gen n now ip ver metas = (s, n')"
    and d: "deref m' a = s"
    using new by (auto simp: CreateSession_def Let_def split: prod.splits)
  obtain k where "k < n" "sess_ID (deref m b) = gen k"
    using mgr_inv_heap(2) [OF inv mgr_inv_ptr(1) [OF inv b]] by blast
  then show False
    using mgr_inv_ptr(2) [OF inv b] NewUploadSession_fields(1) [OF s] uuid
    by (simp add: d uuid_ok_def inj_eq)
qed

interpretation mgr: creating_store storeOk storeLook storeLimit storeGet storeDel storeSweep storeBusy storeCreate
proof (unfold_locales, goal_cases)
  case (1 m metas now ip ver)
  then show ?case using CreateSession_inv by (auto simp: store_defs split: prod.splits)
next
  case (2 m now ip ver metas)
  then show ?case using CreateSession_fresh by (auto simp: store_defs split: prod.splits)
next
  case (3 m now ip ver metas)
  obtain gen mg n where m: "m = (gen, mg, n)" by (metis prod_cases3)
  obtain a mg' n' where c: "CreateSession gen now ip ver metas (mg, n) = (a, mg', n')"
    by (metis prod_cases3)
  have inv: "mgr_inv gen (mg, n)" using 3 by (simp add: m storeOk_def)
  note f = NewUploadSession_fields [of gen n now ip ver metas, OF surjective_pairing]
  show ?case
    using CreateSession_view [OF inv c] f
    by (intro exI [of _ "deref mg' a"]) (simp add: m c storeLook_def storeCreate_def)
next
  case (4 now ip ver metas m)
  then show ?case
    by (auto simp: store_defs CreateSession_def Let_def split: prod.splits)
qed

section \<open>Properties\<close>

text \<open>A manager with one session of one empty file, created at instant 0: for concrete instances.\<close>

definition demo_mgr :: sessionManager where
  "demo_mgr = fst (snd (CreateSession demo_uuid (Time 0) ''10.0.0.1'' False [(''a'', zeroMeta)]
                          (NewSessionManager (10 * Minute), 0)))"

lemma demo_mgr_eq:
  "CreateSession demo_uuid (Time 0) ''10.0.0.1'' False [(''a'', zeroMeta)]
     (NewSessionManager (10 * Minute), 0) = (0, demo_mgr, 2)"
  by (simp add: demo_mgr_def CreateSession_def NewUploadSession_def NewSessionManager_def)

lemma demo_mgr_inv: "mgr_inv demo_uuid (demo_mgr, 2)"
  by (rule CreateSession_inv [OF demo_uuid_ok mgr_inv_new _ demo_mgr_eq]) simp

lemma demo_mgr_view:
  "view demo_mgr (demo_uuid 1) = Some (deref demo_mgr 0)" "sess_LastAccess (deref demo_mgr 0) = Time 0"
  "mgr_timeout demo_mgr = 10 * Minute" "map_of (mgr_sessions demo_mgr) (demo_uuid 1) = Some 0"
  by (simp_all add: demo_mgr_def CreateSession_def NewUploadSession_def NewSessionManager_def view_def)



text \<open>
  C28: the timeout is not checked by a lookup. A session that \<open>IsBusy\<close> no longer counts, and
  that the next cleanup pass would remove, is found by \<open>GetSession\<close>, and from then on the
  manager is busy with it again.
\<close>

theorem revival:
  assumes "uuid_ok gen" "mgr_inv gen (m, n)" "0 < mgr_timeout m"
    and "view m sid = Some s" "mgr_timeout m < Sub now (sess_LastAccess s)"
  shows "view (cleanupRange now (mgr_sessions m) m) sid = None
         \<and> (\<exists>a. fst (GetSession now sid m) = Some a) \<and> IsBusy now (snd (GetSession now sid m))"
proof -
  let ?st = "(gen, m, n)"
  have ok: "storeOk ?st" and l: "storeLook ?st sid = Some s"
    using assms by (simp_all add: storeOk_def storeLook_def)
  have "storeLook (storeSweep now ?st) sid = None"
    using mgr.sweep_look [OF ok, of now sid] assms(5) l by (simp add: expired_def storeLimit_def)
  moreover have "fst (storeGet now sid ?st) \<noteq> None"
    using mgr.get_hit [OF ok, of now sid] l by simp
  moreover have "storeBusy now (snd (storeGet now sid ?st))"
    using mgr.hit_makes_busy [OF ok, of sid now] l assms(3) by (simp add: storeLimit_def)
  ultimately show ?thesis
    by (auto simp: storeLook_def storeSweep_def storeGet_def storeBusy_def split: prod.splits)
qed

theorem revival_witness:
  "IsBusy (Time (11 * Minute)) (snd (GetSession (Time (11 * Minute)) (demo_uuid 1) demo_mgr))
   \<and> view (cleanupRange (Time (11 * Minute)) (mgr_sessions demo_mgr) demo_mgr) (demo_uuid 1) = None"
proof -
  have "0 < mgr_timeout demo_mgr"
    and "mgr_timeout demo_mgr < Sub (Time (11 * Minute)) (sess_LastAccess (deref demo_mgr 0))"
    by (simp_all add: demo_mgr_view Minute_def Second_def Sub_def)
  from revival [OF demo_uuid_ok demo_mgr_inv this(1) demo_mgr_view(1) this(2)]
  show ?thesis by simp
qed

text \<open>
  C27: deleting a session cancels it for whoever still holds its pointer, makes every
  later lookup of the identifier fail, and leaves the other sessions alone.
\<close>

theorem delete_cancels:
  assumes inv: "mgr_inv gen (m, n)" and get: "GetSession now sid m = (Some a, m1)"
  shows "\<not> IsCanceled (deref m1 a) \<and> IsCanceled (deref (DeleteSession sid m1) a)
         \<and> fst (GetSession now' sid (DeleteSession sid m1)) = None
         \<and> (\<forall>b < length (mgr_heap m1). b \<noteq> a \<longrightarrow> deref (DeleteSession sid m1) b = deref m1 b)"
proof -
  have inv1: "mgr_inv gen (m1, n)" using GetSession_inv [OF inv, of now sid] get by simp
  have reg: "map_of (mgr_sessions m1) sid = Some a"
    using get by (auto simp: GetSession_def split: option.splits)
  note ptr = mgr_inv_ptr [OF inv1 reg]
  show ?thesis
    using ptr reg inv1 by (auto simp: IsCanceled_def DeleteSession_def GetSession_def modify_def Cancel_def)
qed

theorem delete_cancels_witness:
  "IsCanceled (deref (DeleteSession (demo_uuid 1) (snd (GetSession (Time 1) (demo_uuid 1) demo_mgr))) 0)"
proof -
  have "GetSession (Time 1) (demo_uuid 1) demo_mgr = (Some 0, snd (GetSession (Time 1) (demo_uuid 1) demo_mgr))"
    by (simp add: GetSession_def demo_mgr_view(4) del: One_nat_def)
  from delete_cancels [OF demo_mgr_inv this, of "Time 2"] show ?thesis by simp
qed

end
