(* ===== verification/UniquePath.thy ===== *)
theory UniquePath
  imports GoFS Protocol
begin

text \<open>
  Where the server puts a file: \<open>getUniquePath\<close> and \<open>areAllFilesDuplicate\<close> of
  \<open>pkg/server/server.go\<close>. The search of \<open>getUniquePath\<close> has no bound, so it is a partial
  function: \<open>None\<close> is a search that never ends.
\<close>

section \<open>getUniquePath\<close>

definition statNotExist :: "fsys \<Rightarrow> string \<Rightarrow> bool" where
  "statNotExist fs path = (case Stat fs path of Inl err \<Rightarrow> IsNotExist err | Inr _ \<Rightarrow> False)"

text \<open>The name \<open>fmt.Sprintf("%s (%d)%s", base, i, ext)\<close>.\<close>

definition numbered :: "string \<Rightarrow> int \<Rightarrow> string \<Rightarrow> string" where
  "numbered base i ext = base @ '' ('' @ Itoa i @ '')'' @ ext"

partial_function (option) uniqueLoop ::
  "fsys \<Rightarrow> string \<Rightarrow> string \<Rightarrow> string \<Rightarrow> string \<Rightarrow> int \<Rightarrow> string option" where
  "uniqueLoop fs dir base ext path i =
     (if statNotExist fs path then Some path
      else uniqueLoop fs dir base ext (PathJoin [dir, numbered base i ext]) (wrap64 (i + 1)))"

declare uniqueLoop.simps [code]

definition getUniquePath :: "fsys \<Rightarrow> string \<Rightarrow> string \<Rightarrow> string option" where
  "getUniquePath fs dir filename =
     (let cleanName = Base filename;
          ext = Ext cleanName;
          base = take (length cleanName - length ext) cleanName;
          path = PathJoin [dir, cleanName]
      in uniqueLoop fs dir base ext path 1)"

section \<open>areAllFilesDuplicate\<close>

fun allDuplicate :: "fsys \<Rightarrow> string \<Rightarrow> fileMetadata gomap \<Rightarrow> bool" where
  "allDuplicate fs saveDir [] = True"
| "allDuplicate fs saveDir ((k, f) # rest) =
     (let cleanName = Base (meta_FileName f);
          targetPath = PathJoin [saveDir, cleanName]
      in case Stat fs targetPath of
           Inl _ \<Rightarrow> False
         | Inr info \<Rightarrow> if nodeSize info \<noteq> meta_Size f then False else allDuplicate fs saveDir rest)"

definition areAllFilesDuplicate :: "fsys \<Rightarrow> string \<Rightarrow> fileMetadata gomap \<Rightarrow> bool" where
  "areAllFilesDuplicate fs saveDir files = (if files = [] then False else allDuplicate fs saveDir files)"

section \<open>The candidates\<close>

text \<open>The names the search tries, in order, and the paths they stand for.\<close>

definition stem :: "string \<Rightarrow> string" where
  "stem n = take (length n - length (Ext n)) n"

fun candName :: "string \<Rightarrow> nat \<Rightarrow> string" where
  "candName filename 0 = Base filename"
| "candName filename (Suc k) = numbered (stem (Base filename)) (int (Suc k)) (Ext (Base filename))"

definition candidate :: "string \<Rightarrow> string \<Rightarrow> nat \<Rightarrow> string" where
  "candidate dir filename k = PathJoin [dir, candName filename k]"

text \<open>A name with one leading slash is the name after it.\<close>

lemma PathJoin_slash:
  assumes "plain_name n"
  shows "PathJoin [d, slash # n] = (if d = [] then slash # n else child d n)"
proof (cases "d = []")
  case True
  have "clean_elems True (slash # n) = [n]"
    using clean_elems_snoc [OF assms, of True "[]"] by simp
  then show ?thesis
    using True by (simp add: PathJoin_def Clean_def isRooted_def render_path_def)
next
  case False
  have "fold (clean_step r) (Split (d @ slash # slash # n) slash) []
        = fold (clean_step r) (Split (d @ slash # n) slash) []" for r
    by (simp add: Split_append)
  then have "clean_elems r (d @ slash # slash # n) = clean_elems r (d @ slash # n)" for r
    by (simp only: clean_elems_def)
  then show ?thesis
    using False assms by (simp add: PathJoin_def Clean_def child_def clean_elems_snoc)
qed

lemma numbered_simps: "numbered b i e \<noteq> []" "2 < length (numbered b i e)"
  by (auto simp: numbered_def)

lemma slash_not_Itoa [simp]: "slash \<notin> set (Itoa i)"
  using Itoa_chars [of slash i] by (auto simp: isDigit_def)

lemma numbered_plain:
  assumes "slash \<notin> set b" "slash \<notin> set e"
  shows "plain_name (numbered b i e)"
proof -
  have "numbered b i e \<noteq> ''.''" "numbered b i e \<noteq> ''..''"
    using numbered_simps(2) [of b i e] by auto
  then show ?thesis
    using assms numbered_simps(1) [of b i e] by (auto simp: plain_name_def numbered_def)
qed

lemma stem_parts: "set (stem n) \<subseteq> set n" "set (Ext n) \<subseteq> set n" "stem n @ Ext n = n"
proof -
  show eq: "stem n @ Ext n = n" unfolding stem_def by (rule stem_Ext)
  then show "set (stem n) \<subseteq> set n" "set (Ext n) \<subseteq> set n"
    by (metis Un_iff set_append subsetI)+
qed

text \<open>
  Every numbered candidate is a direct child of the directory (for an unnamed directory, when the
  name is not the root).
\<close>

lemma candidate_numbered:
  assumes "dir \<noteq> []"
  shows "\<exists>n. plain_name n \<and> candidate dir filename (Suc k) = child dir n
           \<and> n = (if Base filename = ''/'' then '' ('' @ Itoa (int (Suc k)) @ '')''
                  else candName filename (Suc k))"
proof (cases "Base filename = ''/''")
  case True
  have e: "Ext ''/'' = []" by (simp add: Ext_def)
  have "candName filename (Suc k) = slash # numbered [] (int (Suc k)) []"
    by (simp add: True stem_def e numbered_def)
  moreover have "plain_name (numbered [] (int (Suc k)) [])"
    by (rule numbered_plain) auto
  ultimately show ?thesis
    using assms True by (simp add: candidate_def PathJoin_slash numbered_def)
next
  case False
  then have "slash \<notin> set (Base filename)" by (rule Base_no_slash)
  then have "plain_name (candName filename (Suc k))"
    using stem_parts [of "Base filename"] unfolding candName.simps by (intro numbered_plain) auto
  then show ?thesis
    using False by (auto simp: candidate_def PathJoin_plain)
qed

lemma candName_inject:
  "candName filename (Suc j) = candName filename (Suc k) \<Longrightarrow> j = k"
  by (simp add: numbered_def)

lemma candidate_inj:
  assumes "dir \<noteq> []"
  shows "inj_on (candidate dir filename) {1..m}"
proof (rule inj_onI)
  fix x y assume "x \<in> {1..m}" "y \<in> {1..m}" and eq: "candidate dir filename x = candidate dir filename y"
  then obtain j k where x: "x = Suc j" and y: "y = Suc k" by (cases x; cases y) auto
  obtain n where n: "plain_name n" "candidate dir filename x = child dir n"
      "n = (if Base filename = ''/'' then '' ('' @ Itoa (int (Suc j)) @ '')'' else candName filename (Suc j))"
    using candidate_numbered [OF assms, of filename j] unfolding x by blast
  obtain n' where n': "plain_name n'" "candidate dir filename y = child dir n'"
      "n' = (if Base filename = ''/'' then '' ('' @ Itoa (int (Suc k)) @ '')'' else candName filename (Suc k))"
    using candidate_numbered [OF assms, of filename k] unfolding y by blast
  have nn: "n = n'" using eq n(1,2) n'(1,2) by (simp add: child_inject)
  have "j = k"
  proof (cases "Base filename = ''/''")
    case True
    with n(3) n'(3) nn show ?thesis by simp
  next
    case False
    with n(3) n'(3) nn show ?thesis using candName_inject [of filename j k] by metis
  qed
  then show "x = y" by (simp add: x y)
qed

section \<open>What the search returns\<close>

text \<open>Any result is one of the paths tried, and \<open>Stat\<close> said that nothing is there.\<close>

lemma uniqueLoop_result:
  assumes "uniqueLoop fs dir base ext path i = Some r"
  shows "statNotExist fs r \<and> (r = path \<or> (\<exists>j. r = PathJoin [dir, numbered base j ext]))"
proof (rule uniqueLoop.raw_induct
    [where P = "\<lambda>fs dir base ext path i r. statNotExist fs r
        \<and> (r = path \<or> (\<exists>j. r = PathJoin [dir, numbered base j ext]))", OF _ assms])
  fix f fs dir base ext path i r
  assume IH: "\<And>fs dir base ext path i r. f fs dir base ext path i = Some r \<Longrightarrow>
      statNotExist fs r \<and> (r = path \<or> (\<exists>j. r = PathJoin [dir, numbered base j ext]))"
    and eq: "(if statNotExist fs path then Some path
       else f fs dir base ext (PathJoin [dir, numbered base i ext]) (wrap64 (i + 1))) = Some r"
  show "statNotExist fs r \<and> (r = path \<or> (\<exists>j. r = PathJoin [dir, numbered base j ext]))"
  proof (cases "statNotExist fs path")
    case True
    with eq show ?thesis by simp
  next
    case False
    with eq have "f fs dir base ext (PathJoin [dir, numbered base i ext]) (wrap64 (i + 1)) = Some r"
      by simp
    from IH [OF this] show ?thesis by blast
  qed
qed

text \<open>The search walks the candidates in order and stops at the first free one.\<close>

lemma uniqueLoop_walk:
  assumes "statNotExist fs (candidate dir filename k)" "int k < 2 ^ 63"
    and "\<forall>j < k. \<not> statNotExist fs (candidate dir filename j)" "j \<le> k"
  shows "uniqueLoop fs dir (stem (Base filename)) (Ext (Base filename)) (candidate dir filename j) (wrap64 (int (Suc j)))
         = Some (candidate dir filename k)"
  using assms(4)
proof (induction "k - j" arbitrary: j)
  case 0
  then have "j = k" by simp
  then show ?case using assms(1) by (subst uniqueLoop.simps) simp
next
  case (Suc d)
  then have jk: "j < k" by simp
  then have w: "wrap64 (int (Suc j)) = int (Suc j)"
    using assms(2) by (intro wrap64_id int64_ok_of_bounds) auto
  have "uniqueLoop fs dir (stem (Base filename)) (Ext (Base filename)) (candidate dir filename (Suc j))
          (wrap64 (int (Suc (Suc j)))) = Some (candidate dir filename k)"
    using Suc jk by (intro Suc.hyps(1)) auto
  then show ?case
    using assms(3) jk w by (subst uniqueLoop.simps) (simp add: candidate_def add.commute)
qed

lemma getUniquePath_walk:
  assumes "statNotExist fs (candidate dir filename k)" "int k < 2 ^ 63"
    and "\<forall>j < k. \<not> statNotExist fs (candidate dir filename j)"
  shows "getUniquePath fs dir filename = Some (candidate dir filename k)"
  using uniqueLoop_walk [OF assms, of 0]
  by (simp add: getUniquePath_def Let_def stem_def candidate_def wrap64_id int64_ok_def)

lemma getUniquePath_result:
  assumes "getUniquePath fs dir filename = Some p"
  shows "statNotExist fs p \<and> (p = candidate dir filename 0
           \<or> (\<exists>j. p = PathJoin [dir, numbered (stem (Base filename)) j (Ext (Base filename))]))"
  using uniqueLoop_result assms
  by (fastforce simp: getUniquePath_def Let_def stem_def candidate_def)

text \<open>
  The directory is there: asking for it, for its parent, or for it under the root's name does not
  answer "no such file". This holds once \<open>Start\<close> has made the directory.
\<close>

definition dir_present :: "fsys \<Rightarrow> string \<Rightarrow> bool" where
  "dir_present fs dir \<longleftrightarrow>
     dir \<noteq> [] \<and> \<not> statNotExist fs (PathJoin [dir, ''.''])
     \<and> \<not> statNotExist fs (PathJoin [dir, ''..'']) \<and> \<not> statNotExist fs (PathJoin [dir, ''/''])"

lemma numbered_child:
  assumes "dir \<noteq> []"
  shows "\<exists>n. plain_name n \<and> PathJoin [dir, numbered (stem (Base filename)) j (Ext (Base filename))] = child dir n"
proof (cases "Base filename = ''/''")
  case True
  have "numbered (stem ''/'') j (Ext ''/'') = slash # numbered [] j []"
    by (simp add: stem_def Ext_def numbered_def)
  moreover have "plain_name (numbered [] j [])" by (rule numbered_plain) auto
  ultimately show ?thesis using assms True by (metis PathJoin_slash)
next
  case False
  then have "slash \<notin> set (Base filename)" by (rule Base_no_slash)
  then have "plain_name (numbered (stem (Base filename)) j (Ext (Base filename)))"
    using stem_parts [of "Base filename"] by (intro numbered_plain) auto
  then show ?thesis using PathJoin_plain by metis
qed

lemma unique_path_confined:
  assumes dir: "dir_present fs dir" and ret: "getUniquePath fs dir filename = Some p"
  shows "(\<exists>n. plain_name n \<and> p = child dir n) \<and> Stat fs p = Inl ENOENT"
proof -
  have d: "dir \<noteq> []" using dir by (simp add: dir_present_def)
  note res = getUniquePath_result [OF ret]
  have "Stat fs p = Inl ENOENT"
    using res by (auto simp: statNotExist_def IsNotExist_def split: sum.splits)
  moreover have "\<exists>n. plain_name n \<and> p = child dir n"
  proof (cases "p = candidate dir filename 0")
    case True
    then show ?thesis
    proof (cases rule: Base_cases [of filename])
      case 4
      then show ?thesis using True by (auto simp: candidate_def PathJoin_plain)
    qed (use True res dir in \<open>auto simp: candidate_def dir_present_def\<close>)
  next
    case False
    then show ?thesis using res numbered_child [OF d] by metis
  qed
  ultimately show ?thesis by blast
qed

section \<open>Properties\<close>

text \<open>
  C20: whatever file name a sender announces (with slashes, as \<open>..\<close>, empty, or
  the root), the path the server chooses is a direct child of its save directory, and nothing
  exists there yet.
\<close>

theorem save_path_confined:
  assumes "dir_present fs dir" and "getUniquePath fs dir filename = Some p"
  shows "(\<exists>n. plain_name n \<and> p = child dir n) \<and> Stat fs p = Inl ENOENT"
  by (rule unique_path_confined [OF assms])

text \<open>The search ends at the first free candidate, within one candidate more than there are paths.\<close>

lemma unique_path_bound:
  assumes dir: "dir \<noteq> []" and size: "card (keys (fs_nodes fs)) \<le> N" "int N < 2 ^ 63 - 1"
    and ans: "\<forall>k \<le> Suc N. path_error fs (candidate dir filename k) = None"
  shows "\<exists>k \<le> Suc N.
           getUniquePath fs dir filename = Some (candidate dir filename k)
           \<and> candidate dir filename k \<notin> keys (fs_nodes fs)
           \<and> (\<forall>j < k. candidate dir filename j \<in> keys (fs_nodes fs))"
proof -
  let ?c = "candidate dir filename"
  let ?N = "Suc N" and ?ks = "remdups (map fst (fs_nodes fs))"
  have free: "statNotExist fs (?c k) \<longleftrightarrow> ?c k \<notin> keys (fs_nodes fs)" if "k \<le> ?N" for k
    using ans that by (auto simp: statNotExist_def Stat_def IsNotExist_def map_of_None_iff
        split: option.splits dest: map_of_Some_key)
  have "inj_on ?c {1..Suc (length ?ks)}" by (rule candidate_inj [OF dir])
  then obtain m where "m \<le> Suc (length ?ks)" "?c m \<notin> set ?ks" using first_missing [of ?c ?ks] by blast
  then have m: "m \<le> ?N" "?c m \<notin> keys (fs_nodes fs)"
    using size(1) by (simp_all add: keys_def length_remdups_card_conv)
  define k where "k = (LEAST k. ?c k \<notin> keys (fs_nodes fs))"
  have k: "?c k \<notin> keys (fs_nodes fs)"
    unfolding k_def by (rule LeastI [of "\<lambda>k. ?c k \<notin> keys (fs_nodes fs)", OF m(2)])
  have km: "k \<le> m" unfolding k_def by (rule Least_le) (rule m(2))
  have lt: "\<forall>j < k. ?c j \<in> keys (fs_nodes fs)"
  proof (intro allI impI)
    fix j assume "j < k"
    then have "\<not> ?c j \<notin> keys (fs_nodes fs)" unfolding k_def by (rule not_less_Least)
    then show "?c j \<in> keys (fs_nodes fs)" by blast
  qed
  have kN: "k \<le> ?N" using km m(1) by (rule le_trans)
  have "getUniquePath fs dir filename = Some (?c k)"
  proof (rule getUniquePath_walk)
    show "statNotExist fs (?c k)" using free [OF kN] k by blast
    show "int k < 2 ^ 63" using kN size(2) by linarith
    show "\<forall>j < k. \<not> statNotExist fs (?c j)"
      using free lt kN by (meson le_trans less_imp_le_nat)
  qed
  then show ?thesis using k kN lt by blast
qed

text \<open>
  C21: when the file system answers for every candidate, the search ends, within
  one candidate more than the file system has entries; the result is the first candidate in the
  order name, name (1), name (2), \<dots> that does not exist.
\<close>

theorem unique_path_first:
  assumes dir: "dir \<noteq> []" and size: "int (length (fs_nodes fs)) < 2 ^ 63 - 1"
    and ans: "\<forall>k \<le> Suc (length (fs_nodes fs)). path_error fs (candidate dir filename k) = None"
  shows "\<exists>k \<le> Suc (length (fs_nodes fs)).
           getUniquePath fs dir filename = Some (candidate dir filename k)
           \<and> candidate dir filename k \<notin> keys (fs_nodes fs)
           \<and> (\<forall>j < k. candidate dir filename j \<in> keys (fs_nodes fs))"
proof (rule unique_path_bound [OF dir _ size ans])
  show "card (keys (fs_nodes fs)) \<le> length (fs_nodes fs)" unfolding keys_def by (metis card_length length_map set_map)
qed

text \<open>
  C22: a file name that holds a NUL byte, or whose last element is longer than
  255 bytes, makes \<open>Stat\<close> fail with an error other than "no such file" for every candidate,
  and the search never ends.
\<close>

theorem unique_path_diverges:
  assumes plain: "plain_name (Base filename)"
    and bad: "CHR 0x00 \<in> set (Base filename) \<or> 255 < length (Base filename)"
  shows "getUniquePath fs dir filename = None"
proof (rule ccontr)
  assume "getUniquePath fs dir filename \<noteq> None"
  then obtain p where p: "getUniquePath fs dir filename = Some p" by blast
  note res = getUniquePath_result [OF p]
  obtain n where n: "plain_name n" "p = child dir n"
    and big: "CHR 0x00 \<in> set n \<or> 255 < length n"
  proof (cases "p = candidate dir filename 0")
    case True
    then show ?thesis using that [of "Base filename"] plain bad by (simp add: candidate_def PathJoin_plain)
  next
    case False
    then obtain j where j: "p = PathJoin [dir, numbered (stem (Base filename)) j (Ext (Base filename))]"
      using res by blast
    let ?n = "numbered (stem (Base filename)) j (Ext (Base filename))"
    have pl: "plain_name ?n"
      using plain stem_parts [of "Base filename"] by (intro numbered_plain) (auto simp: plain_name_def)
    have "set (Base filename) \<subseteq> set ?n"
      using stem_parts(3) [of "Base filename"] by (metis numbered_def set_append Un_iff subsetI)
    moreover have "length (Base filename) \<le> length ?n"
      using arg_cong [OF stem_parts(3) [of "Base filename"], of length] by (simp add: numbered_def)
    ultimately show ?thesis using that [OF pl] j bad by (auto simp: PathJoin_plain [OF pl])
  qed
  have "n \<in> set (Split p slash)" using n by (simp add: Split_child)
  moreover from this have "set n \<subseteq> set p" by (rule Split_subset)
  ultimately have "path_error fs p \<noteq> None \<and> path_error fs p \<noteq> Some ENOENT"
    using big by (auto simp: path_error_def list_ex_iff)
  then show False
    using res by (auto simp: statNotExist_def Stat_def IsNotExist_def split: option.splits)
qed

text \<open>A save directory \<open>/s\<close> with its parent and a first \<open>a.txt\<close>, for concrete instances.\<close>

definition demo_fs :: fsys where
  "demo_fs = \<lparr>fs_nodes = [(''/'', Dir 4096), (''/s'', Dir 4096), (''/s/a.txt'', File ''old'')],
              fs_refuse = (\<lambda>_. None)\<rparr>"

lemmas path_eval =
  PathJoin_def Clean_def clean_elems_def render_path_def isRooted_def Base_def Ext_def Let_def

lemma demo_dir_present: "dir_present demo_fs ''/s''"
  by (simp add: dir_present_def statNotExist_def Stat_def path_error_def demo_fs_def path_eval)

theorem save_path_confined_witness:
  "\<exists>n. plain_name n \<and> getUniquePath demo_fs ''/s'' ''../../etc/a.txt'' = Some (child ''/s'' n)"
proof -
  have "getUniquePath demo_fs ''/s'' ''../../etc/a.txt'' = Some ''/s/a (1).txt''"
    by code_simp
  with save_path_confined [OF demo_dir_present this] show ?thesis by auto
qed

theorem unique_path_first_witness:
  "\<exists>k \<le> 4. getUniquePath demo_fs ''/s'' ''a.txt'' = Some (candidate ''/s'' ''a.txt'' k)
     \<and> candidate ''/s'' ''a.txt'' k \<notin> keys (fs_nodes demo_fs)"
proof -
  have len: "length (fs_nodes demo_fs) = 3" by (simp add: demo_fs_def)
  have "list_all (\<lambda>k. path_error demo_fs (candidate ''/s'' ''a.txt'' k) = None) [0, 1, 2, 3, 4]"
    by code_simp
  moreover have "(k::nat) \<le> 4 \<Longrightarrow> k \<in> set [0, 1, 2, 3, 4]" for k by auto
  ultimately have "\<forall>k \<le> 4. path_error demo_fs (candidate ''/s'' ''a.txt'' k) = None"
    unfolding list_all_iff by blast
  then show ?thesis
    using unique_path_first [of "''/s''" demo_fs "''a.txt''"] by (auto simp: len)
qed

theorem unique_path_diverges_witness: "getUniquePath demo_fs ''/s'' [CHR ''a'', CHR 0x00] = None"
proof -
  have "Base [CHR ''a'', CHR 0x00] = [CHR ''a'', CHR 0x00]" by (rule Base_id) auto
  then show ?thesis
    using unique_path_diverges [of "[CHR ''a'', CHR 0x00]" demo_fs "''/s''"] by (auto simp: plain_name_def)
qed

end
