(* ===== verification/Http.thy ===== *)
theory Http
  imports ProtocolJson GoNet
begin

text \<open>
  Requests and responses as the handlers of \<open>pkg/server\<close> see them. The body of a request is given
  twice, as each handler uses only one of them: \<open>rq_Json\<close> is the first JSON value in it (\<open>None\<close> for a
  body that is not JSON), \<open>rq_Reads\<close> the results of the calls to \<open>Body.Read\<close>.
\<close>

section \<open>Requests\<close>

text \<open>
  The error of one \<open>Read\<close>, if any, and what the disk does with the bytes of this read: \<open>None\<close> when
  all are written, \<open>Some k\<close> when \<open>Write\<close> fails after \<open>k\<close> bytes.
\<close>

datatype readErr = EOF | ReadFailed

record bodyRead =
  rd_Data :: string
  rd_Err :: "readErr option"
  rd_Disk :: "nat option"

text \<open>\<open>rq_TLS\<close> is \<open>None\<close> for a plain connection, otherwise the DER bytes of the peer certificates.\<close>

record httpRequest =
  rq_Method :: string
  rq_Path :: string
  rq_RawQuery :: string
  rq_RemoteAddr :: string
  rq_TLS :: "string list option"
  rq_Cookies :: "(string \<times> string) list"
  rq_Form :: "(string \<times> string) list"
  rq_Json :: "json option"
  rq_Reads :: "bodyRead list"

definition query :: "httpRequest \<Rightarrow> string \<Rightarrow> string" where
  "query r k = QueryGet (rq_RawQuery r) k"

section \<open>Responses\<close>

datatype body =
    NoBody
  | Text string
  | JsonBody json
  | Html string "(string \<times> string) list"   \<comment> \<open>a template and the strings put into it\<close>
  | Bytes string

record httpResponse =
  rs_Status :: nat
  rs_Headers :: "(string \<times> string) list"
  rs_Body :: body

definition MethodGet :: string where "MethodGet = ''GET''"
definition MethodPost :: string where "MethodPost = ''POST''"

definition StatusOK :: nat where "StatusOK = 200"
definition StatusNoContent :: nat where "StatusNoContent = 204"
definition StatusSeeOther :: nat where "StatusSeeOther = 303"
definition StatusBadRequest :: nat where "StatusBadRequest = 400"
definition StatusUnauthorized :: nat where "StatusUnauthorized = 401"
definition StatusForbidden :: nat where "StatusForbidden = 403"
definition StatusNotFound :: nat where "StatusNotFound = 404"
definition StatusMethodNotAllowed :: nat where "StatusMethodNotAllowed = 405"
definition StatusConflict :: nat where "StatusConflict = 409"
definition StatusUnprocessableEntity :: nat where "StatusUnprocessableEntity = 422"
definition StatusInternalServerError :: nat where "StatusInternalServerError = 500"

lemmas http_status =
  StatusOK_def StatusNoContent_def StatusSeeOther_def StatusBadRequest_def StatusUnauthorized_def
  StatusForbidden_def StatusNotFound_def StatusMethodNotAllowed_def StatusConflict_def
  StatusUnprocessableEntity_def StatusInternalServerError_def

text \<open>\<open>w.WriteHeader(code)\<close> alone, \<open>http.Error\<close>, and a JSON body with its content type.\<close>

definition statusOnly :: "nat \<Rightarrow> httpResponse" where
  "statusOnly code = \<lparr>rs_Status = code, rs_Headers = [], rs_Body = NoBody\<rparr>"

definition httpError :: "string \<Rightarrow> nat \<Rightarrow> httpResponse" where
  "httpError msg code =
     \<lparr>rs_Status = code,
      rs_Headers = [(''Content-Type'', ''text/plain; charset=utf-8''), (''X-Content-Type-Options'', ''nosniff'')],
      rs_Body = Text msg\<rparr>"

definition jsonResponse :: "json \<Rightarrow> httpResponse" where
  "jsonResponse j =
     \<lparr>rs_Status = StatusOK, rs_Headers = [(''Content-Type'', ''application/json'')], rs_Body = JsonBody j\<rparr>"

lemma rs_Status_simps [simp]:
  "rs_Status (statusOnly c) = c" "rs_Status (httpError m c) = c" "rs_Status (jsonResponse j) = StatusOK"
  by (simp_all add: statusOnly_def httpError_def jsonResponse_def)

text \<open>A handler that answers, one that still waits for the body, one that never ends.\<close>

datatype served = Responded httpResponse | Blocked | Diverges

text \<open>A plain GET request from a local address: the base of the concrete instances.\<close>

definition demo_rq :: httpRequest where
  "demo_rq =
     \<lparr>rq_Method = MethodGet, rq_Path = ''/'', rq_RawQuery = [], rq_RemoteAddr = ''10.0.0.1:5000'', rq_TLS = None,
      rq_Cookies = [], rq_Form = [], rq_Json = None, rq_Reads = []\<rparr>"

lemma demo_rq_host: "hostOf ''10.0.0.1:5000'' = ''10.0.0.1''"
  using hostOf_plain [of "''10.0.0.1''" "''5000''"] by simp

end
