(* ===== verification/Server.thy ===== *)
theory Server
  imports Http SessionMgr UniquePath Crypto
begin

text \<open>
  The receiving half of \<open>pkg/server/server.go\<close>: the server, its handlers for \<open>info\<close>,
  \<open>register\<close>, \<open>prepare-upload\<close>, \<open>upload\<close> and \<open>cancel\<close>, and the route table. A handler is a function of
  the request and of the world it runs in; every early return of the source is a branch.
\<close>

section \<open>State\<close>

type_synonym prepareCallback = "device \<Rightarrow> fileMetadata list \<Rightarrow> bool gomap option \<times> bool"

text \<open>
  The fields set before the server starts. A callback field is \<open>None\<close> or \<open>False\<close> while it is
  \<open>nil\<close>; the three notification callbacks are events of the world's log.
\<close>

record server =
  srv_myDevice :: device
  srv_tlsCert :: string
  srv_saveDir :: string
  srv_pin :: string
  srv_strictTLS :: bool
  srv_OnPrepareUpload :: "prepareCallback option"
  srv_hasOnProgress :: bool
  srv_hasOnDone :: bool
  srv_hasOnDiscover :: bool

datatype event =
    OnProgress string string int int
  | OnDone string string string
  | OnDiscover device

record world =
  w_now :: gotime
  w_mgr :: sessionManager
  w_uuids :: nat
  w_fs :: fsys
  w_log :: "event list"

text \<open>\<open>NewServer\<close> also makes the session manager, with a timeout of ten minutes.\<close>

definition NewServer :: "device \<Rightarrow> string \<Rightarrow> string \<Rightarrow> string \<Rightarrow> bool \<Rightarrow> server \<times> sessionManager" where
  "NewServer myDevice tlsCert saveDir pin strictTLS =
     (\<lparr>srv_myDevice = myDevice, srv_tlsCert = tlsCert, srv_saveDir = saveDir, srv_pin = pin,
       srv_strictTLS = strictTLS, srv_OnPrepareUpload = None, srv_hasOnProgress = False,
       srv_hasOnDone = False, srv_hasOnDiscover = False\<rparr>,
      NewSessionManager (10 * Minute))"

definition notify :: "bool \<Rightarrow> event \<Rightarrow> world \<Rightarrow> world" where
  "notify configured e w = (if configured then w\<lparr>w_log := w_log w @ [e]\<rparr> else w)"

section \<open>Device information\<close>

definition writeInfo :: "server \<Rightarrow> httpResponse" where
  "writeInfo srv =
     jsonResponse (encodeInfo
       \<lparr>info_Alias = dev_Alias (srv_myDevice srv), info_Version = ProtocolVersion,
        info_DeviceModel = dev_DeviceModel (srv_myDevice srv),
        info_DeviceType = dev_DeviceType (srv_myDevice srv),
        info_Fingerprint = dev_Fingerprint (srv_myDevice srv),
        info_Download = dev_Download (srv_myDevice srv)\<rparr>)"

definition handleInfo :: "server \<Rightarrow> httpRequest \<Rightarrow> httpResponse" where
  "handleInfo srv r =
     (if rq_Method r \<noteq> MethodGet then httpError ''Method not allowed'' StatusMethodNotAllowed
      else writeInfo srv)"

definition handleRegister :: "server \<Rightarrow> httpRequest \<Rightarrow> world \<Rightarrow> httpResponse \<times> world" where
  "handleRegister srv r w =
     (if rq_Method r \<noteq> MethodPost then (httpError ''Method not allowed'' StatusMethodNotAllowed, w)
      else case Option.bind (rq_Json r) decodeDevice of
             None \<Rightarrow> (httpError ''Bad request'' StatusBadRequest, w)
           | Some sender \<Rightarrow>
               let ip = hostOf (rq_RemoteAddr r);
                   sender' = sender\<lparr>dev_IP := ip\<rparr>
               in (writeInfo srv, notify (srv_hasOnDiscover srv) (OnDiscover sender') w))"

section \<open>Guards\<close>

definition validatePIN :: "server \<Rightarrow> httpRequest \<Rightarrow> bool" where
  "validatePIN srv r = (if srv_pin srv = [] then True else query r ''pin'' = srv_pin srv)"

definition checkClientCertificate :: "httpRequest \<Rightarrow> string \<times> bool" where
  "checkClientCertificate r =
     (case rq_TLS r of
        None \<Rightarrow> ([], False)
      | Some [] \<Rightarrow> ([], False)
      | Some (cert # _) \<Rightarrow> (CalculateFingerprint cert, True))"

section \<open>prepare-upload\<close>

text \<open>\<open>nil\<close>, the answer for "nothing accepted", is \<open>None\<close>.\<close>

definition filterAcceptedFiles :: "server \<Rightarrow> device \<Rightarrow> fileMetadata gomap \<Rightarrow> fileMetadata gomap option" where
  "filterAcceptedFiles srv sender files =
     (let filesList = map snd files;
          (acceptedFiles, accepted) =
            (case srv_OnPrepareUpload srv of None \<Rightarrow> (None, True) | Some cb \<Rightarrow> cb sender filesList)
      in if \<not> accepted then None
         else let filteredFiles =
                    filter (\<lambda>(fid, f). acceptedFiles = None
                              \<or> (case acceptedFiles of Some acc \<Rightarrow> map_of acc fid = Some True | None \<Rightarrow> False)) files
              in if filteredFiles = [] then None else Some filteredFiles)"

text \<open>
  The handler up to the busy check: either an answer, or the decoded request together with the
  fingerprint of the client certificate, if one was presented. The state is read, not changed.
\<close>

definition prepareGuards ::
  "server \<Rightarrow> httpRequest \<Rightarrow> world \<Rightarrow> httpResponse + prepareUploadRequest \<times> string \<times> bool" where
  "prepareGuards srv r w =
     (if rq_Method r \<noteq> MethodPost then Inl (httpError ''Method not allowed'' StatusMethodNotAllowed)
      else if \<not> validatePIN srv r then Inl (statusOnly StatusUnauthorized)
      else let (clientFingerprint, hasCert) = checkClientCertificate r
      in if srv_strictTLS srv \<and> \<not> hasCert then Inl (httpError ''Client certificate required'' StatusForbidden)
      else (case Option.bind (rq_Json r) decodePrepareUpload of
              None \<Rightarrow> Inl (httpError ''Bad request'' StatusBadRequest)
            | Some req \<Rightarrow>
                if areAllFilesDuplicate (w_fs w) (srv_saveDir srv) (pureq_Files req)
                then Inl (statusOnly StatusNoContent)
                else if IsBusy (w_now w) (w_mgr w) then Inl (statusOnly StatusConflict)
                else Inr (req, clientFingerprint, hasCert)))"

text \<open>The handler after the busy check: the decision of the user, then the session.\<close>

definition prepareCommit ::
  "(nat \<Rightarrow> string) \<Rightarrow> server \<Rightarrow> httpRequest \<Rightarrow> prepareUploadRequest \<times> string \<times> bool \<Rightarrow> world
   \<Rightarrow> httpResponse \<times> world" where
  "prepareCommit gen srv r passed w =
     (let (req, clientFingerprint, hasCert) = passed;
          senderIP = hostOf (rq_RemoteAddr r);
          info = (pureq_Info req)\<lparr>dev_IP := senderIP\<rparr>
      in case filterAcceptedFiles srv info (pureq_Files req) of
           None \<Rightarrow> (statusOnly StatusForbidden, w)
         | Some filteredFiles \<Rightarrow>
             let clientVerified = (hasCert \<and> dev_Fingerprint info = clientFingerprint);
                 (a, m, n) = CreateSession gen (w_now w) senderIP clientVerified filteredFiles (w_mgr w, w_uuids w);
                 resp = \<lparr>puresp_SessionID = sess_ID (deref m a), puresp_Files = sess_Files (deref m a)\<rparr>
             in (jsonResponse (encodePrepareResponse resp), w\<lparr>w_mgr := m, w_uuids := n\<rparr>))"

definition handlePrepareUpload ::
  "(nat \<Rightarrow> string) \<Rightarrow> server \<Rightarrow> httpRequest \<Rightarrow> world \<Rightarrow> httpResponse \<times> world" where
  "handlePrepareUpload gen srv r w =
     (case prepareGuards srv r w of
        Inl resp \<Rightarrow> (resp, w)
      | Inr passed \<Rightarrow> prepareCommit gen srv r passed w)"

section \<open>upload\<close>

definition validateUploadRequest ::
  "server \<Rightarrow> httpRequest \<Rightarrow> world \<Rightarrow> (nat \<times> string + nat \<times> fileMetadata) \<times> world" where
  "validateUploadRequest srv r w =
     (let sessionID = query r ''sessionId'';
          fileID = query r ''fileId'';
          token = query r ''token'';
          (sessionObj, m) = GetSession (w_now w) sessionID (w_mgr w);
          w1 = w\<lparr>w_mgr := m\<rparr>
      in case sessionObj of
           None \<Rightarrow> (Inl (StatusBadRequest, ''Session not found''), w1)
         | Some a \<Rightarrow>
             let (expectedToken, fileMeta, fileKnown) = GetFileTokenAndMeta fileID (deref m a);
                 (clientIP, clientVerified) = GetClientInfo (deref m a)
             in if \<not> fileKnown \<or> expectedToken \<noteq> token
                then (Inl (StatusBadRequest, ''Invalid token or fileId''), w1)
                else let remoteIP = hostOf (rq_RemoteAddr r)
                in if remoteIP \<noteq> clientIP then (Inl (StatusForbidden, ''IP address mismatch''), w1)
                else if srv_strictTLS srv then
                  (let hasCert = snd (checkClientCertificate r)
                   in if \<not> hasCert \<or> \<not> clientVerified
                      then (Inl (StatusForbidden, ''TLS connection untrusted''), w1)
                      else if meta_ID fileMeta = []
                      then (Inl (StatusInternalServerError, ''Internal error''), w1)
                      else (Inr (a, fileMeta), w1))
                else (Inr (a, fileMeta), w1))"

text \<open>
  The local variables of \<open>saveUploadedFile\<close>: the session pointer, the metadata, the path, the bytes
  counted, and the bytes the hasher has seen.
\<close>

record upload =
  up_session :: nat
  up_meta :: fileMetadata
  up_path :: string
  up_written :: int
  up_hashed :: string

datatype copyResult =
    Continue upload world
  | Reached upload world          \<comment> \<open>\<open>io.EOF\<close>: leave the loop\<close>
  | Fail nat string world

text \<open>
  One iteration of the copy loop. \<open>io.MultiWriter\<close> writes to the file first; when that fails the
  hasher is not reached and the error is returned with the count of bytes written. The branch for
  \<open>nr != nw\<close> without an error cannot be taken: both writers report an error with a short count.
\<close>

definition writeChunk :: "server \<Rightarrow> bodyRead \<Rightarrow> upload \<Rightarrow> world \<Rightarrow> upload \<times> world" where
  "writeChunk srv rd u w =
     (let bytes = (case rd_Disk rd of None \<Rightarrow> rd_Data rd | Some k \<Rightarrow> take k (rd_Data rd));
          w1 = w\<lparr>w_fs := appendFile (up_path u) bytes (w_fs w)\<rparr>;
          u1 = (if rd_Disk rd = None then u\<lparr>up_hashed := up_hashed u @ rd_Data rd\<rparr> else u);
          nw = int (length bytes)
      in if 0 < nw then
           let written = wrap64 (up_written u + nw);
               u2 = u1\<lparr>up_written := written\<rparr>;
               a = up_session u;
               w2 = w1\<lparr>w_mgr := modify a (UpdateProgress (w_now w) (meta_ID (up_meta u)) written) (w_mgr w1)\<rparr>
           in (u2, notify (srv_hasOnProgress srv)
                     (OnProgress (sess_ID (deref (w_mgr w) a)) (meta_ID (up_meta u)) written (meta_Size (up_meta u))) w2)
         else (u1, w1))"

definition copyStep :: "server \<Rightarrow> bodyRead \<Rightarrow> upload \<Rightarrow> world \<Rightarrow> copyResult" where
  "copyStep srv rd u w =
     (if IsCanceled (deref (w_mgr w) (up_session u))
      then Fail StatusBadRequest ''Upload canceled'' (w\<lparr>w_fs := Remove (up_path u) (w_fs w)\<rparr>)
      else let (u1, w1) = (if rd_Data rd \<noteq> [] then writeChunk srv rd u w else (u, w))
      in if rd_Data rd \<noteq> [] \<and> rd_Disk rd \<noteq> None
         then Fail StatusInternalServerError ''Write error'' w1
         else (case rd_Err rd of
                 None \<Rightarrow> Continue u1 w1
               | Some EOF \<Rightarrow> Reached u1 w1
               | Some ReadFailed \<Rightarrow> Fail StatusInternalServerError ''Read error'' w1))"

text \<open>The checksum test after the loop.\<close>

definition finishSave :: "upload \<Rightarrow> world \<Rightarrow> (nat \<times> string + string) \<times> world" where
  "finishSave u w =
     (let want = meta_Sha256 (up_meta u)
      in if want \<noteq> [] then
           (let calculatedHash = hexEncode (sha256 (up_hashed u))
            in if \<not> EqualFold calculatedHash want
               then (Inl (StatusUnprocessableEntity, ''Checksum mismatch''), w\<lparr>w_fs := Remove (up_path u) (w_fs w)\<rparr>)
               else (Inr (up_path u), w))
         else (Inr (up_path u), w))"

text \<open>The loop over the reads; \<open>None\<close> when they end before \<open>EOF\<close> or an error is seen.\<close>

fun copyLoop ::
  "server \<Rightarrow> bodyRead list \<Rightarrow> upload \<Rightarrow> world \<Rightarrow> (nat \<times> string + string) option \<times> world" where
  "copyLoop srv [] u w = (None, w)"
| "copyLoop srv (rd # rds) u w =
     (case copyStep srv rd u w of
        Fail status msg w' \<Rightarrow> (Some (Inl (status, msg)), w')
      | Continue u' w' \<Rightarrow> copyLoop srv rds u' w'
      | Reached u' w' \<Rightarrow> (case finishSave u' w' of (res, w'') \<Rightarrow> (Some res, w'')))"

definition startUpload :: "nat \<Rightarrow> fileMetadata \<Rightarrow> string \<Rightarrow> upload" where
  "startUpload a meta path =
     \<lparr>up_session = a, up_meta = meta, up_path = path, up_written = 0, up_hashed = []\<rparr>"

datatype saveOutcome = SaveReturned "nat \<times> string + string" | SaveBlocked | SaveDiverges

definition saveUploadedFile ::
  "server \<Rightarrow> nat \<Rightarrow> fileMetadata \<Rightarrow> bodyRead list \<Rightarrow> world \<Rightarrow> saveOutcome \<times> world" where
  "saveUploadedFile srv a fileMeta reads w =
     (case getUniquePath (w_fs w) (srv_saveDir srv) (meta_FileName fileMeta) of
        None \<Rightarrow> (SaveDiverges, w)
      | Some savedPath \<Rightarrow>
          (case Create (w_fs w) savedPath of
             Inl _ \<Rightarrow> (SaveReturned (Inl (StatusInternalServerError, ''Failed to create file'')), w)
           | Inr fs \<Rightarrow>
               (case copyLoop srv reads (startUpload a fileMeta savedPath) (w\<lparr>w_fs := fs\<rparr>) of
                  (None, w') \<Rightarrow> (SaveBlocked, w')
                | (Some res, w') \<Rightarrow> (SaveReturned res, w'))))"

text \<open>What the handler does once the file is saved.\<close>

definition completeUpload :: "server \<Rightarrow> nat \<Rightarrow> fileMetadata \<Rightarrow> string \<Rightarrow> world \<Rightarrow> world" where
  "completeUpload srv a fileMeta savedPath w =
     (let sid = sess_ID (deref (w_mgr w) a);
          w1 = notify (srv_hasOnDone srv) (OnDone sid (meta_ID fileMeta) savedPath) w
      in if IsCompleted (deref (w_mgr w1) a) then w1\<lparr>w_mgr := DeleteSession sid (w_mgr w1)\<rparr> else w1)"

definition handleUpload :: "server \<Rightarrow> httpRequest \<Rightarrow> world \<Rightarrow> served \<times> world" where
  "handleUpload srv r w =
     (if rq_Method r \<noteq> MethodPost
      then (Responded (httpError ''Method not allowed'' StatusMethodNotAllowed), w)
      else case validateUploadRequest srv r w of
             (Inl (status, errMsg), w1) \<Rightarrow> (Responded (httpError errMsg status), w1)
           | (Inr (a, fileMeta), w1) \<Rightarrow>
               (case saveUploadedFile srv a fileMeta (rq_Reads r) w1 of
                  (SaveDiverges, w2) \<Rightarrow> (Diverges, w2)
                | (SaveBlocked, w2) \<Rightarrow> (Blocked, w2)
                | (SaveReturned (Inl (status, errMsg)), w2) \<Rightarrow> (Responded (httpError errMsg status), w2)
                | (SaveReturned (Inr savedPath), w2) \<Rightarrow>
                    (Responded (statusOnly StatusOK), completeUpload srv a fileMeta savedPath w2)))"

section \<open>cancel\<close>

definition handleCancel :: "httpRequest \<Rightarrow> world \<Rightarrow> httpResponse \<times> world" where
  "handleCancel r w =
     (if rq_Method r \<noteq> MethodPost then (httpError ''Method not allowed'' StatusMethodNotAllowed, w)
      else (statusOnly StatusOK, w\<lparr>w_mgr := DeleteSession (query r ''sessionId'') (w_mgr w)\<rparr>))"

section \<open>Start, routes, shutdown\<close>

datatype clientAuth = PlainHTTP | RequestClientCert | RequireAnyClientCert

datatype startError = ErrMkdirSave os_error | ErrListen

text \<open>\<open>mkdir\<close> and \<open>listens\<close> are the answers of \<open>os.MkdirAll\<close> and \<open>net.Listen\<close>.\<close>

definition Start :: "server \<Rightarrow> os_error option \<Rightarrow> (int \<Rightarrow> bool) \<Rightarrow> int \<Rightarrow> startError + clientAuth" where
  "Start srv mkdir listens port =
     (case mkdir of
        Some e \<Rightarrow> Inl (ErrMkdirSave e)
      | None \<Rightarrow>
          if \<not> listens port then Inl ErrListen
          else if dev_Protocol (srv_myDevice srv) = ''http'' then Inr PlainHTTP
          else Inr (if srv_strictTLS srv then RequireAnyClientCert else RequestClientCert))"

definition serveHTTP :: "(nat \<Rightarrow> string) \<Rightarrow> server \<Rightarrow> httpRequest \<Rightarrow> world \<Rightarrow> served \<times> world" where
  "serveHTTP gen srv r w =
     (let p = rq_Path r; responded = (\<lambda>(resp, w'). (Responded resp, w')) in
      if p = ''/api/localsend/v1/info'' \<or> p = ''/api/localsend/v2/info'' then (Responded (handleInfo srv r), w)
      else if p = ''/api/localsend/v2/register'' then responded (handleRegister srv r w)
      else if p = ''/api/localsend/v2/prepare-upload'' then responded (handlePrepareUpload gen srv r w)
      else if p = ''/api/localsend/v2/upload'' then handleUpload srv r w
      else if p = ''/api/localsend/v2/cancel'' then responded (handleCancel r w)
      else (Responded (httpError ''404 page not found'' StatusNotFound), w))"

end
