(* ===== verification/Prepare.thy ===== *)
theory Prepare
  imports Server
begin

text \<open>
  The \<open>prepare-upload\<close> handler: what a session it opens is bound to, which requests it turns away,
  and that turning one away changes nothing.
\<close>

section \<open>Decoded requests\<close>

text \<open>What every setter of a structure preserves holds of the decoded structure.\<close>

lemma findField_in: "findField fs k = Some f \<Longrightarrow> f \<in> snd ` set fs"
  by (force simp: findField_def split: option.splits dest: map_of_SomeD)

definition preserves :: "('a \<Rightarrow> bool) \<Rightarrow> (string \<times> 'a setter) list \<Rightarrow> bool" where
  "preserves P fs \<longleftrightarrow> (\<forall>f j x x'. f \<in> snd ` set fs \<longrightarrow> P x \<longrightarrow> f j x = Some x' \<longrightarrow> P x')"

lemma storeFields_preserves:
  assumes "preserves P fs"
  shows "P x \<Longrightarrow> storeFields fs kvs x = Some y \<Longrightarrow> P y"
proof (induction kvs arbitrary: x)
  case (Cons p kvs)
  obtain k j where p: "p = (k, j)" by force
  show ?case
  proof (cases "findField fs k")
    case None
    then show ?thesis using Cons by (simp add: p)
  next
    case (Some f)
    then obtain x' where x': "f j x = Some x'" "storeFields fs kvs x' = Some y"
      using Cons.prems(2) by (auto simp: p split: option.splits)
    have "P x'"
      using assms findField_in [OF Some] Cons.prems(1) x'(1) unfolding preserves_def by blast
    then show ?thesis using Cons.IH x'(2) by blast
  qed
qed simp

lemma decStruct_preserves:
  assumes "decStruct fs j x = Some y" "preserves P fs" "P x"
  shows "P y"
proof (cases j)
  case (JObj kvs)
  then show ?thesis
    using assms(1) storeFields_preserves [OF assms(2,3)] by (simp add: decStruct_def)
qed (use assms in \<open>auto simp: decStruct_def\<close>)

lemma decMap_wf: "gomap_wf m \<Longrightarrow> decMap dec zero j m = Some m' \<Longrightarrow> gomap_wf m'"
proof -
  have "gomap_wf m \<Longrightarrow> storeEntries dec zero kvs m = Some m' \<Longrightarrow> gomap_wf m'" for kvs m
    by (induction dec zero kvs m rule: storeEntries.induct) (auto split: option.splits)
  then show "gomap_wf m \<Longrightarrow> decMap dec zero j m = Some m' \<Longrightarrow> gomap_wf m'"
    by (auto simp: decMap_def split: json.splits)
qed

lemma decodePrepareUpload_wf:
  assumes "decodePrepareUpload j = Some req"
  shows "gomap_wf (pureq_Files req)"
  using assms unfolding decodePrepareUpload_def
  by (rule decStruct_preserves [where P = "\<lambda>r. gomap_wf (pureq_Files r)"])
    (auto simp: preserves_def dest: decMap_wf)

section \<open>Filtering\<close>

definition world_inv :: "(nat \<Rightarrow> string) \<Rightarrow> world \<Rightarrow> bool" where
  "world_inv gen w \<longleftrightarrow> mgr_inv gen (w_mgr w, w_uuids w)"

lemma gomap_wf_filter: "gomap_wf m \<Longrightarrow> gomap_wf (filter P m)"
  by (simp add: gomap_wf_def distinct_map_filter)

lemma filterAcceptedFiles_Some:
  assumes "filterAcceptedFiles srv sender files = Some accepted"
  shows "accepted \<noteq> [] \<and> set accepted \<subseteq> set files \<and> (gomap_wf files \<longrightarrow> gomap_wf accepted)"
  using assms by (auto simp: filterAcceptedFiles_def Let_def gomap_wf_filter split: prod.splits if_splits)

section \<open>The commit\<close>

lemma prepareGuards_Inr:
  assumes "prepareGuards srv r w = Inr (req, fp, hasCert)"
  shows "rq_Method r = MethodPost \<and> validatePIN srv r \<and> (fp, hasCert) = checkClientCertificate r
         \<and> (srv_strictTLS srv \<longrightarrow> hasCert) \<and> Option.bind (rq_Json r) decodePrepareUpload = Some req
         \<and> \<not> areAllFilesDuplicate (w_fs w) (srv_saveDir srv) (pureq_Files req)
         \<and> \<not> IsBusy (w_now w) (w_mgr w)"
  using assms by (auto simp: prepareGuards_def Let_def split: if_splits prod.splits option.splits)

lemma prepareGuards_Inl:
  "prepareGuards srv r w = Inl resp \<Longrightarrow> rs_Status resp \<in> {204, 400, 401, 403, 405, 409}"
  by (auto simp: prepareGuards_def Let_def http_status split: if_splits prod.splits option.splits)

lemma prepareCommit_cases:
  assumes "prepareCommit gen srv r (req, fp, hasCert) w = (resp, w')"
  obtains
    (rejected) "resp = statusOnly StatusForbidden" "w' = w"
  | (opened) files a m n where
      "filterAcceptedFiles srv ((pureq_Info req)\<lparr>dev_IP := hostOf (rq_RemoteAddr r)\<rparr>) (pureq_Files req) = Some files"
      "CreateSession gen (w_now w) (hostOf (rq_RemoteAddr r))
         (hasCert \<and> dev_Fingerprint (pureq_Info req) = fp) files (w_mgr w, w_uuids w) = (a, m, n)"
      "resp = jsonResponse (encodePrepareResponse
         \<lparr>puresp_SessionID = sess_ID (deref m a), puresp_Files = sess_Files (deref m a)\<rparr>)"
      "w' = w\<lparr>w_mgr := m, w_uuids := n\<rparr>"
  using assms by (auto simp: prepareCommit_def Let_def split: option.splits prod.splits)

lemma handlePrepareUpload_cases:
  assumes "handlePrepareUpload gen srv r w = (resp, w')"
  obtains
    (refused) "w' = w" "rs_Status resp \<in> {204, 400, 401, 403, 405, 409}"
  | (opened) req fp hasCert files a m n where
      "prepareGuards srv r w = Inr (req, fp, hasCert)"
      "filterAcceptedFiles srv ((pureq_Info req)\<lparr>dev_IP := hostOf (rq_RemoteAddr r)\<rparr>) (pureq_Files req) = Some files"
      "CreateSession gen (w_now w) (hostOf (rq_RemoteAddr r))
         (hasCert \<and> dev_Fingerprint (pureq_Info req) = fp) files (w_mgr w, w_uuids w) = (a, m, n)"
      "resp = jsonResponse (encodePrepareResponse
         \<lparr>puresp_SessionID = sess_ID (deref m a), puresp_Files = sess_Files (deref m a)\<rparr>)"
      "w' = w\<lparr>w_mgr := m, w_uuids := n\<rparr>"
proof (cases "prepareGuards srv r w")
  case (Inl resp')
  then show thesis
    using assms prepareGuards_Inl [OF Inl] refused by (simp add: handlePrepareUpload_def)
next
  case (Inr passed)
  obtain req fp hasCert where p: "passed = (req, fp, hasCert)" by (cases passed) auto
  have "prepareCommit gen srv r (req, fp, hasCert) w = (resp, w')"
    using assms Inr p by (simp add: handlePrepareUpload_def)
  then show thesis
  proof (cases rule: prepareCommit_cases)
    case rejected
    then show thesis using refused by (simp add: http_status)
  next
    case (opened files a m n)
    then show thesis using that(2) Inr p by metis
  qed
qed

lemma handlePrepareUpload_inv:
  assumes "uuid_ok gen" "world_inv gen w" "handlePrepareUpload gen srv r w = (resp, w')"
  shows "world_inv gen w'"
  using assms(3)
proof (cases rule: handlePrepareUpload_cases)
  case refused
  then show ?thesis using assms(2) by simp
next
  case (opened req fp hasCert files a m n)
  have "gomap_wf (pureq_Files req)"
    using prepareGuards_Inr [OF opened(1)] by (auto simp: bind_eq_Some_conv intro: decodePrepareUpload_wf)
  then have "gomap_wf files" using filterAcceptedFiles_Some [OF opened(2)] by blast
  then show ?thesis
    using CreateSession_inv [OF assms(1) _ _ opened(3)] assms(2) opened(5) by (simp add: world_inv_def)
qed

lemma handlePrepareUpload_frame:
  "w_fs (snd (handlePrepareUpload gen srv r w)) = w_fs w" "w_now (snd (handlePrepareUpload gen srv r w)) = w_now w"
  "w_log (snd (handlePrepareUpload gen srv r w)) = w_log w"
  by (auto simp: handlePrepareUpload_def prepareCommit_def Let_def split: sum.splits prod.splits option.splits)

text \<open>What a client decodes from the answer.\<close>

lemma decodePrepareResponse_encode:
  assumes "gomap_wf files"
  shows "decodePrepareResponse (encodePrepareResponse \<lparr>puresp_SessionID = sid, puresp_Files = files\<rparr>)
         = Some \<lparr>puresp_SessionID = sid, puresp_Files = sort_key fst files\<rparr>"
  using decMap_strings [OF assms]
  by (simp add: decodePrepareResponse_def encodePrepareResponse_def decStruct_def findField_exact)

section \<open>Properties\<close>

text \<open>The identifiers the user's decision lets through.\<close>

definition userAccepts :: "server \<Rightarrow> device \<Rightarrow> fileMetadata gomap \<Rightarrow> string \<Rightarrow> bool" where
  "userAccepts srv sender files fid =
     (case srv_OnPrepareUpload srv of
        None \<Rightarrow> True
      | Some cb \<Rightarrow>
          (case cb sender (map snd files) of
             (_, False) \<Rightarrow> False
           | (None, True) \<Rightarrow> True
           | (Some acc, True) \<Rightarrow> map_of acc fid = Some True))"

lemma filterAcceptedFiles_eq:
  "filterAcceptedFiles srv sender files =
     (let fs = filter (\<lambda>(fid, f). userAccepts srv sender files fid) files in if fs = [] then None else Some fs)"
proof (cases "srv_OnPrepareUpload srv")
  case None
  then show ?thesis by (simp add: filterAcceptedFiles_def userAccepts_def)
next
  case (Some cb)
  obtain accepted ok where cb: "cb sender (map snd files) = (accepted, ok)" by force
  then show ?thesis
    using Some by (cases accepted; cases ok) (simp_all add: filterAcceptedFiles_def userAccepts_def Let_def)
qed

lemma map_of_filter_key:
  "map_of (filter (\<lambda>(k, v). P k) m) k = (if P k then map_of m k else None)"
  by (induction m) auto

text \<open>
  A session gets exactly the requested files the user let through, with their
  metadata unchanged; the request is rejected exactly when that leaves nothing.
\<close>

lemma filter_accepts:
  "(filterAcceptedFiles srv sender files = None \<longleftrightarrow> \<not> (\<exists>fid \<in> keys files. userAccepts srv sender files fid))
   \<and> (\<forall>acc fid. filterAcceptedFiles srv sender files = Some acc \<longrightarrow>
         map_of acc fid = (if userAccepts srv sender files fid then map_of files fid else None))"
proof -
  let ?f = "filter (\<lambda>(fid, f). userAccepts srv sender files fid) files"
  have "?f = [] \<longleftrightarrow> \<not> (\<exists>fid \<in> keys files. userAccepts srv sender files fid)"
    by (auto simp: filter_empty_conv keys_def)
  moreover have "filterAcceptedFiles srv sender files = (if ?f = [] then None else Some ?f)"
    by (simp add: filterAcceptedFiles_eq Let_def)
  ultimately show ?thesis
    using map_of_filter_key [of "userAccepts srv sender files" files] by simp
qed

text \<open>
  C7: a session is opened only for a POST request with the right PIN, with a client
  certificate when TLS is strict, with no session in progress, and for files that are not all
  there already. Every other answer is one of six error codes and leaves the whole state as it
  was; a wrong PIN is always answered with 401.
\<close>

theorem prepare_guarded:
  assumes "handlePrepareUpload gen srv r w = (resp, w')"
  shows "(if rs_Status resp = StatusOK
          then rq_Method r = MethodPost \<and> validatePIN srv r
               \<and> (srv_strictTLS srv \<longrightarrow> (\<exists>cert rest. rq_TLS r = Some (cert # rest)))
               \<and> \<not> IsBusy (w_now w) (w_mgr w)
               \<and> (\<exists>req. Option.bind (rq_Json r) decodePrepareUpload = Some req
                     \<and> \<not> areAllFilesDuplicate (w_fs w) (srv_saveDir srv) (pureq_Files req))
          else w' = w \<and> rs_Status resp \<in> {204, 400, 401, 403, 405, 409})
       \<and> (rq_Method r = MethodPost \<and> \<not> validatePIN srv r \<longrightarrow> rs_Status resp = StatusUnauthorized)"
  using assms
proof (cases rule: handlePrepareUpload_cases)
  case refused
  moreover have "rq_Method r = MethodPost \<and> \<not> validatePIN srv r \<longrightarrow> rs_Status resp = StatusUnauthorized"
    using assms by (auto simp: handlePrepareUpload_def prepareGuards_def)
  ultimately show ?thesis by (auto simp: StatusOK_def)
next
  case (opened req fp hasCert files a m n)
  note g = prepareGuards_Inr [OF opened(1)]
  have "hasCert \<Longrightarrow> \<exists>cert rest. rq_TLS r = Some (cert # rest)"
    using g by (auto simp: checkClientCertificate_def split: option.splits list.splits)
  then show ?thesis using g opened(4) by auto
qed

text \<open>The session a successful request opens.\<close>

lemma prepare_opens:
  assumes uuid: "uuid_ok gen" and inv: "world_inv gen w" and timeout: "0 < mgr_timeout (w_mgr w)"
    and run: "handlePrepareUpload gen srv r w = (resp, w')" and ok: "rs_Status resp = StatusOK"
  shows "\<exists>req s j ans. Option.bind (rq_Json r) decodePrepareUpload = Some req
     \<and> view (w_mgr w) (sess_ID s) = None \<and> view (w_mgr w') = (view (w_mgr w))(sess_ID s \<mapsto> s)
     \<and> sess_ClientIP s = hostOf (rq_RemoteAddr r)
     \<and> (sess_ClientVerified s \<longleftrightarrow> (\<exists>cert rest. rq_TLS r = Some (cert # rest)
            \<and> dev_Fingerprint (pureq_Info req) = CalculateFingerprint cert))
     \<and> filterAcceptedFiles srv ((pureq_Info req)\<lparr>dev_IP := hostOf (rq_RemoteAddr r)\<rparr>) (pureq_Files req)
         = Some (sess_FilesMetadata s)
     \<and> keys (sess_Files s) = keys (sess_FilesMetadata s)
     \<and> rs_Body resp = JsonBody j \<and> decodePrepareResponse j = Some ans
     \<and> puresp_SessionID ans = sess_ID s \<and> map_of (puresp_Files ans) = map_of (sess_Files s)
     \<and> IsBusy (w_now w) (w_mgr w') \<and> w_fs w' = w_fs w
     \<and> (\<exists>ver n'. NewUploadSession gen (w_uuids w) (w_now w) (hostOf (rq_RemoteAddr r)) ver (sess_FilesMetadata s) = (s, n'))"
  using run
proof (cases rule: handlePrepareUpload_cases)
  case refused
  then show ?thesis using ok by (simp add: StatusOK_def)
next
  case (opened req fp hasCert files a m n)
  note g = prepareGuards_Inr [OF opened(1)]
  have mi: "mgr_inv gen (w_mgr w, w_uuids w)" using inv by (simp add: world_inv_def)
  have wf: "gomap_wf files"
    using g filterAcceptedFiles_Some [OF opened(2)]
    by (auto simp: bind_eq_Some_conv dest: decodePrepareUpload_wf)
  let ?s = "deref m a"
  obtain s n' where s: "NewUploadSession gen (w_uuids w) (w_now w) (hostOf (rq_RemoteAddr r))
      (hasCert \<and> dev_Fingerprint (pureq_Info req) = fp) files = (s, n')"
    by force
  have sd: "?s = s" using CreateSession_view(2) [OF mi opened(3)] s by simp
  note f = NewUploadSession_fields [OF s] and si = NewUploadSession_inv [OF wf s]
  have ver: "hasCert \<and> dev_Fingerprint (pureq_Info req) = fp \<longleftrightarrow>
      (\<exists>cert rest. rq_TLS r = Some (cert # rest) \<and> dev_Fingerprint (pureq_Info req) = CalculateFingerprint cert)"
    using g by (auto simp: checkClientCertificate_def split: option.splits list.splits)
  have wfF: "gomap_wf (sess_Files s)" using si by (simp add: sess_inv_def)
  have busy: "IsBusy (w_now w) m"
  proof -
    have st: "storeOk (gen, w_mgr w, w_uuids w)" using uuid mi by (simp add: storeOk_def)
    show ?thesis
      using mgr.create_makes_busy [OF st wf, of "w_now w" "hostOf (rq_RemoteAddr r)"
          "hasCert \<and> dev_Fingerprint (pureq_Info req) = fp"] timeout opened(3)
      by (simp add: storeLimit_def storeBusy_def storeCreate_def)
  qed
  show ?thesis
  proof (intro exI conjI)
    show "Option.bind (rq_Json r) decodePrepareUpload = Some req" using g by blast
    show "view (w_mgr w) (sess_ID s) = None" using CreateSession_fresh [OF uuid mi opened(3)] sd by simp
    show "view (w_mgr w') = (view (w_mgr w))(sess_ID s \<mapsto> s)"
      using CreateSession_view(1) [OF mi opened(3)] sd opened(5) by simp
    show "sess_ClientIP s = hostOf (rq_RemoteAddr r)" by (rule f(3))
    show "sess_ClientVerified s \<longleftrightarrow> (\<exists>cert rest. rq_TLS r = Some (cert # rest)
            \<and> dev_Fingerprint (pureq_Info req) = CalculateFingerprint cert)" using f(4) ver by simp
    show "filterAcceptedFiles srv ((pureq_Info req)\<lparr>dev_IP := hostOf (rq_RemoteAddr r)\<rparr>) (pureq_Files req)
         = Some (sess_FilesMetadata s)" using opened(2) f(6) by simp
    show "keys (sess_Files s) = keys (sess_FilesMetadata s)" using si by (simp add: sess_inv_def)
    show "rs_Body resp = JsonBody (encodePrepareResponse
        \<lparr>puresp_SessionID = sess_ID s, puresp_Files = sess_Files s\<rparr>)"
      using opened(4) sd by (simp add: jsonResponse_def)
    show "decodePrepareResponse (encodePrepareResponse \<lparr>puresp_SessionID = sess_ID s, puresp_Files = sess_Files s\<rparr>)
        = Some \<lparr>puresp_SessionID = sess_ID s, puresp_Files = sort_key fst (sess_Files s)\<rparr>"
      by (rule decodePrepareResponse_encode [OF wfF])
    show "NewUploadSession gen (w_uuids w) (w_now w) (hostOf (rq_RemoteAddr r))
      (hasCert \<and> dev_Fingerprint (pureq_Info req) = fp) (sess_FilesMetadata s) = (s, n')" using s f(6) by simp
  qed (use map_of_sort_key [OF wfF] busy opened(5) in auto)
qed

text \<open>
  C6: a successful request adds one session, under an identifier that was not
  in use, bound to the address of the sender and to the accepted files; it is verified exactly
  when the announced fingerprint is that of the client certificate. The answer tells the client
  the identifier and one token per accepted file, and the server is busy from then on.
\<close>

theorem prepare_opens_session:
  assumes uuid: "uuid_ok gen" and inv: "world_inv gen w" and timeout: "0 < mgr_timeout (w_mgr w)"
    and run: "handlePrepareUpload gen srv r w = (resp, w')" and ok: "rs_Status resp = StatusOK"
  shows "\<exists>req s j ans. Option.bind (rq_Json r) decodePrepareUpload = Some req
     \<and> view (w_mgr w) (sess_ID s) = None \<and> view (w_mgr w') = (view (w_mgr w))(sess_ID s \<mapsto> s)
     \<and> sess_ClientIP s = hostOf (rq_RemoteAddr r)
     \<and> (sess_ClientVerified s \<longleftrightarrow> (\<exists>cert rest. rq_TLS r = Some (cert # rest)
            \<and> dev_Fingerprint (pureq_Info req) = CalculateFingerprint cert))
     \<and> filterAcceptedFiles srv ((pureq_Info req)\<lparr>dev_IP := hostOf (rq_RemoteAddr r)\<rparr>) (pureq_Files req)
         = Some (sess_FilesMetadata s)
     \<and> keys (sess_Files s) = keys (sess_FilesMetadata s)
     \<and> rs_Body resp = JsonBody j \<and> decodePrepareResponse j = Some ans
     \<and> puresp_SessionID ans = sess_ID s \<and> map_of (puresp_Files ans) = map_of (sess_Files s)
     \<and> IsBusy (w_now w) (w_mgr w') \<and> w_fs w' = w_fs w"
  using prepare_opens [OF assms] by metis

text \<open>A server without PIN that saves to \<open>/s\<close>, and a sender offering two files.\<close>

definition demo_srv :: server where
  "demo_srv = fst (NewServer zeroDevice [] ''/s'' [] False)"

definition demo_world :: world where
  "demo_world = \<lparr>w_now = Time 5, w_mgr = NewSessionManager (10 * Minute), w_uuids = 0, w_fs = demo_fs, w_log = []\<rparr>"

definition demo_files :: "fileMetadata gomap" where
  "demo_files = [(''f'', zeroMeta\<lparr>meta_ID := ''f'', meta_FileName := ''a.txt'', meta_Size := 3\<rparr>),
                 (''g'', zeroMeta\<lparr>meta_ID := ''g'', meta_FileName := ''b.txt'', meta_Size := 0\<rparr>)]"

definition demo_prepare :: httpRequest where
  "demo_prepare = demo_rq\<lparr>rq_Method := MethodPost,
     rq_Json := Some (encodePrepareUpload \<lparr>pureq_Info = zeroDevice, pureq_Files = demo_files\<rparr>)\<rparr>"

lemma demo_world_ok: "world_inv gen demo_world" "0 < mgr_timeout (w_mgr demo_world)"
  by (simp_all add: world_inv_def demo_world_def mgr_inv_new)
    (simp add: NewSessionManager_def Minute_def Second_def)

lemma demo_prepare_ok: "rs_Status (fst (handlePrepareUpload demo_uuid demo_srv demo_prepare demo_world)) = StatusOK"
  by code_simp

theorem prepare_guarded_witness:
  "\<not> IsBusy (w_now demo_world) (w_mgr demo_world) \<and> validatePIN demo_srv demo_prepare"
  using prepare_guarded [of demo_uuid demo_srv demo_prepare demo_world, OF surjective_pairing] demo_prepare_ok
  by simp

theorem prepare_opens_session_witness:
  "IsBusy (w_now demo_world) (w_mgr (snd (handlePrepareUpload demo_uuid demo_srv demo_prepare demo_world)))"
  using prepare_opens_session [OF demo_uuid_ok demo_world_ok surjective_pairing demo_prepare_ok] by blast

end
