(* ===== verification/Upload.thy ===== *)
theory Upload
  imports Prepare
begin

text \<open>
  The \<open>upload\<close> handler: who may upload, what the copy loop does to the file, to the session and to
  everything else, and when the session ends.
\<close>

section \<open>Who may upload\<close>

lemma validateUploadRequest_world:
  "snd (validateUploadRequest srv r w) = w\<lparr>w_mgr := snd (GetSession (w_now w) (query r ''sessionId'') (w_mgr w))\<rparr>"
  by (auto simp: validateUploadRequest_def Let_def split: prod.splits option.splits)

lemma validateUploadRequest_same:
  assumes "validateUploadRequest srv r w = (v, w1)"
  shows "w_fs w1 = w_fs w" "w_log w1 = w_log w" "w_now w1 = w_now w" "w_uuids w1 = w_uuids w"
  using validateUploadRequest_world [of srv r w] assms by simp_all

lemma validateUploadRequest_Inr:
  assumes "validateUploadRequest srv r w = (Inr (a, meta), w1)"
  shows "GetSession (w_now w) (query r ''sessionId'') (w_mgr w) = (Some a, w_mgr w1)
    \<and> w1 = w\<lparr>w_mgr := w_mgr w1\<rparr>
    \<and> GetFileTokenAndMeta (query r ''fileId'') (deref (w_mgr w1) a) = (query r ''token'', meta, True)
    \<and> sess_ClientIP (deref (w_mgr w1) a) = hostOf (rq_RemoteAddr r)
    \<and> (srv_strictTLS srv \<longrightarrow> sess_ClientVerified (deref (w_mgr w1) a) \<and> snd (checkClientCertificate r)
           \<and> meta_ID meta \<noteq> [])"
  using assms
  by (auto simp: validateUploadRequest_def Let_def GetClientInfo_def
      split: prod.splits option.splits if_splits)

lemma validateUploadRequest_unknown:
  assumes "fst (GetSession (w_now w) (query r ''sessionId'') (w_mgr w)) = None"
  shows "fst (validateUploadRequest srv r w) = Inl (StatusBadRequest, ''Session not found'')"
  using assms by (auto simp: validateUploadRequest_def Let_def split: prod.splits)

section \<open>What one upload can change\<close>

text \<open>
  Between \<open>w\<close> and \<open>w'\<close> only the file \<open>path\<close> and the progress of the session at \<open>a\<close> changed (and the
  log of notifications grew).
\<close>

definition sameSession :: "uploadSession \<Rightarrow> uploadSession \<Rightarrow> bool" where
  "sameSession s s' \<longleftrightarrow>
     sess_ID s' = sess_ID s \<and> sess_ClientIP s' = sess_ClientIP s
     \<and> sess_ClientVerified s' = sess_ClientVerified s \<and> sess_Files s' = sess_Files s
     \<and> sess_FilesMetadata s' = sess_FilesMetadata s \<and> sess_canceled s' = sess_canceled s
     \<and> (sess_inv s \<longrightarrow> sess_inv s')"

definition mgrFrame :: "nat \<Rightarrow> sessionManager \<Rightarrow> sessionManager \<Rightarrow> bool" where
  "mgrFrame a m m' \<longleftrightarrow>
     mgr_sessions m' = mgr_sessions m \<and> mgr_timeout m' = mgr_timeout m \<and> mgr_closed m' = mgr_closed m
     \<and> length (mgr_heap m') = length (mgr_heap m)
     \<and> (\<forall>b. b \<noteq> a \<longrightarrow> deref m' b = deref m b) \<and> sameSession (deref m a) (deref m' a)"

definition fsFrame :: "string \<Rightarrow> fsys \<Rightarrow> fsys \<Rightarrow> bool" where
  "fsFrame path fs fs' \<longleftrightarrow>
     fs_refuse fs' = fs_refuse fs \<and> (\<forall>q. q \<noteq> path \<longrightarrow> map_of (fs_nodes fs') q = map_of (fs_nodes fs) q)"

definition uploadFrame :: "nat \<Rightarrow> string \<Rightarrow> world \<Rightarrow> world \<Rightarrow> bool" where
  "uploadFrame a path w w' \<longleftrightarrow>
     mgrFrame a (w_mgr w) (w_mgr w') \<and> fsFrame path (w_fs w) (w_fs w')
     \<and> w_now w' = w_now w \<and> w_uuids w' = w_uuids w \<and> (\<exists>es. w_log w' = w_log w @ es)"

lemma sameSession_refl [simp]: "sameSession s s"
  by (simp add: sameSession_def)

lemma mgrFrame_refl [simp]: "mgrFrame a m m"
  by (simp add: mgrFrame_def)

lemma fsFrame_refl [simp]: "fsFrame p fs fs"
  by (simp add: fsFrame_def)

lemma uploadFrame_refl [simp]: "uploadFrame a p w w"
  by (simp add: uploadFrame_def)

lemma mgrFrame_trans: "mgrFrame a m m' \<Longrightarrow> mgrFrame a m' m'' \<Longrightarrow> mgrFrame a m m''"
  by (simp add: mgrFrame_def sameSession_def)

lemma fsFrame_trans: "fsFrame p fs fs' \<Longrightarrow> fsFrame p fs' fs'' \<Longrightarrow> fsFrame p fs fs''"
  by (simp add: fsFrame_def)

lemma uploadFrame_trans: "uploadFrame a p w w' \<Longrightarrow> uploadFrame a p w' w'' \<Longrightarrow> uploadFrame a p w w''"
  unfolding uploadFrame_def using mgrFrame_trans fsFrame_trans by (metis append.assoc)

lemma fsFrame_append: "fsFrame p fs (appendFile p bs fs)"
  by (simp add: fsFrame_def nodes_appendFile_other)

lemma fsFrame_Remove: "fsFrame p fs (Remove p fs)"
  by (simp add: fsFrame_def nodes_Remove_other)

lemma fsFrame_Create: "Create fs p = Inr fs' \<Longrightarrow> fsFrame p fs fs'"
  by (auto simp: fsFrame_def dest: Create_Inr)

lemma mgrFrame_progress: "mgrFrame a m (modify a (UpdateProgress now fid b) m)"
proof (cases "a < length (mgr_heap m)")
  case True
  then show ?thesis
    by (auto simp: mgrFrame_def sameSession_def deref_modify UpdateProgress_inv)
next
  case False
  then show ?thesis by (simp add: modify_def list_update_beyond)
qed

lemma notify_frame [simp]:
  "w_now (notify c e w) = w_now w" "w_mgr (notify c e w) = w_mgr w" "w_uuids (notify c e w) = w_uuids w"
  "w_fs (notify c e w) = w_fs w" "\<exists>es. w_log (notify c e w) = w_log w @ es"
  by (simp_all add: notify_def)

lemma writeChunk_frame:
  assumes "writeChunk srv rd u w = (u', w')"
  shows "uploadFrame (up_session u) (up_path u) w w' \<and> up_session u' = up_session u
         \<and> up_path u' = up_path u \<and> up_meta u' = up_meta u"
  using assms
  by (auto simp: writeChunk_def Let_def uploadFrame_def mgrFrame_progress fsFrame_append notify_def
      split: if_splits)

lemma copyStep_frame:
  assumes "copyStep srv rd u w = res"
  shows "case res of
           Continue u' w' \<Rightarrow> uploadFrame (up_session u) (up_path u) w w'
              \<and> up_session u' = up_session u \<and> up_path u' = up_path u \<and> up_meta u' = up_meta u
         | Reached u' w' \<Rightarrow> uploadFrame (up_session u) (up_path u) w w'
              \<and> up_session u' = up_session u \<and> up_path u' = up_path u \<and> up_meta u' = up_meta u
         | Fail status msg w' \<Rightarrow> uploadFrame (up_session u) (up_path u) w w'"
proof -
  have "uploadFrame (up_session u) (up_path u) w (w\<lparr>w_fs := Remove (up_path u) (w_fs w)\<rparr>)"
    by (simp add: uploadFrame_def fsFrame_Remove)
  then show ?thesis
    using assms writeChunk_frame [of srv rd u w]
    by (auto simp: copyStep_def Let_def split: if_splits prod.splits option.splits readErr.splits copyResult.splits)
qed

lemma finishSave_frame:
  assumes "finishSave u w = (res, w')"
  shows "uploadFrame (up_session u) (up_path u) w w'"
  using assms by (auto simp: finishSave_def Let_def uploadFrame_def fsFrame_Remove split: if_splits)

lemma copyLoop_frame:
  "copyLoop srv rds u w = (res, w') \<Longrightarrow> uploadFrame (up_session u) (up_path u) w w'"
proof (induction rds arbitrary: u w)
  case (Cons rd rds)
  show ?case
  proof (cases "copyStep srv rd u w")
    case (Continue u1 w1)
    note fr = copyStep_frame [OF Continue, simplified]
    have "copyLoop srv rds u1 w1 = (res, w')" using Cons.prems Continue by simp
    from Cons.IH [OF this] fr show ?thesis using uploadFrame_trans by metis
  next
    case (Reached u1 w1)
    note fr = copyStep_frame [OF Reached, simplified]
    obtain r2 where "finishSave u1 w1 = (r2, w')" using Cons.prems Reached by (auto split: prod.splits)
    from finishSave_frame [OF this] fr show ?thesis using uploadFrame_trans by metis
  next
    case (Fail st msg w1)
    then show ?thesis using Cons.prems copyStep_frame [OF Fail] by auto
  qed
qed simp

section \<open>What the copy loop computes\<close>

text \<open>
  The meaning of a sequence of reads, without buffers and counters: the bytes that reach the disk, and
  how it ends.
\<close>

datatype bodyEnd = GotEOF | WriteErr | ReadErr | Waiting

fun bodyOutcome :: "bodyRead list \<Rightarrow> string \<times> bodyEnd" where
  "bodyOutcome [] = ([], Waiting)"
| "bodyOutcome (rd # rds) =
     (case rd_Disk rd of
        Some k \<Rightarrow> if rd_Data rd \<noteq> [] then (take k (rd_Data rd), WriteErr)
                  else (case rd_Err rd of
                          None \<Rightarrow> bodyOutcome rds
                        | Some EOF \<Rightarrow> ([], GotEOF)
                        | Some ReadFailed \<Rightarrow> ([], ReadErr))
      | None \<Rightarrow> (case rd_Err rd of
                   None \<Rightarrow> (case bodyOutcome rds of (c, e) \<Rightarrow> (rd_Data rd @ c, e))
                 | Some EOF \<Rightarrow> (rd_Data rd, GotEOF)
                 | Some ReadFailed \<Rightarrow> (rd_Data rd, ReadErr)))"

definition mismatch :: "fileMetadata \<Rightarrow> string \<Rightarrow> bool" where
  "mismatch meta content \<longleftrightarrow>
     meta_Sha256 meta \<noteq> [] \<and> \<not> EqualFold (hexEncode (sha256 content)) (meta_Sha256 meta)"

fun saveResult :: "fileMetadata \<Rightarrow> string \<Rightarrow> string \<times> bodyEnd \<Rightarrow> (nat \<times> string + string) option" where
  "saveResult meta path (c, GotEOF) =
     Some (if mismatch meta c then Inl (StatusUnprocessableEntity, ''Checksum mismatch'') else Inr path)"
| "saveResult meta path (c, WriteErr) = Some (Inl (StatusInternalServerError, ''Write error''))"
| "saveResult meta path (c, ReadErr) = Some (Inl (StatusInternalServerError, ''Read error''))"
| "saveResult meta path (c, Waiting) = None"

fun savedContent :: "fileMetadata \<Rightarrow> string \<times> bodyEnd \<Rightarrow> string option" where
  "savedContent meta (c, e) = (if e = GotEOF \<and> mismatch meta c then None else Some c)"

lemma finishSave_eq:
  "finishSave u w =
     (if mismatch (up_meta u) (up_hashed u)
      then (Inl (StatusUnprocessableEntity, ''Checksum mismatch''), w\<lparr>w_fs := Remove (up_path u) (w_fs w)\<rparr>)
      else (Inr (up_path u), w))"
  by (simp add: finishSave_def mismatch_def Let_def)

lemma writeChunk_ok:
  assumes "writeChunk srv rd u w = (u', w')" "rd_Disk rd = None"
  shows "up_hashed u' = up_hashed u @ rd_Data rd
         \<and> fileAt (w_fs w') (up_path u) = map_option (\<lambda>c. c @ rd_Data rd) (fileAt (w_fs w) (up_path u))"
  using assms by (auto simp: writeChunk_def Let_def fileAt_append split: if_splits)

lemma writeChunk_failed:
  assumes "writeChunk srv rd u w = (u', w')" "rd_Disk rd = Some k"
  shows "fileAt (w_fs w') (up_path u) = map_option (\<lambda>c. c @ take k (rd_Data rd)) (fileAt (w_fs w) (up_path u))"
  using assms by (auto simp: writeChunk_def Let_def fileAt_append split: if_splits)

lemma copyStep_live:
  assumes "\<not> sess_canceled (deref (w_mgr w) (up_session u))"
    and "(if rd_Data rd \<noteq> [] then writeChunk srv rd u w else (u, w)) = (u1, w1)"
  shows "copyStep srv rd u w =
      (if rd_Data rd \<noteq> [] \<and> rd_Disk rd \<noteq> None then Fail StatusInternalServerError ''Write error'' w1
       else case rd_Err rd of None \<Rightarrow> Continue u1 w1 | Some EOF \<Rightarrow> Reached u1 w1
            | Some ReadFailed \<Rightarrow> Fail StatusInternalServerError ''Read error'' w1)"
  using assms by (simp add: copyStep_def IsCanceled_def)

lemma copyLoop_outcome:
  assumes "\<not> sess_canceled (deref (w_mgr w) (up_session u))" "fileAt (w_fs w) (up_path u) = Some (up_hashed u)"
    and "bodyOutcome rds = (c, e)" "copyLoop srv rds u w = (res, w')"
  shows "res = saveResult (up_meta u) (up_path u) (up_hashed u @ c, e)
         \<and> fileAt (w_fs w') (up_path u) = savedContent (up_meta u) (up_hashed u @ c, e)"
  using assms
proof (induction rds arbitrary: u w c)
  case (Cons rd rds)
  obtain u1 w1 where W: "(if rd_Data rd \<noteq> [] then writeChunk srv rd u w else (u, w)) = (u1, w1)" by force
  have fr: "uploadFrame (up_session u) (up_path u) w w1" "up_session u1 = up_session u"
      "up_path u1 = up_path u" "up_meta u1 = up_meta u"
    using W writeChunk_frame [of srv rd u w u1 w1] by (auto split: if_splits)
  note step = copyStep_live [OF Cons.prems(1) W]
  show ?case
  proof (cases "rd_Data rd \<noteq> [] \<and> rd_Disk rd \<noteq> None")
    case True
    then obtain k where k: "rd_Disk rd = Some k" by blast
    have "fileAt (w_fs w1) (up_path u) = Some (up_hashed u @ take k (rd_Data rd))"
      using W True writeChunk_failed [OF _ k, of srv u w u1 w1] Cons.prems(2) by simp
    moreover have "c = take k (rd_Data rd)" "e = WriteErr" using Cons.prems(3) k True by auto
    moreover have "copyStep srv rd u w = Fail StatusInternalServerError ''Write error'' w1"
      using step True by presburger
    then have "res = Some (Inl (StatusInternalServerError, ''Write error''))" "w' = w1"
      using Cons.prems(4) by simp_all
    ultimately show ?thesis by simp
  next
    case False
    have c1: "up_hashed u1 = up_hashed u @ rd_Data rd \<and> fileAt (w_fs w1) (up_path u1) = Some (up_hashed u1)"
    proof (cases "rd_Data rd = []")
      case True
      then show ?thesis using W Cons.prems(2) by simp
    next
      case nonempty: False
      then have "rd_Disk rd = None" using False by blast
      then show ?thesis using W nonempty writeChunk_ok [of srv rd u w u1 w1] Cons.prems(2) fr(3) by simp
    qed
    have step': "copyStep srv rd u w =
        (case rd_Err rd of None \<Rightarrow> Continue u1 w1 | Some EOF \<Rightarrow> Reached u1 w1
         | Some ReadFailed \<Rightarrow> Fail StatusInternalServerError ''Read error'' w1)"
      unfolding step by (rule if_not_P [OF False])
    show ?thesis
    proof (cases "rd_Err rd")
      case None
      have nc1: "\<not> sess_canceled (deref (w_mgr w1) (up_session u1))"
        using Cons.prems(1) fr by (simp add: uploadFrame_def mgrFrame_def sameSession_def)
      obtain c2 where o: "bodyOutcome rds = (c2, e)" "c = rd_Data rd @ c2"
        using Cons.prems(3) None False by (auto split: option.splits prod.splits)
      have "copyLoop srv rds u1 w1 = (res, w')" using Cons.prems(4) step' None by simp
      from Cons.IH [OF nc1 conjunct2 [OF c1] o(1) this] show ?thesis using c1 fr o(2) by simp
    next
      case (Some er)
      show ?thesis
      proof (cases er)
        case EOF
        then have "e = GotEOF" "c = rd_Data rd"
          using Cons.prems(3) Some False by (auto split: option.splits)
        then show ?thesis
          using Cons.prems(4) step' Some EOF c1 fr
          by (auto simp: finishSave_eq fileAt_Remove split: if_splits)
      next
        case ReadFailed
        then have "e = ReadErr" "c = rd_Data rd"
          using Cons.prems(3) Some False by (auto split: option.splits)
        then show ?thesis using Cons.prems(4) step' Some ReadFailed c1 fr by simp
      qed
    qed
  qed
qed (auto simp: assms)

text \<open>A canceled session stops the loop at its next iteration, and the file is removed.\<close>

lemma copyLoop_canceled:
  assumes "sess_canceled (deref (w_mgr w) (up_session u))"
  shows "copyLoop srv (rd # rds) u w
         = (Some (Inl (StatusBadRequest, ''Upload canceled'')), w\<lparr>w_fs := Remove (up_path u) (w_fs w)\<rparr>)"
  using assms by (simp add: copyStep_def IsCanceled_def)

section \<open>Progress\<close>

text \<open>
  The completed files of a session \<open>s\<close> after \<open>n\<close> bytes were received under the identifier \<open>fid\<close>: the
  last call of \<open>UpdateProgress\<close> decides, whatever the pieces were.
\<close>

definition keysAfter :: "uploadSession \<Rightarrow> string \<Rightarrow> nat \<Rightarrow> string set" where
  "keysAfter s fid n =
     (if n = 0 then keys (sess_completedFiles s)
      else case map_of (sess_FilesMetadata s) fid of
             None \<Rightarrow> keys (sess_completedFiles s)
           | Some m \<Rightarrow> if meta_Size m \<le> int n then insert fid (keys (sess_completedFiles s))
                       else keys (sess_completedFiles s) - {fid})"

lemma UpdateProgress_keys:
  assumes "sess_inv s" "0 < n"
  shows "keys (sess_completedFiles (UpdateProgress now fid (int n) s)) = keysAfter s fid n"
proof (cases "map_of (sess_FilesMetadata s) fid")
  case None
  then have "map_of (sess_Progress s) fid = None"
    using assms(1) by (simp add: sess_inv_def map_of_None_iff)
  then show ?thesis using None assms(2) by (simp add: UpdateProgress_unknown keysAfter_def Touch_def)
next
  case (Some m)
  then obtain p where "map_of (sess_Progress s) fid = Some p"
    using assms(1) unfolding sess_inv_def by (metis key_map_of map_of_Some_key)
  from UpdateProgress_known [OF this Some] show ?thesis using Some assms(2) by (simp add: keysAfter_def)
qed

lemma keysAfter_again:
  assumes "keys (sess_completedFiles s) = keysAfter s0 fid k" "sess_FilesMetadata s = sess_FilesMetadata s0" "0 < n"
  shows "keysAfter s fid n = keysAfter s0 fid n"
  using assms by (auto simp: keysAfter_def split: option.splits if_splits)

lemma keysAfter_all:
  assumes sub: "keys (sess_completedFiles s) \<subseteq> keys (sess_FilesMetadata s)" and n: "0 < n"
  shows "keysAfter s fid n = keys (sess_FilesMetadata s) \<longleftrightarrow>
      (\<forall>k m. map_of (sess_FilesMetadata s) k = Some m \<longrightarrow>
          (if k = fid then meta_Size m \<le> int n else k \<in> keys (sess_completedFiles s)))" (is "?L \<longleftrightarrow> ?R")
proof (cases "map_of (sess_FilesMetadata s) fid")
  case None
  then have "?L \<longleftrightarrow> keys (sess_FilesMetadata s) \<subseteq> keys (sess_completedFiles s)"
    using sub n by (auto simp: keysAfter_def)
  also have "\<dots> \<longleftrightarrow> ?R"
  proof
    show "?R" if "keys (sess_FilesMetadata s) \<subseteq> keys (sess_completedFiles s)"
      using that None by (auto dest: map_of_Some_key)
    show "keys (sess_FilesMetadata s) \<subseteq> keys (sess_completedFiles s)" if R: "?R"
    proof
      fix k assume "k \<in> keys (sess_FilesMetadata s)"
      then obtain m where m: "map_of (sess_FilesMetadata s) k = Some m" using key_map_of by metis
      then have "k \<noteq> fid" using None by auto
      then show "k \<in> keys (sess_completedFiles s)" using R m by simp
    qed
  qed
  finally show ?thesis .
next
  case (Some m)
  then have "fid \<in> keys (sess_FilesMetadata s)" by (rule map_of_Some_key)
  then have "?L \<longleftrightarrow> meta_Size m \<le> int n \<and> keys (sess_FilesMetadata s) - {fid} \<subseteq> keys (sess_completedFiles s)"
    using sub n Some by (auto simp: keysAfter_def)
  also have "\<dots> \<longleftrightarrow> ?R"
  proof
    show "?R" if "meta_Size m \<le> int n \<and> keys (sess_FilesMetadata s) - {fid} \<subseteq> keys (sess_completedFiles s)"
      using that Some by (auto dest: map_of_Some_key)
    show "meta_Size m \<le> int n \<and> keys (sess_FilesMetadata s) - {fid} \<subseteq> keys (sess_completedFiles s)" if R: "?R"
    proof
      show "meta_Size m \<le> int n" using R Some by auto
      show "keys (sess_FilesMetadata s) - {fid} \<subseteq> keys (sess_completedFiles s)"
        using R key_map_of [of _ "sess_FilesMetadata s"] by (metis Diff_iff singletonI subsetI)
    qed
  qed
  finally show ?thesis .
qed

definition tracks :: "uploadSession \<Rightarrow> upload \<Rightarrow> world \<Rightarrow> bool" where
  "tracks s0 u w \<longleftrightarrow>
     (let s = deref (w_mgr w) (up_session u) in
        up_session u < length (mgr_heap (w_mgr w)) \<and> sess_inv s \<and> sess_FilesMetadata s = sess_FilesMetadata s0
        \<and> up_written u = int (length (up_hashed u))
        \<and> keys (sess_completedFiles s) = keysAfter s0 (meta_ID (up_meta u)) (length (up_hashed u)))"

lemma writeChunk_tracks:
  assumes tr: "tracks s0 u w" and run: "writeChunk srv rd u w = (u', w')"
    and data: "rd_Data rd \<noteq> []" "rd_Disk rd = None"
    and small: "length (up_hashed u) + length (rd_Data rd) < 2 ^ 63"
  shows "tracks s0 u' w'"
proof -
  let ?n = "length (up_hashed u) + length (rd_Data rd)" and ?a = "up_session u"
  let ?s = "deref (w_mgr w) ?a" and ?fid = "meta_ID (up_meta u)"
  have n: "0 < ?n" using data(1) by simp
  have wr: "wrap64 (up_written u + int (length (rd_Data rd))) = int ?n"
  proof -
    have "int ?n < 2 ^ 63" using small by (metis of_nat_less_numeral_power_cancel_iff)
    then show ?thesis using tr by (simp add: tracks_def Let_def wrap64_id int64_ok_of_bounds)
  qed
  have u': "up_session u' = ?a" "up_meta u' = up_meta u" "up_hashed u' = up_hashed u @ rd_Data rd" "up_written u' = int ?n"
    and m': "w_mgr w' = modify ?a (UpdateProgress (w_now w) ?fid (int ?n)) (w_mgr w)"
    using run data wr by (auto simp: writeChunk_def Let_def)
  have a: "?a < length (mgr_heap (w_mgr w))" and si: "sess_inv ?s" and md: "sess_FilesMetadata ?s = sess_FilesMetadata s0"
    and k: "keys (sess_completedFiles ?s) = keysAfter s0 ?fid (length (up_hashed u))"
    using tr by (simp_all add: tracks_def Let_def)
  have "keys (sess_completedFiles (deref (w_mgr w') ?a)) = keysAfter s0 ?fid ?n"
    using UpdateProgress_keys [OF si n] keysAfter_again [OF k md n] a by (simp add: m' deref_modify)
  then show ?thesis
    using a si md u' by (simp add: tracks_def Let_def m' deref_modify UpdateProgress_inv)
qed

lemma copyLoop_tracks:
  assumes "tracks s0 u w" "\<not> sess_canceled (deref (w_mgr w) (up_session u))"
    and "bodyOutcome rds = (c, GotEOF)" "length (up_hashed u) + length c < 2 ^ 63"
    and "copyLoop srv rds u w = (res, w')"
  shows "keys (sess_completedFiles (deref (w_mgr w') (up_session u)))
         = keysAfter s0 (meta_ID (up_meta u)) (length (up_hashed u) + length c)"
  using assms
proof (induction rds arbitrary: u w c)
  case (Cons rd rds)
  obtain u1 w1 where W: "(if rd_Data rd \<noteq> [] then writeChunk srv rd u w else (u, w)) = (u1, w1)" by force
  have fr: "uploadFrame (up_session u) (up_path u) w w1" "up_session u1 = up_session u" "up_meta u1 = up_meta u"
    using W writeChunk_frame [of srv rd u w u1 w1] by (auto split: if_splits)
  have ok: "\<not> (rd_Data rd \<noteq> [] \<and> rd_Disk rd \<noteq> None)" using Cons.prems(3) by (auto split: option.splits if_splits)
  have step: "copyStep srv rd u w =
        (case rd_Err rd of None \<Rightarrow> Continue u1 w1 | Some EOF \<Rightarrow> Reached u1 w1
         | Some ReadFailed \<Rightarrow> Fail StatusInternalServerError ''Read error'' w1)"
    unfolding copyStep_live [OF Cons.prems(2) W] by (rule if_not_P [OF ok])
  obtain d where d: "c = rd_Data rd @ d" "rd_Err rd = None \<longrightarrow> bodyOutcome rds = (d, GotEOF)"
      "rd_Err rd \<noteq> None \<longrightarrow> d = [] \<and> rd_Err rd = Some EOF"
    using Cons.prems(3) ok by (auto split: option.splits prod.splits readErr.splits if_splits)
  have t1: "tracks s0 u1 w1 \<and> up_hashed u1 = up_hashed u @ rd_Data rd"
  proof (cases "rd_Data rd = []")
    case True
    then show ?thesis using W Cons.prems(1) by simp
  next
    case False
    then have dk: "rd_Disk rd = None" and run: "writeChunk srv rd u w = (u1, w1)" using ok W by auto
    have small: "length (up_hashed u) + length (rd_Data rd) < 2 ^ 63" using Cons.prems(4) d(1) by simp
    from writeChunk_tracks [OF Cons.prems(1) run False dk small] writeChunk_ok [OF run dk] show ?thesis by simp
  qed
  have nc1: "\<not> sess_canceled (deref (w_mgr w1) (up_session u1))"
    using Cons.prems(2) fr by (simp add: uploadFrame_def mgrFrame_def sameSession_def)
  show ?case
  proof (cases "rd_Err rd")
    case None
    have "copyLoop srv rds u1 w1 = (res, w')" using Cons.prems(5) step None by simp
    from Cons.IH [OF conjunct1 [OF t1] nc1 _ _ this, of d] show ?thesis
      using d None t1 fr Cons.prems(4) by (simp add: add.assoc)
  next
    case (Some er)
    then have "rd_Err rd = Some EOF" "d = []" using d(3) by auto
    moreover from this have "w_mgr w' = w_mgr w1"
      using Cons.prems(5) step by (auto simp: finishSave_eq split: if_splits)
    ultimately show ?thesis using t1 d(1) fr by (simp add: tracks_def Let_def)
  qed
qed simp

section \<open>The handler\<close>

lemma mgrFrame_inv:
  assumes inv: "mgr_inv gen (m, n)" and fr: "mgrFrame a m m'"
  shows "mgr_inv gen (m', n)"
proof -
  have same: "mgr_sessions m' = mgr_sessions m" "length (mgr_heap m') = length (mgr_heap m)"
    "\<And>b. b \<noteq> a \<Longrightarrow> deref m' b = deref m b" "sameSession (deref m a) (deref m' a)"
    using fr by (simp_all add: mgrFrame_def)
  have each: "sess_ID (deref m' b) = sess_ID (deref m b) \<and> sess_canceled (deref m' b) = sess_canceled (deref m b)
      \<and> (sess_inv (deref m b) \<longrightarrow> sess_inv (deref m' b))" for b
    using same(3,4) by (cases "b = a") (auto simp: sameSession_def)
  show ?thesis
    using inv each by (simp add: mgr_inv_def same(1,2))
qed

text \<open>After a lookup that hit, the session is registered, live, and in the heap.\<close>

lemma GetSession_hit:
  assumes inv: "mgr_inv gen (m, n)" and get: "GetSession now sid m = (Some a, m1)"
  shows "mgr_inv gen (m1, n)" "map_of (mgr_sessions m) sid = Some a" "map_of (mgr_sessions m1) sid = Some a"
    "a < length (mgr_heap m1)" "sess_ID (deref m1 a) = sid" "\<not> sess_canceled (deref m1 a)"
    "view m sid = Some (deref m a)" "deref m1 a = Touch now (deref m a)" "mgr_timeout m1 = mgr_timeout m"
proof -
  show inv1: "mgr_inv gen (m1, n)" using GetSession_inv [OF inv, of now sid] get by simp
  show reg: "map_of (mgr_sessions m) sid = Some a"
    using get by (auto simp: GetSession_def split: option.splits)
  then have m1: "m1 = modify a (Touch now) m" using get by (simp add: GetSession_def)
  then show reg1: "map_of (mgr_sessions m1) sid = Some a" using reg by simp
  show "a < length (mgr_heap m1)" "sess_ID (deref m1 a) = sid" "\<not> sess_canceled (deref m1 a)"
    using mgr_inv_ptr [OF inv1 reg1] by auto
  show "view m sid = Some (deref m a)" using reg by (simp add: view_def)
  show "deref m1 a = Touch now (deref m a)" using mgr_inv_ptr(1) [OF inv reg] by (simp add: m1 deref_modify)
  show "mgr_timeout m1 = mgr_timeout m" by (simp add: m1)
qed

lemma completeUpload_frame [simp]:
  "w_fs (completeUpload srv a meta p w) = w_fs w" "w_now (completeUpload srv a meta p w) = w_now w"
  "w_uuids (completeUpload srv a meta p w) = w_uuids w"
  by (simp_all add: completeUpload_def Let_def)

lemma completeUpload_mgr:
  "w_mgr (completeUpload srv a meta p w) =
     (if IsCompleted (deref (w_mgr w) a) then DeleteSession (sess_ID (deref (w_mgr w) a)) (w_mgr w) else w_mgr w)"
  by (simp add: completeUpload_def Let_def)

text \<open>
  The three ways the handler goes: it is turned away, it is stuck in the search for a path, or
  it copies the body. In the last case \<open>copied\<close> gives the answer in terms of \<open>bodyOutcome\<close>.
\<close>

definition uploadAnswer ::
  "server \<Rightarrow> nat \<Rightarrow> fileMetadata \<Rightarrow> string \<Rightarrow> (nat \<times> string + string) option \<Rightarrow> world \<Rightarrow> served \<times> world" where
  "uploadAnswer srv a meta path res w =
     (case res of
        None \<Rightarrow> (Blocked, w)
      | Some (Inl (status, msg)) \<Rightarrow> (Responded (httpError msg status), w)
      | Some (Inr _) \<Rightarrow> (Responded (statusOnly StatusOK), completeUpload srv a meta path w))"

lemma saveUploadedFile_eq:
  assumes "getUniquePath (w_fs w) (srv_saveDir srv) (meta_FileName meta) = Some path"
    and "Create (w_fs w) path = Inr fs" "bodyOutcome reads = (c, e)"
    and "\<not> sess_canceled (deref (w_mgr w) a)"
  obtains w' where "saveUploadedFile srv a meta reads w
      = (case saveResult meta path (c, e) of None \<Rightarrow> SaveBlocked | Some res \<Rightarrow> SaveReturned res, w')"
    "copyLoop srv reads (startUpload a meta path) (w\<lparr>w_fs := fs\<rparr>) = (saveResult meta path (c, e), w')"
    "fileAt (w_fs w') path = savedContent meta (c, e)" "uploadFrame a path w w'"
proof -
  obtain res w' where run: "copyLoop srv reads (startUpload a meta path) (w\<lparr>w_fs := fs\<rparr>) = (res, w')" by force
  have "fileAt fs path = Some []" using fileAt_Create [OF assms(2)] by simp
  then have out: "res = saveResult meta path (c, e)" "fileAt (w_fs w') path = savedContent meta (c, e)"
    using copyLoop_outcome [OF _ _ assms(3) run] assms(4) by (simp_all add: startUpload_def)
  have "uploadFrame a path w (w\<lparr>w_fs := fs\<rparr>)" using fsFrame_Create [OF assms(2)] by (simp add: uploadFrame_def)
  then have "uploadFrame a path w w'"
    using copyLoop_frame [OF run] uploadFrame_trans by (fastforce simp: startUpload_def)
  with out run show thesis
    using that [of w'] assms by (auto simp: saveUploadedFile_def split: option.splits)
qed

lemma handleUpload_cases:
  assumes inv: "world_inv gen w" and run: "handleUpload srv r w = (out, w')"
  obtains
    (refused) resp m where "out = Responded resp" "rs_Status resp \<noteq> StatusOK" "w' = w\<lparr>w_mgr := m\<rparr>"
      "mgr_inv gen (m, w_uuids w)" "mgr_sessions m = mgr_sessions (w_mgr w)"
  | (stuck) a meta w1 where "validateUploadRequest srv r w = (Inr (a, meta), w1)" "out = Diverges" "w' = w1"
      "getUniquePath (w_fs w) (srv_saveDir srv) (meta_FileName meta) = None"
  | (copied) a meta w1 path fs c e w2 where
      "rq_Method r = MethodPost" "validateUploadRequest srv r w = (Inr (a, meta), w1)"
      "getUniquePath (w_fs w) (srv_saveDir srv) (meta_FileName meta) = Some path"
      "Create (w_fs w) path = Inr fs" "bodyOutcome (rq_Reads r) = (c, e)"
      "copyLoop srv (rq_Reads r) (startUpload a meta path) (w1\<lparr>w_fs := fs\<rparr>) = (saveResult meta path (c, e), w2)"
      "fileAt (w_fs w2) path = savedContent meta (c, e)" "uploadFrame a path w1 w2"
      "uploadAnswer srv a meta path (saveResult meta path (c, e)) w2 = (out, w')"
proof (cases "rq_Method r = MethodPost")
  case False
  then have res: "out = Responded (httpError ''Method not allowed'' StatusMethodNotAllowed)"
      "w' = w\<lparr>w_mgr := w_mgr w\<rparr>"
    using run by (simp_all add: handleUpload_def)
  show thesis
    by (rule refused [OF res(1) _ res(2)]) (use inv in \<open>simp_all add: http_status world_inv_def\<close>)
next
  case post: True
  let ?m = "snd (GetSession (w_now w) (query r ''sessionId'') (w_mgr w))"
  have frame: "mgr_inv gen (?m, w_uuids w)" "mgr_sessions ?m = mgr_sessions (w_mgr w)"
    using GetSession_inv inv by (auto simp: world_inv_def GetSession_def split: option.splits)
  obtain v w1 where v: "validateUploadRequest srv r w = (v, w1)" by force
  have w1: "w1 = w\<lparr>w_mgr := ?m\<rparr>" using validateUploadRequest_world [of srv r w] v by simp
  show thesis
  proof (cases v)
    case (Inl err)
    obtain st msg where err: "err = (st, msg)" by force
    have "st \<noteq> StatusOK"
      using v Inl err by (auto simp: validateUploadRequest_def Let_def http_status split: prod.splits option.splits if_splits)
    moreover have res: "out = Responded (httpError msg st)" "w' = w\<lparr>w_mgr := ?m\<rparr>"
      using run post v Inl err w1 by (simp_all add: handleUpload_def)
    ultimately show thesis using refused [OF res(1) _ res(2) frame] by simp
  next
    case (Inr am)
    obtain a meta where am: "am = (a, meta)" by force
    note val = v [unfolded Inr am]
    have get: "GetSession (w_now w) (query r ''sessionId'') (w_mgr w) = (Some a, w_mgr w1)"
      using validateUploadRequest_Inr [OF val] by blast
    note hit = GetSession_hit [OF inv [unfolded world_inv_def] get]
    have fs1: "w_fs w1 = w_fs w" by (simp add: w1)
    show thesis
    proof (cases "getUniquePath (w_fs w) (srv_saveDir srv) (meta_FileName meta)")
      case None
      then show thesis using stuck [OF val] run post val fs1 by (simp add: handleUpload_def saveUploadedFile_def)
    next
      case (Some path)
      show thesis
      proof (cases "Create (w_fs w) path")
        case (Inl er)
        then have res: "out = Responded (httpError ''Failed to create file'' StatusInternalServerError)"
            "w' = w\<lparr>w_mgr := ?m\<rparr>"
          using run post val Some fs1 w1 by (simp_all add: handleUpload_def saveUploadedFile_def)
        show thesis by (rule refused [OF res(1) _ res(2) frame]) (simp add: http_status)
      next
        case (Inr fs)
        obtain c e where o: "bodyOutcome (rq_Reads r) = (c, e)" by force
        obtain w2 where sv: "saveUploadedFile srv a meta (rq_Reads r) w1
            = (case saveResult meta path (c, e) of None \<Rightarrow> SaveBlocked | Some res \<Rightarrow> SaveReturned res, w2)"
          and cp: "copyLoop srv (rq_Reads r) (startUpload a meta path) (w1\<lparr>w_fs := fs\<rparr>)
            = (saveResult meta path (c, e), w2)"
          and rest: "fileAt (w_fs w2) path = savedContent meta (c, e)" "uploadFrame a path w1 w2"
          using saveUploadedFile_eq [of w1 srv meta path fs "rq_Reads r" c e a] Some Inr fs1 o hit(6) by metis
        have pth: "saveResult meta path (c, e) = Some (Inr p) \<Longrightarrow> p = path" for p
          by (cases e) (auto split: if_splits)
        have "uploadAnswer srv a meta path (saveResult meta path (c, e)) w2 = (out, w')"
          using run post val sv pth
          by (auto simp: handleUpload_def uploadAnswer_def split: option.splits sum.splits)
        from copied [OF post val Some Inr o cp rest this] show thesis .
      qed
    qed
  qed
qed

end
