(* ===== verification/UploadSafety.thy ===== *)
theory UploadSafety
  imports Upload
begin

text \<open>
  The promises of the \<open>upload\<close> and \<open>cancel\<close> handlers: authorization, confinement to fresh files of the
  save directory, the content that is stored, cancellation, and the end of the session.
\<close>

section \<open>A concrete run\<close>

definition demo_prepared :: world where
  "demo_prepared = snd (handlePrepareUpload demo_uuid demo_srv demo_prepare demo_world)"

definition demo_upload :: httpRequest where
  "demo_upload = demo_rq\<lparr>rq_Method := MethodPost, rq_RawQuery := ''sessionId=u2&fileId=f&token=u0'',
     rq_Reads := [\<lparr>rd_Data = ''xyz'', rd_Err = Some EOF, rd_Disk = None\<rparr>]\<rparr>"

lemma demo_prepared_inv: "world_inv demo_uuid demo_prepared"
  unfolding demo_prepared_def
  by (rule handlePrepareUpload_inv [OF demo_uuid_ok demo_world_ok(1) surjective_pairing])

lemma demo_upload_ok: "fst (handleUpload demo_srv demo_upload demo_prepared) = Responded (statusOnly StatusOK)"
  by code_simp

lemma demo_upload_run:
  "handleUpload demo_srv demo_upload demo_prepared
   = (Responded (statusOnly StatusOK), snd (handleUpload demo_srv demo_upload demo_prepared))"
  using demo_upload_ok by (metis prod.collapse)

lemma demo_upload_query:
  "query demo_upload ''sessionId'' = ''u2''" "query demo_upload ''fileId'' = ''f''" "rq_Method demo_upload = MethodPost"
  by code_simp+

lemma demo_prepared_fs: "w_fs demo_prepared = demo_fs"
  by (simp add: demo_prepared_def handlePrepareUpload_frame) (simp add: demo_world_def)

lemma demo_session:
  "\<exists>s meta. view (w_mgr demo_prepared) ''u2'' = Some s \<and> map_of (sess_FilesMetadata s) ''f'' = Some meta
     \<and> meta_ID meta = ''f'' \<and> meta_Size meta = 3 \<and> keys (sess_FilesMetadata s) = {''f'', ''g''}
     \<and> ''g'' \<in> keys (sess_completedFiles s)
     \<and> (\<forall>k m. map_of (sess_FilesMetadata s) k = Some m \<longrightarrow> k \<noteq> ''f'' \<longrightarrow>
           meta_Size m = 0 \<and> map_of (sess_Progress s) k = Some 0)"
proof -
  have v: "map_option (\<lambda>s. (map (\<lambda>(k, m). (k, meta_ID m, meta_Size m)) (sess_FilesMetadata s), sess_Progress s,
            sess_completedFiles s)) (view (w_mgr demo_prepared) ''u2'')
        = Some ([(''f'', ''f'', 3), (''g'', ''g'', 0)], [(''f'', 0), (''g'', 0)], [(''g'', True)])"
    by code_simp
  then obtain s where s: "view (w_mgr demo_prepared) ''u2'' = Some s"
      "map (\<lambda>(k, m). (k, meta_ID m, meta_Size m)) (sess_FilesMetadata s) = [(''f'', ''f'', 3), (''g'', ''g'', 0)]"
      "sess_Progress s = [(''f'', 0), (''g'', 0)]" "sess_completedFiles s = [(''g'', True)]"
    by auto
  then obtain m1 m2 where "sess_FilesMetadata s = [(''f'', m1), (''g'', m2)]" "meta_ID m1 = ''f''" "meta_Size m1 = 3"
      "meta_Size m2 = 0"
    by (auto simp: map_eq_Cons_conv)
  then show ?thesis using s by (intro exI [of _ s] exI [of _ m1]) auto
qed

section \<open>The end of a session\<close>

lemma upload_after:
  assumes inv: "world_inv gen w" and run: "handleUpload srv r w = (Responded (statusOnly StatusOK), w')"
    and s: "view (w_mgr w) (query r ''sessionId'') = Some s"
    and meta: "map_of (sess_FilesMetadata s) (query r ''fileId'') = Some meta"
    and c: "fst (bodyOutcome (rq_Reads r)) = c" "c \<noteq> []" "length c < 2 ^ 63"
  shows "\<exists>s2. keys (sess_completedFiles s2) = keysAfter s (meta_ID meta) (length c)
     \<and> sess_Files s2 = sess_Files s \<and> sess_FilesMetadata s2 = sess_FilesMetadata s \<and> sess_ClientIP s2 = sess_ClientIP s
     \<and> view (w_mgr w') (query r ''sessionId'')
         = (if keysAfter s (meta_ID meta) (length c) = keys (sess_FilesMetadata s) then None else Some s2)
     \<and> (\<forall>sid. sid \<noteq> query r ''sessionId'' \<longrightarrow> view (w_mgr w') sid = view (w_mgr w) sid)
     \<and> keys (sess_completedFiles s) \<subseteq> keys (sess_FilesMetadata s) \<and> world_inv gen w'"
  using inv run
proof (cases rule: handleUpload_cases)
  case (copied a meta' w1 path fs c' e w2)
  let ?sid = "query r ''sessionId''" and ?n = "length c"
  have mi: "mgr_inv gen (w_mgr w, w_uuids w)" using inv by (simp add: world_inv_def)
  note v = validateUploadRequest_Inr [OF copied(2)]
  note hit = GetSession_hit [OF mi conjunct1 [OF v]]
  let ?s1 = "deref (w_mgr w1) a"
  have s1: "?s1 = Touch (w_now w) s" using hit(7,8) s by simp
  have m': "meta' = meta" using v meta by (auto simp: s1 GetFileTokenAndMeta_def Let_def split: option.splits)
  have e: "e = GotEOF \<and> \<not> mismatch meta c'" "c' = c"
    using copied(5,9) c(1) m' by (cases e; auto simp: uploadAnswer_def http_status httpError_def statusOnly_def split: if_splits)+
  have tr: "tracks s (startUpload a meta path) (w1\<lparr>w_fs := fs\<rparr>)"
    using mgr_inv_heap(1) [OF hit(1,4)] hit(4)
    by (simp add: tracks_def Let_def startUpload_def s1 keysAfter_def)
  have body: "bodyOutcome (rq_Reads r) = (c, GotEOF)" using copied(5) e by simp
  have k: "keys (sess_completedFiles (deref (w_mgr w2) a)) = keysAfter s (meta_ID meta) ?n"
    using copyLoop_tracks [OF tr _ body _ copied(6) [unfolded m']] hit(6) c(3) by (simp add: startUpload_def)
  have fr: "mgrFrame a (w_mgr w1) (w_mgr w2)" using copied(8) by (simp add: uploadFrame_def)
  have inv2: "mgr_inv gen (w_mgr w2, w_uuids w)" by (rule mgrFrame_inv [OF hit(1) fr])
  have reg2: "map_of (mgr_sessions (w_mgr w2)) ?sid = Some a" using fr hit(3) by (simp add: mgrFrame_def)
  note ptr2 = mgr_inv_ptr [OF inv2 reg2]
  have md2: "sess_FilesMetadata (deref (w_mgr w2) a) = sess_FilesMetadata s"
    using fr s1 by (simp add: mgrFrame_def sameSession_def)
  have fin: "w_mgr w' = (if IsCompleted (deref (w_mgr w2) a) then DeleteSession ?sid (w_mgr w2) else w_mgr w2)"
    using copied(9) e m' ptr2(2) by (auto simp: uploadAnswer_def completeUpload_mgr)
  have comp: "IsCompleted (deref (w_mgr w2) a) \<longleftrightarrow> keysAfter s (meta_ID meta) ?n = keys (sess_FilesMetadata s)"
    using completed_iff_keys [OF ptr2(3)] k md2 by simp
  have sub: "keys (sess_completedFiles s) \<subseteq> keys (sess_FilesMetadata s)"
    using mgr_inv_heap(1) [OF hit(1,4)] s1 by (simp add: sess_inv_def)
  have same: "sess_Files (deref (w_mgr w2) a) = sess_Files s" "sess_ClientIP (deref (w_mgr w2) a) = sess_ClientIP s"
    using fr s1 by (simp_all add: mgrFrame_def sameSession_def)
  have "view (w_mgr w') ?sid = (if IsCompleted (deref (w_mgr w2) a) then None else Some (deref (w_mgr w2) a))"
    using fin DeleteSession_view [OF inv2, of ?sid] reg2 by (auto simp: view_def [of "w_mgr w2"])
  moreover have "world_inv gen w'"
    using fin inv2 DeleteSession_inv [OF inv2, of ?sid] copied(8,9) e m' validateUploadRequest_same(4) [OF copied(2)]
    by (auto simp: world_inv_def uploadAnswer_def uploadFrame_def)
  moreover have "view (w_mgr w') sid = view (w_mgr w) sid" if "sid \<noteq> ?sid" for sid
  proof -
    have "view (w_mgr w') sid = view (w_mgr w2) sid"
      using fin DeleteSession_view [OF inv2, of ?sid] that by auto
    also have "\<dots> = view (w_mgr w1) sid"
    proof (cases "map_of (mgr_sessions (w_mgr w1)) sid")
      case None
      then show ?thesis using fr by (simp add: view_def mgrFrame_def)
    next
      case (Some z)
      then have "z \<noteq> a" using mgr_inv_ptr_inj [OF hit(1) hit(3)] that by auto
      then show ?thesis using fr Some by (simp add: view_def mgrFrame_def)
    qed
    also have "\<dots> = view (w_mgr w) sid"
      using GetSession_view [OF mi, of "w_now w" ?sid] v that by auto
    finally show ?thesis .
  qed
  ultimately show ?thesis using comp k md2 same sub by (intro exI [of _ "deref (w_mgr w2) a"]) auto
qed (auto simp: StatusOK_def)

lemma upload_end:
  assumes "world_inv gen w" "handleUpload srv r w = (Responded (statusOnly StatusOK), w')"
    "view (w_mgr w) (query r ''sessionId'') = Some s" "map_of (sess_FilesMetadata s) (query r ''fileId'') = Some meta"
    and c: "fst (bodyOutcome (rq_Reads r)) = c" "c \<noteq> []" "length c < 2 ^ 63"
  shows "(view (w_mgr w') (query r ''sessionId'') = None \<longleftrightarrow>
            (\<forall>k m. map_of (sess_FilesMetadata s) k = Some m \<longrightarrow>
                (if k = meta_ID meta then meta_Size m \<le> int (length c) else k \<in> keys (sess_completedFiles s))))
         \<and> (\<forall>sid. sid \<noteq> query r ''sessionId'' \<longrightarrow> view (w_mgr w') sid = view (w_mgr w) sid)"
proof -
  obtain s2 where s2: "view (w_mgr w') (query r ''sessionId'')
        = (if keysAfter s (meta_ID meta) (length c) = keys (sess_FilesMetadata s) then None else Some s2)"
      "\<forall>sid. sid \<noteq> query r ''sessionId'' \<longrightarrow> view (w_mgr w') sid = view (w_mgr w) sid"
      "keys (sess_completedFiles s) \<subseteq> keys (sess_FilesMetadata s)"
    using upload_after [OF assms] by blast
  then show ?thesis using keysAfter_all [OF s2(3), of "length c" "meta_ID meta"] c(2) by auto
qed

section \<open>Properties\<close>

text \<open>
  C1: a request has an effect (a success, a change of the file system, a
  notification) only when it is a POST that names a session the server knows, carries the token of
  the file it names and comes from the address that opened the session; under strict TLS the
  session is verified and the connection has a client certificate.
\<close>

theorem upload_authorized:
  assumes inv: "world_inv gen w" and run: "handleUpload srv r w = (out, w')"
    and effect: "out = Responded (statusOnly StatusOK) \<or> w_fs w' \<noteq> w_fs w \<or> w_log w' \<noteq> w_log w"
  shows "rq_Method r = MethodPost \<and>
    (\<exists>s. view (w_mgr w) (query r ''sessionId'') = Some s
        \<and> map_of (sess_Files s) (query r ''fileId'') = Some (query r ''token'')
        \<and> sess_ClientIP s = hostOf (rq_RemoteAddr r)
        \<and> (srv_strictTLS srv \<longrightarrow> sess_ClientVerified s \<and> (\<exists>cert rest. rq_TLS r = Some (cert # rest))))"
  using inv run
proof (cases rule: handleUpload_cases)
  case (refused resp m)
  then show ?thesis using effect by auto
next
  case (stuck a meta w1)
  then show ?thesis using effect validateUploadRequest_same [OF stuck(1)] by simp
next
  case (copied a meta w1 path fs c e w2)
  note v = validateUploadRequest_Inr [OF copied(2)]
  note hit = GetSession_hit [OF inv [unfolded world_inv_def] conjunct1 [OF v]]
  let ?s = "deref (w_mgr w) a"
  have tok: "map_of (sess_Files ?s) (query r ''fileId'') = Some (query r ''token'')"
    using v hit(8) by (auto simp: GetFileTokenAndMeta_def Let_def split: option.splits)
  have cert: "snd (checkClientCertificate r) \<Longrightarrow> \<exists>cert rest. rq_TLS r = Some (cert # rest)"
    by (auto simp: checkClientCertificate_def split: option.splits list.splits)
  show ?thesis using copied(1) hit(7,8) tok v cert by auto
qed

theorem upload_authorized_witness:
  "\<exists>s. view (w_mgr demo_prepared) ''u2'' = Some s \<and> sess_ClientIP s = hostOf (rq_RemoteAddr demo_upload)"
  using upload_authorized [OF demo_prepared_inv demo_upload_run] by (auto simp: demo_upload_query)

text \<open>
  C3: whatever is uploaded and however the upload ends, at most one path changes, it
  is a direct child of the save directory, and nothing was there before: no existing file is
  overwritten or removed.
\<close>

theorem upload_confined:
  assumes inv: "world_inv gen w" and dir: "dir_present (w_fs w) (srv_saveDir srv)"
    and run: "handleUpload srv r w = (out, w')"
  shows "w_fs w' = w_fs w \<or>
    (\<exists>n. plain_name n \<and> Stat (w_fs w) (child (srv_saveDir srv) n) = Inl ENOENT
        \<and> (\<forall>q. q \<noteq> child (srv_saveDir srv) n \<longrightarrow> map_of (fs_nodes (w_fs w')) q = map_of (fs_nodes (w_fs w)) q))"
  using inv run
proof (cases rule: handleUpload_cases)
  case (refused resp m)
  then show ?thesis by simp
next
  case (stuck a meta w1)
  then show ?thesis using validateUploadRequest_same [OF stuck(1)] by simp
next
  case (copied a meta w1 path fs c e w2)
  note fs1 = validateUploadRequest_same(1) [OF copied(2)]
  have p: "(\<exists>n. plain_name n \<and> path = child (srv_saveDir srv) n) \<and> Stat (w_fs w) path = Inl ENOENT"
    by (rule unique_path_confined [OF dir copied(3)])
  have "w_fs w' = w_fs w2"
    using copied(9) by (auto simp: uploadAnswer_def split: option.splits sum.splits)
  then have "\<forall>q. q \<noteq> path \<longrightarrow> map_of (fs_nodes (w_fs w')) q = map_of (fs_nodes (w_fs w)) q"
    using copied(8) fs1 by (simp add: uploadFrame_def fsFrame_def)
  then show ?thesis using p by blast
qed

lemma demo_srv_dir: "dir_present (w_fs demo_prepared) (srv_saveDir demo_srv)"
  using demo_dir_present by (simp add: demo_prepared_fs demo_srv_def NewServer_def)

theorem upload_confined_witness:
  "w_fs (snd (handleUpload demo_srv demo_upload demo_prepared)) = w_fs demo_prepared \<or>
   (\<exists>n. plain_name n \<and> Stat demo_fs (child ''/s'' n) = Inl ENOENT)"
  using upload_confined [OF demo_prepared_inv demo_srv_dir demo_upload_run]
  by (auto simp: demo_prepared_fs) (auto simp: demo_srv_def NewServer_def)

text \<open>
  C4: a successful upload leaves, in a fresh file of the save directory, exactly the
  bytes of the body, which have the announced checksum when there is one.
\<close>

theorem upload_stores:
  assumes inv: "world_inv gen w" and dir: "dir_present (w_fs w) (srv_saveDir srv)"
    and run: "handleUpload srv r w = (Responded (statusOnly StatusOK), w')"
  shows "\<exists>s meta c n. view (w_mgr w) (query r ''sessionId'') = Some s
     \<and> map_of (sess_FilesMetadata s) (query r ''fileId'') = Some meta
     \<and> bodyOutcome (rq_Reads r) = (c, GotEOF)
     \<and> plain_name n \<and> Stat (w_fs w) (child (srv_saveDir srv) n) = Inl ENOENT
     \<and> fileAt (w_fs w') (child (srv_saveDir srv) n) = Some c
     \<and> (meta_Sha256 meta \<noteq> [] \<longrightarrow> EqualFold (CalculateFingerprint c) (meta_Sha256 meta))"
  using inv run
proof (cases rule: handleUpload_cases)
  case (copied a meta w1 path fs c e w2)
  note v = validateUploadRequest_Inr [OF copied(2)]
  note hit = GetSession_hit [OF inv [unfolded world_inv_def] conjunct1 [OF v]]
  have m: "map_of (sess_FilesMetadata (deref (w_mgr w) a)) (query r ''fileId'') = Some meta"
    using v hit(8) by (auto simp: GetFileTokenAndMeta_def Let_def split: option.splits)
  have e: "e = GotEOF \<and> \<not> mismatch meta c"
    using copied(9) by (cases e) (auto simp: uploadAnswer_def http_status httpError_def statusOnly_def split: if_splits)
  have "w_fs w' = w_fs w2"
    using copied(9) e by (auto simp: uploadAnswer_def)
  then have "fileAt (w_fs w') path = Some c" using copied(7) e by simp
  then show ?thesis
    using m e hit(7) copied(5) unique_path_confined [OF dir copied(3)]
    by (auto simp: mismatch_def CalculateFingerprint_def)
qed (auto simp: StatusOK_def)

theorem upload_stores_witness:
  "\<exists>n. plain_name n \<and> fileAt (w_fs (snd (handleUpload demo_srv demo_upload demo_prepared))) (child ''/s'' n) = Some ''xyz''"
proof -
  have "bodyOutcome (rq_Reads demo_upload) = (''xyz'', GotEOF)" by (simp add: demo_upload_def)
  then show ?thesis
    using upload_stores [OF demo_prepared_inv demo_srv_dir demo_upload_run]
    by (auto simp: demo_srv_def NewServer_def)
qed

text \<open>
  C5: the buffered copy loop computes what the sequence of reads means: on a session that
  is not canceled, \<open>saveUploadedFile\<close> answers by how the reads end, keeps the bytes that reached the
  disk (after a read or write error too: the partial file stays), removes the file after a checksum
  mismatch, and touches no other path.
\<close>

theorem save_outcome:
  assumes path: "getUniquePath (w_fs w) (srv_saveDir srv) (meta_FileName meta) = Some path"
    and create: "Create (w_fs w) path = Inr fs" and live: "\<not> IsCanceled (deref (w_mgr w) a)"
    and run: "saveUploadedFile srv a meta reads w = (out, w')"
  shows "out = (case saveResult meta path (bodyOutcome reads) of None \<Rightarrow> SaveBlocked | Some res \<Rightarrow> SaveReturned res)
     \<and> fileAt (w_fs w') path = savedContent meta (bodyOutcome reads)
     \<and> (\<forall>q. q \<noteq> path \<longrightarrow> map_of (fs_nodes (w_fs w')) q = map_of (fs_nodes (w_fs w)) q)"
proof -
  obtain c e where o: "bodyOutcome reads = (c, e)" by force
  have "\<not> sess_canceled (deref (w_mgr w) a)" using live by (simp add: IsCanceled_def)
  from saveUploadedFile_eq [OF path create o this] obtain w2 where
    "saveUploadedFile srv a meta reads w
      = (case saveResult meta path (c, e) of None \<Rightarrow> SaveBlocked | Some res \<Rightarrow> SaveReturned res, w2)"
    "fileAt (w_fs w2) path = savedContent meta (c, e)" "uploadFrame a path w w2" by metis
  then show ?thesis using run o by (auto simp: uploadFrame_def fsFrame_def)
qed

theorem save_outcome_witness:
  "\<exists>w'. saveUploadedFile demo_srv 0 (zeroMeta\<lparr>meta_FileName := ''p''\<rparr>)
           [\<lparr>rd_Data = ''ab'', rd_Err = None, rd_Disk = None\<rparr>, \<lparr>rd_Data = ''c'', rd_Err = Some ReadFailed, rd_Disk = None\<rparr>]
           demo_prepared
         = (SaveReturned (Inl (StatusInternalServerError, ''Read error'')), w')
       \<and> fileAt (w_fs w') ''/s/p'' = Some ''abc''"
proof -
  let ?meta = "zeroMeta\<lparr>meta_FileName := ''p''\<rparr>"
  let ?reads = "[\<lparr>rd_Data = ''ab'', rd_Err = None, rd_Disk = None\<rparr>, \<lparr>rd_Data = ''c'', rd_Err = Some ReadFailed, rd_Disk = None\<rparr>]"
  have p: "getUniquePath (w_fs demo_prepared) (srv_saveDir demo_srv) (meta_FileName ?meta) = Some ''/s/p''"
    by code_simp
  obtain fs where c: "Create (w_fs demo_prepared) ''/s/p'' = Inr fs"
    unfolding demo_prepared_fs by (simp add: Create_def path_error_def demo_fs_def)
  have l: "\<not> IsCanceled (deref (w_mgr demo_prepared) 0)" by code_simp
  show ?thesis
    using save_outcome [OF p c l, of ?reads] by (cases "saveUploadedFile demo_srv 0 ?meta ?reads demo_prepared") simp
qed

text \<open>
  C8: once \<open>cancel\<close> was answered for the session of a running upload, the copy
  loop leaves at its next iteration with "Upload canceled", whatever was still to be read, and the
  partial file is gone.
\<close>

theorem cancel_stops_upload:
  assumes inv: "world_inv gen w" and reg: "map_of (mgr_sessions (w_mgr w)) (query r ''sessionId'') = Some (up_session u)"
    and post: "rq_Method r = MethodPost" and run: "copyLoop srv (rd # rds) u (snd (handleCancel r w)) = (res, w')"
  shows "res = Some (Inl (StatusBadRequest, ''Upload canceled'')) \<and> fileAt (w_fs w') (up_path u) = None
         \<and> (\<forall>q. q \<noteq> up_path u \<longrightarrow> map_of (fs_nodes (w_fs w')) q = map_of (fs_nodes (w_fs w)) q)"
proof -
  have "up_session u < length (mgr_heap (w_mgr w))"
    using mgr_inv_ptr(1) [OF inv [unfolded world_inv_def] reg] .
  then have "sess_canceled (deref (w_mgr (snd (handleCancel r w))) (up_session u))"
    using post reg by (simp add: handleCancel_def DeleteSession_def modify_def)
  from copyLoop_canceled [OF this, of srv rd rds] run post show ?thesis
    by (auto simp: handleCancel_def fileAt_Remove nodes_Remove_other)
qed

theorem cancel_stops_upload_witness:
  "fst (copyLoop demo_srv [\<lparr>rd_Data = ''more'', rd_Err = None, rd_Disk = None\<rparr>] (startUpload 0 zeroMeta ''/s/p'')
         (snd (handleCancel (demo_upload\<lparr>rq_RawQuery := ''sessionId=u2''\<rparr>) demo_prepared)))
   = Some (Inl (StatusBadRequest, ''Upload canceled''))"
proof -
  let ?r = "demo_upload\<lparr>rq_RawQuery := ''sessionId=u2''\<rparr>" and ?u = "startUpload 0 zeroMeta ''/s/p''"
  have "map_of (mgr_sessions (w_mgr demo_prepared)) (query ?r ''sessionId'') = Some (up_session ?u)" by code_simp
  moreover have "rq_Method ?r = MethodPost" by (simp add: demo_upload_def)
  ultimately show ?thesis
    using cancel_stops_upload [OF demo_prepared_inv, of ?r ?u, OF _ _ surjective_pairing] by blast
qed

text \<open>
  C9: after a successful upload the session is gone exactly when every file is
  complete, where the received bytes count for the identifier in the metadata (\<open>meta.ID\<close>, not the
  key the client named); no other session changes.
\<close>

theorem upload_ends_session:
  assumes inv: "world_inv gen w" and run: "handleUpload srv r w = (Responded (statusOnly StatusOK), w')"
    and s: "view (w_mgr w) (query r ''sessionId'') = Some s"
    and meta: "map_of (sess_FilesMetadata s) (query r ''fileId'') = Some meta"
    and c: "fst (bodyOutcome (rq_Reads r)) = c" "c \<noteq> []" "length c < 2 ^ 63"
  shows "(view (w_mgr w') (query r ''sessionId'') = None \<longleftrightarrow>
            (\<forall>k m. map_of (sess_FilesMetadata s) k = Some m \<longrightarrow>
                (if k = meta_ID meta then meta_Size m \<le> int (length c) else k \<in> keys (sess_completedFiles s))))
         \<and> (\<forall>sid. sid \<noteq> query r ''sessionId'' \<longrightarrow> view (w_mgr w') sid = view (w_mgr w) sid)"
  by (rule upload_end [OF assms])

theorem upload_ends_session_witness:
  "view (w_mgr (snd (handleUpload demo_srv demo_upload demo_prepared))) ''u2'' = None"
proof -
  obtain s meta where s: "view (w_mgr demo_prepared) (query demo_upload ''sessionId'') = Some s"
      "map_of (sess_FilesMetadata s) (query demo_upload ''fileId'') = Some meta" "meta_ID meta = ''f''" "meta_Size meta = 3"
      "keys (sess_FilesMetadata s) = {''f'', ''g''}" "''g'' \<in> keys (sess_completedFiles s)"
    using demo_session unfolding demo_upload_query by metis
  have c: "fst (bodyOutcome (rq_Reads demo_upload)) = ''xyz''" by (simp add: demo_upload_def)
  have all: "\<forall>k m. map_of (sess_FilesMetadata s) k = Some m \<longrightarrow>
      (if k = meta_ID meta then meta_Size m \<le> int (length ''xyz'') else k \<in> keys (sess_completedFiles s))"
  proof (intro allI impI)
    fix k m assume m: "map_of (sess_FilesMetadata s) k = Some m"
    then have "k = ''f'' \<or> k = ''g''" using s(5) map_of_Some_key [OF m] by simp
    moreover have "k = ''f'' \<Longrightarrow> m = meta" using m s(2) unfolding demo_upload_query by simp
    ultimately show "if k = meta_ID meta then meta_Size m \<le> int (length ''xyz'') else k \<in> keys (sess_completedFiles s)"
      using s(3,4,6) by auto
  qed
  show ?thesis
    using conjunct1 [OF upload_ends_session [OF demo_prepared_inv demo_upload_run s(1,2) c]] all
    unfolding demo_upload_query by simp
qed

text \<open>
  C26: a file of size 0 counts as complete before it is sent. When the one non-empty
  file of a session arrives first, the session is deleted, and every later upload of that session,
  the empty files included, is refused with "Session not found" and stores nothing.
\<close>

theorem empty_files_lost:
  assumes inv: "world_inv gen w" and run: "handleUpload srv r w = (Responded (statusOnly StatusOK), w')"
    and s: "view (w_mgr w) (query r ''sessionId'') = Some s"
    and meta: "map_of (sess_FilesMetadata s) (query r ''fileId'') = Some meta" "meta_ID meta = query r ''fileId''"
    and c: "fst (bodyOutcome (rq_Reads r)) = c" "c \<noteq> []" "length c < 2 ^ 63" "meta_Size meta = int (length c)"
    and others: "\<forall>k m. map_of (sess_FilesMetadata s) k = Some m \<longrightarrow> k \<noteq> query r ''fileId'' \<longrightarrow>
                   meta_Size m = 0 \<and> map_of (sess_Progress s) k = Some 0"
    and later: "rq_Method r' = MethodPost" "query r' ''sessionId'' = query r ''sessionId''"
  shows "fst (handleUpload srv r' w') = Responded (httpError ''Session not found'' StatusBadRequest)
         \<and> w_fs (snd (handleUpload srv r' w')) = w_fs w'"
proof -
  have "sess_inv s"
    using s mgr_inv_ptr(3) [OF inv [unfolded world_inv_def]] by (auto simp: view_def)
  then have "k \<in> keys (sess_completedFiles s)"
    if "map_of (sess_FilesMetadata s) k = Some m" "k \<noteq> query r ''fileId''" for k m
    using others that unfolding sess_inv_def by (metis order_refl)
  then have "view (w_mgr w') (query r ''sessionId'') = None"
    using upload_end [OF inv run s meta(1) c(1-3)] meta c(4) by auto
  then have none: "fst (GetSession (w_now w') (query r' ''sessionId'') (w_mgr w')) = None"
    using later(2) by (simp add: GetSession_def view_def)
  obtain v w1 where v: "validateUploadRequest srv r' w' = (v, w1)" by force
  then show ?thesis
    using validateUploadRequest_unknown [OF none, of srv] validateUploadRequest_same [OF v] later(1)
    by (simp add: handleUpload_def)
qed

theorem empty_files_lost_witness:
  "fst (handleUpload demo_srv (demo_upload\<lparr>rq_RawQuery := ''sessionId=u2&fileId=g&token=u1'', rq_Reads := []\<rparr>)
          (snd (handleUpload demo_srv demo_upload demo_prepared)))
   = Responded (httpError ''Session not found'' StatusBadRequest)"
proof -
  let ?r' = "demo_upload\<lparr>rq_RawQuery := ''sessionId=u2&fileId=g&token=u1'', rq_Reads := []\<rparr>"
  obtain s meta where s: "view (w_mgr demo_prepared) (query demo_upload ''sessionId'') = Some s"
      "map_of (sess_FilesMetadata s) (query demo_upload ''fileId'') = Some meta"
      "meta_ID meta = query demo_upload ''fileId''" "meta_Size meta = 3"
      "\<forall>k m. map_of (sess_FilesMetadata s) k = Some m \<longrightarrow> k \<noteq> query demo_upload ''fileId'' \<longrightarrow>
                   meta_Size m = 0 \<and> map_of (sess_Progress s) k = Some 0"
    using demo_session unfolding demo_upload_query by metis
  have c: "fst (bodyOutcome (rq_Reads demo_upload)) = ''xyz''" by (simp add: demo_upload_def)
  have r': "rq_Method ?r' = MethodPost" "query ?r' ''sessionId'' = query demo_upload ''sessionId''"
    by code_simp+
  show ?thesis
    using empty_files_lost [OF demo_prepared_inv demo_upload_run s(1-3) c _ _ _ s(5) r'] s(4) by simp
qed

end
