(* ===== verification/System.thy ===== *)
theory System
  imports UploadSafety
begin

text \<open>
  The receiving server under concurrency. \<open>net/http\<close> runs every request in a goroutine of its own, so
  the atomic pieces of the handlers interleave: a state is the world together with the requests in
  progress, a step lets one of them advance, or the clock, or the cleanup loop. The invariants are
  proved for every reachable state; two races of the code are exhibited as reachable states.
\<close>

section \<open>States and steps\<close>

text \<open>
  A \<open>prepare-upload\<close> past the busy check that waits for the user; an upload that has chosen its path
  and not yet created the file; an upload inside the copy loop.
\<close>

datatype task =
    Preparing httpRequest "prepareUploadRequest \<times> string \<times> bool"
  | Opening nat fileMetadata string
  | Copying upload

record sys =
  sys_world :: world
  sys_tasks :: "task list"

definition without :: "nat \<Rightarrow> 'a list \<Rightarrow> 'a list" where
  "without i xs = take i xs @ drop (Suc i) xs"

inductive sys_step :: "(nat \<Rightarrow> string) \<Rightarrow> server \<Rightarrow> sys \<Rightarrow> sys \<Rightarrow> bool"
  for gen :: "nat \<Rightarrow> string" and srv :: server
where
  tick: "w_now w \<le> t \<Longrightarrow> sys_step gen srv \<lparr>sys_world = w, sys_tasks = ts\<rparr> \<lparr>sys_world = w\<lparr>w_now := t\<rparr>, sys_tasks = ts\<rparr>"
| sweep: "sys_step gen srv \<lparr>sys_world = w, sys_tasks = ts\<rparr>
    \<lparr>sys_world = w\<lparr>w_mgr := cleanupRange (w_now w) (mgr_sessions (w_mgr w)) (w_mgr w)\<rparr>, sys_tasks = ts\<rparr>"
| register: "handleRegister srv r w = (resp, w') \<Longrightarrow>
    sys_step gen srv \<lparr>sys_world = w, sys_tasks = ts\<rparr> \<lparr>sys_world = w', sys_tasks = ts\<rparr>"
| cancel: "handleCancel r w = (resp, w') \<Longrightarrow>
    sys_step gen srv \<lparr>sys_world = w, sys_tasks = ts\<rparr> \<lparr>sys_world = w', sys_tasks = ts\<rparr>"
| prepare: "prepareGuards srv r w = Inr p \<Longrightarrow>
    sys_step gen srv \<lparr>sys_world = w, sys_tasks = ts\<rparr> \<lparr>sys_world = w, sys_tasks = ts @ [Preparing r p]\<rparr>"
| commit: "i < length ts \<Longrightarrow> ts ! i = Preparing r p \<Longrightarrow> prepareCommit gen srv r p w = (resp, w') \<Longrightarrow>
    sys_step gen srv \<lparr>sys_world = w, sys_tasks = ts\<rparr> \<lparr>sys_world = w', sys_tasks = without i ts\<rparr>"
| deny: "validateUploadRequest srv r w = (Inl err, w') \<Longrightarrow>
    sys_step gen srv \<lparr>sys_world = w, sys_tasks = ts\<rparr> \<lparr>sys_world = w', sys_tasks = ts\<rparr>"
| choose: "rq_Method r = MethodPost \<Longrightarrow> validateUploadRequest srv r w = (Inr (a, meta), w') \<Longrightarrow>
    getUniquePath (w_fs w') (srv_saveDir srv) (meta_FileName meta) = Some path \<Longrightarrow>
    sys_step gen srv \<lparr>sys_world = w, sys_tasks = ts\<rparr> \<lparr>sys_world = w', sys_tasks = ts @ [Opening a meta path]\<rparr>"
| create: "i < length ts \<Longrightarrow> ts ! i = Opening a meta path \<Longrightarrow> Create (w_fs w) path = Inr fs \<Longrightarrow>
    sys_step gen srv \<lparr>sys_world = w, sys_tasks = ts\<rparr>
      \<lparr>sys_world = w\<lparr>w_fs := fs\<rparr>, sys_tasks = ts[i := Copying (startUpload a meta path)]\<rparr>"
| create_failed: "i < length ts \<Longrightarrow> ts ! i = Opening a meta path \<Longrightarrow> Create (w_fs w) path = Inl err \<Longrightarrow>
    sys_step gen srv \<lparr>sys_world = w, sys_tasks = ts\<rparr> \<lparr>sys_world = w, sys_tasks = without i ts\<rparr>"
| copy: "i < length ts \<Longrightarrow> ts ! i = Copying u \<Longrightarrow> copyStep srv rd u w = Continue u' w' \<Longrightarrow>
    sys_step gen srv \<lparr>sys_world = w, sys_tasks = ts\<rparr> \<lparr>sys_world = w', sys_tasks = ts[i := Copying u']\<rparr>"
| abort: "i < length ts \<Longrightarrow> ts ! i = Copying u \<Longrightarrow> copyStep srv rd u w = Fail status msg w' \<Longrightarrow>
    sys_step gen srv \<lparr>sys_world = w, sys_tasks = ts\<rparr> \<lparr>sys_world = w', sys_tasks = without i ts\<rparr>"
| reject: "i < length ts \<Longrightarrow> ts ! i = Copying u \<Longrightarrow> copyStep srv rd u w = Reached u' w' \<Longrightarrow>
    finishSave u' w' = (Inl err, w'') \<Longrightarrow>
    sys_step gen srv \<lparr>sys_world = w, sys_tasks = ts\<rparr> \<lparr>sys_world = w'', sys_tasks = without i ts\<rparr>"
| finish: "i < length ts \<Longrightarrow> ts ! i = Copying u \<Longrightarrow> copyStep srv rd u w = Reached u' w' \<Longrightarrow>
    finishSave u' w' = (Inr path, w'') \<Longrightarrow>
    sys_step gen srv \<lparr>sys_world = w, sys_tasks = ts\<rparr>
      \<lparr>sys_world = completeUpload srv (up_session u') (up_meta u') path w'', sys_tasks = without i ts\<rparr>"

inductive sys_reach :: "(nat \<Rightarrow> string) \<Rightarrow> server \<Rightarrow> sys \<Rightarrow> sys \<Rightarrow> bool"
  for gen :: "nat \<Rightarrow> string" and srv :: server
where
  here: "sys_reach gen srv s s"
| more: "sys_reach gen srv s s' \<Longrightarrow> sys_step gen srv s' s'' \<Longrightarrow> sys_reach gen srv s s''"

lemma set_without: "set (without i xs) \<subseteq> set xs"
  using set_take_subset [of i xs] set_drop_subset [of "Suc i" xs] by (auto simp: without_def)

section \<open>Invariant\<close>

text \<open>
  Relative to the file system \<open>fs0\<close> the server started on: its entries are all still there, every new
  one is a direct child of the save directory, and the path of a running upload is not an entry
  of \<open>fs0\<close>.
\<close>

definition fs_inv :: "fsys \<Rightarrow> string \<Rightarrow> fsys \<Rightarrow> bool" where
  "fs_inv fs0 dir fs \<longleftrightarrow>
     fs_refuse fs = fs_refuse fs0
     \<and> (\<forall>p n. map_of (fs_nodes fs0) p = Some n \<longrightarrow> map_of (fs_nodes fs) p = Some n)
     \<and> (\<forall>p. map_of (fs_nodes fs) p \<noteq> None \<longrightarrow> map_of (fs_nodes fs0) p = None \<longrightarrow> (\<exists>n. plain_name n \<and> p = child dir n))"

fun task_ok :: "fsys \<Rightarrow> string \<Rightarrow> sessionManager \<Rightarrow> task \<Rightarrow> bool" where
  "task_ok fs0 dir m (Preparing r (req, fp, hasCert)) = gomap_wf (pureq_Files req)"
| "task_ok fs0 dir m (Opening a meta path) \<longleftrightarrow>
     a < length (mgr_heap m) \<and> (\<exists>n. plain_name n \<and> path = child dir n)
     \<and> (path_error fs0 path = None \<longrightarrow> map_of (fs_nodes fs0) path = None)"
| "task_ok fs0 dir m (Copying u) \<longleftrightarrow>
     up_session u < length (mgr_heap m) \<and> (\<exists>n. plain_name n \<and> up_path u = child dir n)
     \<and> map_of (fs_nodes fs0) (up_path u) = None"

definition sys_inv :: "(nat \<Rightarrow> string) \<Rightarrow> fsys \<Rightarrow> string \<Rightarrow> sys \<Rightarrow> bool" where
  "sys_inv gen fs0 dir s \<longleftrightarrow>
     world_inv gen (sys_world s) \<and> fs_inv fs0 dir (w_fs (sys_world s))
     \<and> (\<forall>t \<in> set (sys_tasks s). task_ok fs0 dir (w_mgr (sys_world s)) t)"

lemma task_ok_mono: "task_ok fs0 dir m t \<Longrightarrow> length (mgr_heap m) \<le> length (mgr_heap m') \<Longrightarrow> task_ok fs0 dir m' t"
  by (cases t) auto

lemma tasks_mono:
  "\<forall>t \<in> set ts. task_ok fs0 dir m t \<Longrightarrow> length (mgr_heap m) \<le> length (mgr_heap m')
   \<Longrightarrow> set ts' \<subseteq> set ts \<Longrightarrow> \<forall>t \<in> set ts'. task_ok fs0 dir m' t"
  using task_ok_mono by blast

lemma fs_inv_frame:
  assumes "fs_inv fs0 dir fs" "fsFrame path fs fs'" "plain_name n" "path = child dir n" "map_of (fs_nodes fs0) path = None"
  shows "fs_inv fs0 dir fs'"
  unfolding fs_inv_def
proof (intro conjI allI impI)
  show "fs_refuse fs' = fs_refuse fs0" using assms(1,2) by (simp add: fs_inv_def fsFrame_def)
  fix p nd assume p: "map_of (fs_nodes fs0) p = Some nd"
  then have "p \<noteq> path" using assms(5) by auto
  then show "map_of (fs_nodes fs') p = Some nd" using assms(1,2) p by (simp add: fs_inv_def fsFrame_def)
next
  fix p assume "map_of (fs_nodes fs') p \<noteq> None" "map_of (fs_nodes fs0) p = None"
  then show "\<exists>n. plain_name n \<and> p = child dir n"
    using assms by (cases "p = path") (auto simp: fs_inv_def fsFrame_def)
qed

lemma statNotExist_mono:
  assumes "fs_inv fs0 dir fs" "\<not> statNotExist fs0 p"
  shows "\<not> statNotExist fs p"
proof -
  have pe: "path_error fs p = path_error fs0 p" using assms(1) by (intro path_error_cong) (simp add: fs_inv_def)
  show ?thesis
  proof (cases "path_error fs0 p")
    case None
    then obtain nd where nd: "map_of (fs_nodes fs0) p = Some nd"
      using assms(2) by (auto simp: statNotExist_def Stat_def IsNotExist_def split: option.splits)
    have "map_of (fs_nodes fs) p = Some nd" using assms(1) nd unfolding fs_inv_def by blast
    then have "Stat fs p = Inr nd" using None pe by (simp add: Stat_def)
    then show ?thesis by (simp add: statNotExist_def)
  next
    case (Some e)
    have "Stat fs p = Inl e" "Stat fs0 p = Inl e" using Some pe by (simp_all add: Stat_def)
    then show ?thesis using assms(2) by (simp add: statNotExist_def)
  qed
qed

lemma dir_present_mono: "fs_inv fs0 dir fs \<Longrightarrow> dir_present fs0 d \<Longrightarrow> dir_present fs d"
  using statNotExist_mono unfolding dir_present_def by blast

text \<open>A chosen path is acceptable for a task.\<close>

lemma chosen_path_ok:
  assumes inv: "fs_inv fs0 dir fs" and dir: "dir_present fs0 dir" and ret: "getUniquePath fs dir name = Some path"
  shows "(\<exists>n. plain_name n \<and> path = child dir n) \<and> (path_error fs0 path = None \<longrightarrow> map_of (fs_nodes fs0) path = None)"
proof -
  note res = unique_path_confined [OF dir_present_mono [OF inv dir] ret]
  have "statNotExist fs path" using res by (simp add: statNotExist_def IsNotExist_def)
  then have "statNotExist fs0 path" using statNotExist_mono [OF inv] by blast
  then have "path_error fs0 path = None \<longrightarrow> map_of (fs_nodes fs0) path = None"
    by (auto simp: statNotExist_def Stat_def IsNotExist_def split: option.splits)
  then show ?thesis using res by blast
qed

lemma DeleteSession_heap [simp]: "length (mgr_heap (DeleteSession sid m)) = length (mgr_heap m)"
  by (simp add: DeleteSession_def modify_def split: option.splits)

lemma cleanupRange_heap [simp]: "length (mgr_heap (cleanupRange now es m)) = length (mgr_heap m)"
  by (induction now es m rule: cleanupRange.induct) auto

lemma GetSession_heap [simp]: "length (mgr_heap (snd (GetSession now sid m))) = length (mgr_heap m)"
  by (simp add: GetSession_def split: option.splits)

lemma task_update: "\<forall>t \<in> set ts. P t \<Longrightarrow> P t' \<Longrightarrow> \<forall>t \<in> set (ts[i := t']). P t"
  using set_update_subset_insert by fastforce

lemma prepareCommit_inv:
  assumes uuid: "uuid_ok gen" and inv: "world_inv gen w" and wf: "gomap_wf (pureq_Files req)"
    and run: "prepareCommit gen srv r (req, fp, hasCert) w = (resp, w')"
  shows "world_inv gen w' \<and> w_fs w' = w_fs w \<and> length (mgr_heap (w_mgr w)) \<le> length (mgr_heap (w_mgr w'))"
  using run
proof (cases rule: prepareCommit_cases)
  case rejected
  then show ?thesis using inv by simp
next
  case (opened files a m n)
  have "gomap_wf files" using filterAcceptedFiles_Some [OF opened(1)] wf by blast
  then have "mgr_inv gen (m, n)" using CreateSession_inv [OF uuid _ _ opened(2)] inv by (simp add: world_inv_def)
  moreover have "length (mgr_heap (w_mgr w)) \<le> length (mgr_heap m)"
    using opened(2) by (auto simp: CreateSession_def Let_def split: prod.splits)
  ultimately show ?thesis using opened(4) by (simp add: world_inv_def)
qed

lemma prepareCommit_opened:
  assumes uuid: "uuid_ok gen" and inv: "world_inv gen w"
    and run: "prepareCommit gen srv r (req, fp, hasCert) w = (resp, w')" and ok: "rs_Status resp = StatusOK"
  shows "\<exists>sid s. view (w_mgr w) sid = None \<and> view (w_mgr w') = (view (w_mgr w))(sid \<mapsto> s)"
  using run
proof (cases rule: prepareCommit_cases)
  case rejected
  then show ?thesis using ok by (simp add: http_status)
next
  case (opened files a m n)
  have mi: "mgr_inv gen (w_mgr w, w_uuids w)" using inv by (simp add: world_inv_def)
  show ?thesis
    using CreateSession_fresh [OF uuid mi opened(2)] CreateSession_view(1) [OF mi opened(2)] opened(4) by auto
qed

text \<open>A world that only changed as an upload may change it.\<close>

lemma uploadFrame_sys:
  assumes fr: "uploadFrame a path w w'" and inv: "world_inv gen w" "fs_inv fs0 dir (w_fs w)"
    and ok: "task_ok fs0 dir (w_mgr w) (Copying u)" "up_path u = path"
  shows "world_inv gen w' \<and> fs_inv fs0 dir (w_fs w') \<and> length (mgr_heap (w_mgr w')) = length (mgr_heap (w_mgr w))"
proof -
  have m: "mgrFrame a (w_mgr w) (w_mgr w')" and f: "fsFrame path (w_fs w) (w_fs w')" and n: "w_uuids w' = w_uuids w"
    using fr by (simp_all add: uploadFrame_def)
  have "world_inv gen w'" using mgrFrame_inv [OF inv(1) [unfolded world_inv_def] m] n by (simp add: world_inv_def)
  moreover have "fs_inv fs0 dir (w_fs w')" using fs_inv_frame [OF inv(2) f] ok by auto
  ultimately show ?thesis using m by (simp add: mgrFrame_def)
qed

lemma completeUpload_inv: "world_inv gen w \<Longrightarrow> world_inv gen (completeUpload srv a meta p w)"
  by (simp add: world_inv_def completeUpload_mgr DeleteSession_inv)

lemma completeUpload_heap [simp]: "length (mgr_heap (w_mgr (completeUpload srv a meta p w))) = length (mgr_heap (w_mgr w))"
  by (simp add: completeUpload_mgr)

lemma copying_progress_ok:
  "task_ok fs0 dir m (Copying u) \<Longrightarrow> up_session u' = up_session u \<Longrightarrow> up_path u' = up_path u
   \<Longrightarrow> length (mgr_heap m') = length (mgr_heap m) \<Longrightarrow> task_ok fs0 dir m' (Copying u')"
  by simp

lemma sys_invI:
  assumes "world_inv gen w" "fs_inv fs0 dir (w_fs w)" "\<forall>t \<in> set ts. task_ok fs0 dir (w_mgr w) t"
  shows "sys_inv gen fs0 dir \<lparr>sys_world = w, sys_tasks = ts\<rparr>"
  using assms by (simp add: sys_inv_def)

text \<open>The steps that read or only touch the manager, and those of a copy loop.\<close>

lemma sys_inv_mgr:
  assumes inv: "sys_inv gen fs0 dir \<lparr>sys_world = w, sys_tasks = ts\<rparr>"
    and w': "world_inv gen w'" "w_fs w' = w_fs w" "length (mgr_heap (w_mgr w)) \<le> length (mgr_heap (w_mgr w'))"
    and ts': "\<forall>t \<in> set ts'. t \<in> set ts \<or> task_ok fs0 dir (w_mgr w') t"
  shows "sys_inv gen fs0 dir \<lparr>sys_world = w', sys_tasks = ts'\<rparr>"
proof -
  have old: "task_ok fs0 dir (w_mgr w') t" if "t \<in> set ts" for t
    using inv that by (intro task_ok_mono [OF _ w'(3)]) (simp add: sys_inv_def)
  have "\<forall>t \<in> set ts'. task_ok fs0 dir (w_mgr w') t" using ts' old by blast
  then show ?thesis using inv w' by (simp add: sys_inv_def)
qed

lemma sys_inv_copy:
  assumes inv: "sys_inv gen fs0 dir \<lparr>sys_world = w, sys_tasks = ts\<rparr>"
    and u: "Copying u \<in> set ts" and fr: "uploadFrame (up_session u) (up_path u) w w'"
    and u': "up_session u' = up_session u" "up_path u' = up_path u"
    and ts': "set ts' \<subseteq> insert (Copying u') (set ts)"
  shows "sys_inv gen fs0 dir \<lparr>sys_world = w', sys_tasks = ts'\<rparr>"
proof -
  have ok: "\<forall>t \<in> set ts. task_ok fs0 dir (w_mgr w) t" and wi: "world_inv gen w" and fi: "fs_inv fs0 dir (w_fs w)"
    using inv by (simp_all add: sys_inv_def)
  have uok: "task_ok fs0 dir (w_mgr w) (Copying u)" using ok u by blast
  note new = uploadFrame_sys [OF fr wi fi uok refl]
  have "task_ok fs0 dir (w_mgr w') (Copying u')"
    using copying_progress_ok [OF uok u'] new by blast
  moreover have "task_ok fs0 dir (w_mgr w') t" if "t \<in> set ts" for t
    by (rule task_ok_mono [OF bspec [OF ok that]]) (use new in simp)
  ultimately have "\<forall>t \<in> set ts'. task_ok fs0 dir (w_mgr w') t"
    using ts' by blast
  then show ?thesis using new by (simp add: sys_inv_def)
qed

lemma validate_frame:
  assumes "validateUploadRequest srv r w = (v, w')" "world_inv gen w"
  shows "world_inv gen w'" "w_fs w' = w_fs w" "length (mgr_heap (w_mgr w')) = length (mgr_heap (w_mgr w))"
  using validateUploadRequest_world [of srv r w] assms by (simp_all add: world_inv_def GetSession_inv)

lemma sys_inv_step:
  assumes step: "sys_step gen srv s s'" and uuid: "uuid_ok gen" and dir: "dir_present fs0 (srv_saveDir srv)"
    and inv: "sys_inv gen fs0 (srv_saveDir srv) s"
  shows "sys_inv gen fs0 (srv_saveDir srv) s'"
  using step inv
proof (cases rule: sys_step.cases)
  case (tick w t ts)
  then show ?thesis using sys_inv_mgr [OF inv [unfolded tick(1)], of "w\<lparr>w_now := t\<rparr>" ts] inv
    by (simp add: sys_inv_def world_inv_def)
next
  case (sweep w ts)
  then show ?thesis
    using sys_inv_mgr [OF inv [unfolded sweep(1)],
        of "w\<lparr>w_mgr := cleanupRange (w_now w) (mgr_sessions (w_mgr w)) (w_mgr w)\<rparr>" ts] inv
    by (simp add: sys_inv_def world_inv_def cleanupRange_inv)
next
  case (register r w resp w' ts)
  have "w_mgr w' = w_mgr w \<and> w_fs w' = w_fs w \<and> w_uuids w' = w_uuids w"
    using register(3) by (auto simp: handleRegister_def Let_def split: if_splits option.splits)
  then show ?thesis
    using sys_inv_mgr [OF inv [unfolded register(1)], of w' ts] inv register(1,2) by (simp add: sys_inv_def world_inv_def)
next
  case (cancel r w resp w' ts)
  have "world_inv gen w" using inv cancel(1) by (simp add: sys_inv_def)
  then have "world_inv gen w' \<and> w_fs w' = w_fs w \<and> length (mgr_heap (w_mgr w')) = length (mgr_heap (w_mgr w))"
    using cancel(3) by (auto simp: handleCancel_def world_inv_def DeleteSession_inv split: if_splits)
  then show ?thesis using sys_inv_mgr [OF inv [unfolded cancel(1)], of w' ts] cancel(2) by simp
next
  case (prepare r w p ts)
  obtain req fp hc where p: "p = (req, fp, hc)" by (cases p) auto
  have "gomap_wf (pureq_Files req)"
    using prepareGuards_Inr [OF prepare(3) [unfolded p]] by (auto simp: bind_eq_Some_conv intro: decodePrepareUpload_wf)
  then show ?thesis using sys_inv_mgr [OF inv [unfolded prepare(1)], of w "ts @ [Preparing r p]"] inv prepare(1,2) p
    by (simp add: sys_inv_def)
next
  case (commit i ts r p w resp w')
  obtain req fp hc where p: "p = (req, fp, hc)" by (cases p) auto
  have "Preparing r p \<in> set ts" using commit(3,4) by (metis nth_mem)
  then have "gomap_wf (pureq_Files req)" using inv commit(1) p by (fastforce simp: sys_inv_def)
  then show ?thesis
    using prepareCommit_inv [OF uuid _ _ commit(5) [unfolded p]] inv commit(1,2)
      sys_inv_mgr [OF inv [unfolded commit(1)], of w' "without i ts"] set_without [of i ts]
    by (auto simp: sys_inv_def)
next
  case (deny r w err w' ts)
  have "world_inv gen w" using inv deny(1) by (simp add: sys_inv_def)
  note fr = validate_frame [OF deny(3) this]
  show ?thesis
    unfolding deny(2) by (rule sys_inv_mgr [OF inv [unfolded deny(1)] fr(1,2)]) (use fr(3) in auto)
next
  case (choose r w a meta w' path ts)
  have wi: "world_inv gen w" and fi: "fs_inv fs0 (srv_saveDir srv) (w_fs w)" using inv choose(1) by (simp_all add: sys_inv_def)
  note fr = validate_frame [OF choose(4) wi]
  have "GetSession (w_now w) (query r ''sessionId'') (w_mgr w) = (Some a, w_mgr w')"
    using validateUploadRequest_Inr [OF choose(4)] by blast
  from GetSession_hit(4) [OF wi [unfolded world_inv_def] this]
  have "task_ok fs0 (srv_saveDir srv) (w_mgr w') (Opening a meta path)"
    using chosen_path_ok [OF fi dir] choose(5) fr by simp
  then show ?thesis
    using sys_inv_mgr [OF inv [unfolded choose(1)], of w' "ts @ [Opening a meta path]"] fr choose(2) by simp
next
  case (create i ts a meta path w fs)
  have ok: "task_ok fs0 (srv_saveDir srv) (w_mgr w) (Opening a meta path)"
    using inv create(1,3,4) by (metis nth_mem sys.simps(1,2) sys_inv_def)
  have wi: "world_inv gen w" and fi: "fs_inv fs0 (srv_saveDir srv) (w_fs w)" using inv create(1) by (simp_all add: sys_inv_def)
  have "path_error (w_fs w) path = None" using create(5) by (auto simp: Create_def split: option.splits)
  moreover have "path_error (w_fs w) path = path_error fs0 path"
    using fi by (intro path_error_cong) (simp add: fs_inv_def)
  ultimately have new: "map_of (fs_nodes fs0) path = None" using ok by simp
  have "fs_inv fs0 (srv_saveDir srv) fs"
    using fs_inv_frame [OF fi fsFrame_Create [OF create(5)]] ok new by auto
  moreover have "task_ok fs0 (srv_saveDir srv) (w_mgr w) (Copying (startUpload a meta path))"
    using ok new by (simp add: startUpload_def)
  moreover have "\<forall>t \<in> set ts. task_ok fs0 (srv_saveDir srv) (w_mgr w) t" using inv create(1) by (simp add: sys_inv_def)
  ultimately have "fs_inv fs0 (srv_saveDir srv) fs"
      "\<forall>t \<in> set (ts[i := Copying (startUpload a meta path)]). task_ok fs0 (srv_saveDir srv) (w_mgr w) t"
    using task_update [of ts "task_ok fs0 (srv_saveDir srv) (w_mgr w)"] by blast+
  then show ?thesis unfolding create(2) using wi by (intro sys_invI) (simp_all add: world_inv_def)
next
  case (create_failed i ts a meta path w err)
  then show ?thesis using sys_inv_mgr [OF inv [unfolded create_failed(1)], of w "without i ts"] inv set_without [of i ts]
    by (auto simp: sys_inv_def)
next
  case (copy i ts u rd w u' w')
  have "Copying u \<in> set ts" using copy(3,4) by (metis nth_mem)
  moreover note copyStep_frame [OF copy(5), simplified]
  moreover have "set (ts[i := Copying u']) \<subseteq> insert (Copying u') (set ts)" by (rule set_update_subset_insert)
  ultimately show ?thesis using sys_inv_copy [OF inv [unfolded copy(1)]] copy(2) by blast
next
  case (abort i ts u rd w status msg w')
  have "Copying u \<in> set ts" using abort(3,4) by (metis nth_mem)
  moreover have "uploadFrame (up_session u) (up_path u) w w'" using copyStep_frame [OF abort(5)] by simp
  ultimately show ?thesis
    using sys_inv_copy [OF inv [unfolded abort(1)] _ _ refl refl, of u w' "without i ts"] abort(2) set_without [of i ts] by blast
next
  case (reject i ts u rd w u' w' err w'')
  have "Copying u \<in> set ts" using reject(3,4) by (metis nth_mem)
  moreover have "uploadFrame (up_session u) (up_path u) w w''"
    using copyStep_frame [OF reject(5)] finishSave_frame [OF reject(6)] uploadFrame_trans by auto
  ultimately show ?thesis
    using sys_inv_copy [OF inv [unfolded reject(1)] _ _ refl refl, of u w'' "without i ts"] reject(2) set_without [of i ts] by blast
next
  case (finish i ts u rd w u' w' path w'')
  have "Copying u \<in> set ts" using finish(3,4) by (metis nth_mem)
  moreover have "uploadFrame (up_session u) (up_path u) w w''"
    using copyStep_frame [OF finish(5)] finishSave_frame [OF finish(6)] uploadFrame_trans by auto
  ultimately have "sys_inv gen fs0 (srv_saveDir srv) \<lparr>sys_world = w'', sys_tasks = without i ts\<rparr>"
    using sys_inv_copy [OF inv [unfolded finish(1)] _ _ refl refl, of u w'' "without i ts"] set_without [of i ts] by blast
  then show ?thesis
    using sys_inv_mgr [of gen fs0 "srv_saveDir srv" w'' "without i ts"
        "completeUpload srv (up_session u') (up_meta u') path w''" "without i ts"] finish(2)
      completeUpload_inv [of gen w''] by (simp add: sys_inv_def)
qed

lemma sys_inv_reach:
  assumes "sys_reach gen srv s s'" "uuid_ok gen" "dir_present fs0 (srv_saveDir srv)"
    and "sys_inv gen fs0 (srv_saveDir srv) s"
  shows "sys_inv gen fs0 (srv_saveDir srv) s'"
  using assms
proof (induction rule: sys_reach.induct)
  case (more s s' s'')
  then show ?case using sys_inv_step by blast
qed

section \<open>Properties\<close>




definition demo_passed :: "prepareUploadRequest \<times> string \<times> bool" where
  "demo_passed = projr (prepareGuards demo_srv demo_prepare demo_world)"

definition demo_commit :: "world \<Rightarrow> httpResponse \<times> world" where
  "demo_commit w = prepareCommit demo_uuid demo_srv demo_prepare demo_passed w"


text \<open>Creating the file and finishing a copy, as functions of the world.\<close>

definition createAt :: "string \<Rightarrow> world \<Rightarrow> world" where
  "createAt path w = w\<lparr>w_fs := projr (Create (w_fs w) path)\<rparr>"

definition finishAt :: "server \<Rightarrow> upload \<Rightarrow> bodyRead \<Rightarrow> world \<Rightarrow> world option" where
  "finishAt srv u rd w =
     (case copyStep srv rd u w of
        Reached u' w' \<Rightarrow> (case finishSave u' w' of
                            (Inr p, w'') \<Rightarrow> Some (completeUpload srv (up_session u') (up_meta u') p w'')
                          | (Inl _, _) \<Rightarrow> None)
      | _ \<Rightarrow> None)"

lemma create_step:
  assumes "i < length ts" "ts ! i = Opening a meta path" "\<not> isl (Create (w_fs w) path)"
  shows "sys_step gen srv \<lparr>sys_world = w, sys_tasks = ts\<rparr>
           \<lparr>sys_world = createAt path w, sys_tasks = ts[i := Copying (startUpload a meta path)]\<rparr>"
  unfolding createAt_def using assms by (intro create) auto

lemma finish_step:
  assumes "i < length ts" "ts ! i = Copying u" "finishAt srv u rd w = Some w'"
  shows "sys_step gen srv \<lparr>sys_world = w, sys_tasks = ts\<rparr> \<lparr>sys_world = w', sys_tasks = without i ts\<rparr>"
  using assms by (auto simp: finishAt_def split: copyResult.splits prod.splits sum.splits intro: finish)

text \<open>A session of two files with the same name, and the request for each of them.\<close>

definition twin_srv :: server where
  "twin_srv = demo_srv\<lparr>srv_hasOnDone := True\<rparr>"

definition twin_meta :: "string \<Rightarrow> fileMetadata" where
  "twin_meta fid = zeroMeta\<lparr>meta_ID := fid, meta_FileName := ''p'', meta_Size := 3\<rparr>"

definition twin_world :: world where
  "twin_world = snd (handlePrepareUpload demo_uuid twin_srv (demo_rq\<lparr>rq_Method := MethodPost,
     rq_Json := Some (encodePrepareUpload \<lparr>pureq_Info = zeroDevice,
       pureq_Files = [(''f'', twin_meta ''f''), (''g'', twin_meta ''g'')]\<rparr>)\<rparr>) demo_world)"

definition twin_request :: "string \<Rightarrow> httpRequest" where
  "twin_request q = demo_rq\<lparr>rq_Method := MethodPost, rq_RawQuery := ''sessionId=u2&'' @ q\<rparr>"

definition twin_opened :: "string \<Rightarrow> world \<Rightarrow> world" where
  "twin_opened q w = snd (validateUploadRequest twin_srv (twin_request q) w)"

definition twin_upload :: "string \<Rightarrow> upload" where
  "twin_upload fid = startUpload 0 (twin_meta fid) ''/s/p''"

definition twin_finished :: "string \<Rightarrow> string \<Rightarrow> world \<Rightarrow> world option" where
  "twin_finished fid c w =
     finishAt twin_srv (twin_upload fid) \<lparr>rd_Data = c, rd_Err = Some EOF, rd_Disk = None\<rparr> (createAt ''/s/p'' w)"

definition twin0 :: world where "twin0 = twin_opened ''fileId=f&token=u0'' twin_world"
definition twin1 :: world where "twin1 = twin_opened ''fileId=g&token=u1'' twin0"
definition twin2 :: world where "twin2 = the (twin_finished ''f'' ''one'' twin1)"
definition twin3 :: world where "twin3 = the (twin_finished ''g'' ''two'' twin2)"

lemma twin_choose:
  assumes "fst (validateUploadRequest twin_srv (twin_request q) w) = Inr (0, twin_meta fid)"
    and "getUniquePath (w_fs (twin_opened q w)) ''/s'' ''p'' = Some ''/s/p''"
  shows "sys_step gen twin_srv \<lparr>sys_world = w, sys_tasks = ts\<rparr>
           \<lparr>sys_world = twin_opened q w, sys_tasks = ts @ [Opening 0 (twin_meta fid) ''/s/p'']\<rparr>"
proof (rule choose)
  show "rq_Method (twin_request q) = MethodPost" by (simp add: twin_request_def)
  show "validateUploadRequest twin_srv (twin_request q) w = (Inr (0, twin_meta fid), twin_opened q w)"
    using assms(1) by (simp add: twin_opened_def prod_eq_iff)
  show "getUniquePath (w_fs (twin_opened q w)) (srv_saveDir twin_srv) (meta_FileName (twin_meta fid)) = Some ''/s/p''"
    using assms(2) by (simp add: twin_srv_def demo_srv_def NewServer_def twin_meta_def)
qed

text \<open>One upload from the creation of its file to the end, when it is the first task.\<close>

lemma twin_transfer:
  assumes "\<not> isl (Create (w_fs w) ''/s/p'')" "twin_finished fid c w = Some w'"
    and "sys_reach gen twin_srv s \<lparr>sys_world = w, sys_tasks = Opening 0 (twin_meta fid) ''/s/p'' # ts\<rparr>"
  shows "sys_reach gen twin_srv s \<lparr>sys_world = w', sys_tasks = ts\<rparr>"
proof -
  have "sys_reach gen twin_srv s \<lparr>sys_world = createAt ''/s/p'' w, sys_tasks = Copying (twin_upload fid) # ts\<rparr>"
    using sys_reach.more [OF assms(3) create_step [of 0, OF _ _ assms(1)]] by (simp add: twin_upload_def)
  then show ?thesis
    using sys_reach.more [OF _ finish_step [of 0 "Copying (twin_upload fid) # ts", OF _ _ assms(2) [unfolded twin_finished_def]]]
    by (simp add: without_def)
qed


end
