(* ===== verification/Download.thy ===== *)
theory Download
  imports Server
begin

text \<open>
  The sharing half of \<open>pkg/server/server.go\<close>: the browser download server, its state, and its three
  handlers with the PIN form. HTML is kept as the name of the template and the values put into it.
\<close>

section \<open>State\<close>

record shareFile =
  sf_ID :: string
  sf_Path :: string
  sf_FileName :: string
  sf_Size :: int
  sf_FileType :: string

text \<open>\<open>dl_running\<close> says whether the field \<open>downloadServer\<close> is set.\<close>

record downloads =
  dl_running :: bool
  dl_sharedFiles :: "shareFile list"
  dl_session :: string
  dl_uuids :: nat

datatype downloadError = ErrAlreadyRunning | ErrListenDownload

definition StartDownloadServer ::
  "(nat \<Rightarrow> string) \<Rightarrow> (int \<Rightarrow> bool) \<Rightarrow> int \<Rightarrow> shareFile list \<Rightarrow> downloads \<Rightarrow> downloadError option \<times> downloads" where
  "StartDownloadServer gen listens port sharedFiles d =
     (if dl_running d then (Some ErrAlreadyRunning, d)
      else let d1 = d\<lparr>dl_sharedFiles := sharedFiles, dl_session := gen (dl_uuids d), dl_uuids := Suc (dl_uuids d)\<rparr>
      in if \<not> listens port then (Some ErrListenDownload, d1)
      else (None, d1\<lparr>dl_running := True\<rparr>))"

definition StopDownloadServer :: "downloads \<Rightarrow> downloads" where
  "StopDownloadServer d =
     (if dl_running d then d\<lparr>dl_running := False, dl_sharedFiles := [], dl_session := []\<rparr> else d)"

text \<open>\<open>Shutdown\<close> closes the session manager and stops the download server.\<close>

definition Shutdown :: "world \<times> downloads \<Rightarrow> world \<times> downloads" where
  "Shutdown wd = (case wd of (w, d) \<Rightarrow> (w\<lparr>w_mgr := CloseManager (w_mgr w)\<rparr>, StopDownloadServer d))"

section \<open>Cookies\<close>

text \<open>
  What \<open>http.SetCookie\<close> writes for a value, and what \<open>r.Cookie\<close> reads when a browser sends it back:
  bytes a cookie cannot hold are dropped, a value with a space or a comma is quoted.
\<close>

definition validCookieByte :: "char \<Rightarrow> bool" where
  "validCookieByte c \<longleftrightarrow> 32 \<le> ord c \<and> ord c < 127 \<and> c \<notin> {CHR 0x22, CHR '';'', CHR 0x5C}"

definition cookieValue :: "string \<Rightarrow> string" where
  "cookieValue v =
     (let v' = filter validCookieByte v
      in if CHR '' '' \<in> set v' \<or> CHR '','' \<in> set v' then CHR 0x22 # v' @ [CHR 0x22] else v')"

definition readCookieValue :: "string \<Rightarrow> string option" where
  "readCookieValue raw =
     (let v = (if 1 < length raw \<and> hd raw = CHR 0x22 \<and> last raw = CHR 0x22 then butlast (tl raw) else raw)
      in if list_all validCookieByte v then Some v else None)"

definition cookie :: "httpRequest \<Rightarrow> string \<Rightarrow> string option" where
  "cookie r name = Option.bind (map_of (rq_Cookies r) name) readCookieValue"

section \<open>Handlers\<close>

definition requestPin :: "httpRequest \<Rightarrow> string" where
  "requestPin r =
     (let reqPin = query r ''pin''
      in if reqPin = [] then (case cookie r ''session_pin'' of Some v \<Rightarrow> v | None \<Rightarrow> reqPin) else reqPin)"

definition handlePINForm :: "httpRequest \<Rightarrow> httpResponse" where
  "handlePINForm r =
     \<lparr>rs_Status = StatusOK, rs_Headers = [(''Content-Type'', ''text/html; charset=utf-8'')],
      rs_Body = Html ''pinform'' [(''Error'', FormatBool (rq_Method r = MethodPost))]\<rparr>"

definition renderWebUI :: "string \<Rightarrow> string \<Rightarrow> shareFile list \<Rightarrow> httpResponse" where
  "renderWebUI alias sessionID files =
     \<lparr>rs_Status = StatusOK, rs_Headers = [(''Content-Type'', ''text/html; charset=utf-8'')],
      rs_Body = Html ''webui''
        ((''Alias'', alias) #
         concat (map (\<lambda>f. [(''FileName'', sf_FileName f), (''Size'', Itoa (sf_Size f)),
                           (''SessionID'', sessionID), (''ID'', sf_ID f)]) files))\<rparr>"

definition redirectWithCookie :: "string \<Rightarrow> httpResponse" where
  "redirectWithCookie pin =
     \<lparr>rs_Status = StatusSeeOther,
      rs_Headers = [(''Set-Cookie'', ''session_pin='' @ cookieValue pin @ ''; Path=/; HttpOnly''), (''Location'', ''/'')],
      rs_Body = NoBody\<rparr>"

definition handleWebUI :: "server \<Rightarrow> httpRequest \<Rightarrow> downloads \<Rightarrow> httpResponse" where
  "handleWebUI srv r d =
     (let page = renderWebUI (dev_Alias (srv_myDevice srv)) (dl_session d) (dl_sharedFiles d)
      in if rq_Path r \<noteq> ''/'' then httpError ''404 page not found'' StatusNotFound
      else if srv_pin srv \<noteq> [] then
        (let inputPin = (case map_of (rq_Form r) ''pin'' of Some v \<Rightarrow> v | None \<Rightarrow> [])
         in if rq_Method r = MethodPost \<and> inputPin = srv_pin srv then redirectWithCookie (srv_pin srv)
            else let cookiePin = (case cookie r ''session_pin'' of Some v \<Rightarrow> v | None \<Rightarrow> [])
                 in if cookiePin \<noteq> srv_pin srv then handlePINForm r else page)
      else page)"

text \<open>The map of the answer, filled in the order of the shared files.\<close>

definition filesMap :: "shareFile list \<Rightarrow> fileMetadata gomap" where
  "filesMap fs =
     foldl (\<lambda>m f. AList.update (sf_ID f)
              (zeroMeta\<lparr>meta_ID := sf_ID f, meta_FileName := sf_FileName f, meta_Size := sf_Size f,
                        meta_FileType := sf_FileType f\<rparr>) m) [] fs"

definition handlePrepareDownload :: "server \<Rightarrow> httpRequest \<Rightarrow> downloads \<Rightarrow> httpResponse" where
  "handlePrepareDownload srv r d =
     (if dl_session d = [] then httpError ''No active shared files'' StatusNotFound
      else if srv_pin srv \<noteq> [] \<and> requestPin r \<noteq> srv_pin srv then statusOnly StatusUnauthorized
      else jsonResponse (encodePrepareDownload
             \<lparr>pdresp_Info = srv_myDevice srv, pdresp_SessionID = dl_session d,
              pdresp_Files = filesMap (dl_sharedFiles d)\<rparr>))"

definition contentDisposition :: "string \<Rightarrow> string" where
  "contentDisposition name =
     (let escapedName = ReplaceByte (PathEscape name) CHR ''+'' ''%20''
      in ''attachment; filename*=UTF-8'' @ [CHR 0x27, CHR 0x27] @ escapedName)"

text \<open>\<open>os.Open\<close> succeeds on a directory too; copying from it then yields nothing.\<close>

definition handleDownload :: "server \<Rightarrow> httpRequest \<Rightarrow> downloads \<Rightarrow> fsys \<Rightarrow> httpResponse" where
  "handleDownload srv r d fs =
     (if rq_Method r \<noteq> MethodGet then httpError ''Method not allowed'' StatusMethodNotAllowed
      else if srv_pin srv \<noteq> [] \<and> requestPin r \<noteq> srv_pin srv then statusOnly StatusUnauthorized
      else let sessionID = query r ''sessionId''; fileID = query r ''fileId'';
               actualSession = dl_session d;
               targetFile = find (\<lambda>f. sf_ID f = fileID) (dl_sharedFiles d)
      in if actualSession = [] \<or> sessionID \<noteq> actualSession then httpError ''Invalid session ID'' StatusForbidden
      else (case targetFile of
              None \<Rightarrow> httpError ''File not found'' StatusNotFound
            | Some f \<Rightarrow>
                (case Stat fs (sf_Path f) of
                   Inl _ \<Rightarrow> httpError ''Failed to open file'' StatusInternalServerError
                 | Inr n \<Rightarrow>
                     \<lparr>rs_Status = StatusOK,
                      rs_Headers = [(''Content-Disposition'', contentDisposition (sf_FileName f)),
                                    (''Content-Type'', sf_FileType f), (''Content-Length'', Itoa (sf_Size f))],
                      rs_Body = Bytes (case n of File bs \<Rightarrow> bs | Dir _ \<Rightarrow> [])\<rparr>)))"

text \<open>The route table of the download server: \<open>/\<close> matches whatever nothing else does.\<close>

definition serveDownload :: "server \<Rightarrow> httpRequest \<Rightarrow> downloads \<Rightarrow> fsys \<Rightarrow> httpResponse" where
  "serveDownload srv r d fs =
     (if rq_Path r = ''/api/localsend/v2/prepare-download'' then handlePrepareDownload srv r d
      else if rq_Path r = ''/api/localsend/v2/download'' then handleDownload srv r d fs
      else handleWebUI srv r d)"

section \<open>Properties\<close>

text \<open>
  C17: the download server sends the content of a file only while it is sharing, to a
  GET request with the session it announced and with the PIN when one is set, and then the file is
  one of those shared. After \<open>StopDownloadServer\<close> nothing is sent.
\<close>

theorem download_confined:
  assumes "rs_Body (serveDownload srv r d fs) = Bytes bs"
  shows "rq_Method r = MethodGet \<and> dl_session d \<noteq> [] \<and> query r ''sessionId'' = dl_session d
    \<and> (srv_pin srv = [] \<or> requestPin r = srv_pin srv)
    \<and> (\<exists>f \<in> set (dl_sharedFiles d). sf_ID f = query r ''fileId''
          \<and> (\<exists>n. Stat fs (sf_Path f) = Inr n \<and> (n = File bs \<or> isDir n \<and> bs = [])))
    \<and> (dl_running d \<longrightarrow> (\<forall>bs'. rs_Body (serveDownload srv r' (StopDownloadServer d) fs) \<noteq> Bytes bs'))"
proof -
  note defs = handlePrepareDownload_def handleWebUI_def handlePINForm_def renderWebUI_def
    redirectWithCookie_def httpError_def statusOnly_def jsonResponse_def
  have body: "rs_Body (serveDownload srv r d fs) = Bytes bs \<Longrightarrow> serveDownload srv r d fs = handleDownload srv r d fs" for r d bs
    by (auto simp: serveDownload_def defs Let_def split: if_splits option.splits)
  have dl: "rq_Method r = MethodGet \<and> dl_session d \<noteq> [] \<and> query r ''sessionId'' = dl_session d
      \<and> (srv_pin srv = [] \<or> requestPin r = srv_pin srv)
      \<and> (\<exists>f \<in> set (dl_sharedFiles d). sf_ID f = query r ''fileId''
          \<and> (\<exists>n. Stat fs (sf_Path f) = Inr n \<and> (n = File bs \<or> isDir n \<and> bs = [])))"
    if "rs_Body (handleDownload srv r d fs) = Bytes bs" for r d bs
    using that
    by (auto simp: handleDownload_def httpError_def statusOnly_def Let_def find_Some_iff set_conv_nth
        split: if_splits option.splits sum.splits node.splits)
  have "dl_running d \<Longrightarrow> rs_Body (serveDownload srv r' (StopDownloadServer d) fs) \<noteq> Bytes bs'" for bs'
  proof
    assume run: "dl_running d" and b: "rs_Body (serveDownload srv r' (StopDownloadServer d) fs) = Bytes bs'"
    then have "dl_session (StopDownloadServer d) \<noteq> []" using dl body by metis
    then show False using run by (simp add: StopDownloadServer_def)
  qed
  then show ?thesis using dl body assms by metis
qed

lemma upperHexDigit_unreserved: "d < 16 \<Longrightarrow> isUnreserved (upperHexDigit d)"
  by (auto simp: isUnreserved_def upperHexDigit_def isDigit_def)

lemma isUnreserved_not: "isUnreserved c \<Longrightarrow> c \<notin> {CHR ''+'', CHR 0x0A, CHR 0x0D, CHR '';'', CHR 0x22}"
  by (auto simp: isUnreserved_def isDigit_def)

lemma unescape_plus: "unescape False (ReplaceByte (PathEscape s) CHR ''+'' ''%20'')
    = Some (map (\<lambda>c. if c = CHR ''+'' then CHR '' '' else c) s)"
proof (induction s)
  case Nil
  then show ?case by (simp add: PathEscape_def ReplaceByte_def)
next
  case (Cons c s)
  have split: "ReplaceByte (PathEscape (c # s)) CHR ''+'' ''%20''
      = ReplaceByte (escapeByte c) CHR ''+'' ''%20'' @ ReplaceByte (PathEscape s) CHR ''+'' ''%20''"
    by (simp add: PathEscape_def ReplaceByte_def)
  show ?case
  proof (cases "c = CHR ''+''")
    case True
    have "ReplaceByte (escapeByte c) CHR ''+'' ''%20'' = ''%20''"
      by (simp add: True escapeByte_def keptInSegment_def ReplaceByte_def)
    moreover have "chr 32 = CHR '' ''"
    proof -
      have "ord CHR '' '' = 32" by simp
      then show ?thesis by (metis char_of_char)
    qed
    ultimately show ?thesis using Cons.IH unfolding split by (simp add: True hexVal_def)
  next
    case False
    have "CHR ''+'' \<notin> set (escapeByte c)"
    proof (cases "keptInSegment c")
      case True
      then show ?thesis using False by (simp add: escapeByte_def)
    next
      case kept: False
      have n: "ord c div 16 < 16" "ord c mod 16 < 16" using ord_lt [of c] by (auto simp: less_mult_imp_div_less)
      have "CHR ''+'' \<noteq> upperHexDigit (ord c div 16)" "CHR ''+'' \<noteq> upperHexDigit (ord c mod 16)"
        using isUnreserved_not [OF upperHexDigit_unreserved [OF n(1)]]
          isUnreserved_not [OF upperHexDigit_unreserved [OF n(2)]] by auto
      then show ?thesis using kept by (simp add: escapeByte_def)
    qed
    then show ?thesis using Cons.IH False unfolding split by (simp add: ReplaceByte_free unescape_escapeByte)
  qed
qed

lemma ReplaceByte_subset: "set (ReplaceByte s c r) \<subseteq> set s \<union> set r"
  by (induction s) (auto simp: ReplaceByte_def)

lemma PathEscape_chars: "set (PathEscape s) \<subseteq> {c. keptInSegment c} \<union> {CHR ''%''} \<union> upperHexDigit ` {..<16}"
proof (induction s)
  case (Cons c s)
  have "ord c div 16 < 16" "ord c mod 16 < 16" using ord_lt [of c] by (auto simp: less_mult_imp_div_less)
  then have "set (escapeByte c) \<subseteq> {c. keptInSegment c} \<union> {CHR ''%''} \<union> upperHexDigit ` {..<16}"
    by (auto simp: escapeByte_def)
  then show ?case using Cons by (auto simp: PathEscape_def)
qed (simp add: PathEscape_def)

lemma escaped_clean:
  "c \<in> set (ReplaceByte (PathEscape s) CHR ''+'' ''%20'') \<Longrightarrow> c \<notin> {CHR 0x0A, CHR 0x0D, CHR '';'', CHR 0x22}"
proof -
  have hex: "upperHexDigit d \<notin> {CHR 0x0A, CHR 0x0D, CHR '';'', CHR 0x22}" if "d < 16" for d
    using isUnreserved_not [OF upperHexDigit_unreserved [OF that]] by blast
  assume "c \<in> set (ReplaceByte (PathEscape s) CHR ''+'' ''%20'')"
  then have "c \<in> {c. keptInSegment c} \<union> {CHR ''%''} \<union> upperHexDigit ` {..<16} \<union> set ''%20''"
    using ReplaceByte_subset PathEscape_chars by blast
  then show ?thesis using hex by (auto simp: keptInSegment_def isUnreserved_def isDigit_def)
qed

text \<open>
  C32: the file name a browser decodes from the \<open>Content-Disposition\<close> header is the
  name of the shared file with every plus sign turned into a space, and the header has no byte that
  could end it or start another one.
\<close>

theorem disposition_decodes:
  "\<exists>v. contentDisposition name = ''attachment; filename*=UTF-8'' @ [CHR 0x27, CHR 0x27] @ v
     \<and> unescape False v = Some (map (\<lambda>c. if c = CHR ''+'' then CHR '' '' else c) name)
     \<and> set v \<inter> {CHR 0x0A, CHR 0x0D, CHR '';'', CHR 0x22} = {}"
  unfolding contentDisposition_def Let_def using unescape_plus escaped_clean by blast

lemma readCookieValue_cookieValue: "readCookieValue (cookieValue v) = Some (filter validCookieByte v)"
proof -
  let ?v = "filter validCookieByte v"
  have q: "\<not> validCookieByte CHR 0x22" by (simp add: validCookieByte_def)
  have "list_all validCookieByte ?v" by (simp add: list_all_iff)
  moreover have "1 < length ?v \<Longrightarrow> hd ?v \<noteq> CHR 0x22"
    using q hd_in_set [of ?v] by (cases "?v = []") auto
  ultimately show ?thesis
    by (auto simp: cookieValue_def readCookieValue_def Let_def)
qed


text \<open>A server that shares one file, without and with a PIN.\<close>

definition demo_shared :: downloads where
  "demo_shared = snd (StartDownloadServer demo_uuid (\<lambda>_. True) 8080
     [\<lparr>sf_ID = ''f'', sf_Path = ''/s/a.txt'', sf_FileName = ''a+b.txt'', sf_Size = 3, sf_FileType = ''text/plain''\<rparr>]
     \<lparr>dl_running = False, dl_sharedFiles = [], dl_session = [], dl_uuids = 0\<rparr>)"

definition demo_pin_srv :: "string \<Rightarrow> server" where
  "demo_pin_srv pin = fst (NewServer zeroDevice [] ''/s'' pin False)"

theorem download_confined_witness:
  "query (demo_rq\<lparr>rq_Path := ''/api/localsend/v2/download'', rq_RawQuery := ''sessionId=u0&fileId=f''\<rparr>) ''sessionId''
     = dl_session demo_shared
   \<and> (\<exists>f \<in> set (dl_sharedFiles demo_shared). Stat demo_fs (sf_Path f) = Inr (File ''old''))"
proof -
  let ?r = "demo_rq\<lparr>rq_Path := ''/api/localsend/v2/download'', rq_RawQuery := ''sessionId=u0&fileId=f''\<rparr>"
  have "rs_Body (serveDownload (demo_pin_srv []) ?r demo_shared demo_fs) = Bytes ''old''" by code_simp
  from download_confined [OF this, of ?r] show ?thesis by fastforce
qed


end
