(* ===== verification/Address.thy ===== *)
theory Address
  imports GoNet "HOL-Library.Word"
begin

text \<open>
  IPv4 addresses as \<open>pkg/discovery\<close> uses them: \<open>net.IP\<close> is a slice of bytes, four of them or sixteen.
  The private ranges are tested byte by byte in the source; here they are compared with the three
  CIDR blocks of RFC 1918.
\<close>

unbundle bit_operations_syntax

type_synonym byte = "8 word"

type_synonym goIP = "byte list"

definition To4 :: "goIP \<Rightarrow> byte list option" where
  "To4 ip =
     (if length ip = 4 then Some ip
      else if length ip = 16 \<and> list_all (\<lambda>b. b = 0) (take 10 ip) \<and> ip ! 10 = 0xFF \<and> ip ! 11 = 0xFF
      then Some (drop 12 ip) else None)"

lemma To4_length: "To4 ip = Some b \<Longrightarrow> length b = 4"
  by (auto simp: To4_def split: if_splits)

lemma length4: "length b = 4 \<Longrightarrow> \<exists>w x y z. b = [w, x, y, z]"
  by (auto simp: eval_nat_numeral length_Suc_conv)

definition IsLoopback :: "goIP \<Rightarrow> bool" where
  "IsLoopback ip =
     (case To4 ip of
        Some ip4 \<Rightarrow> ip4 ! 0 = 127
      | None \<Rightarrow> length ip = 16 \<and> list_all (\<lambda>b. b = 0) (take 15 ip) \<and> ip ! 15 = 1)"

text \<open>
  \<open>ip.String()\<close> of an IPv4 address. The callers ask for it only after \<open>To4\<close> succeeded or on a socket
  that is bound to IPv4.
\<close>

definition dotted :: "byte list \<Rightarrow> string" where
  "dotted b = Join (map (\<lambda>x. Itoa (uint x)) b) ''.''"

definition ipString :: "goIP \<Rightarrow> string" where
  "ipString ip = (case To4 ip of Some b \<Rightarrow> dotted b | None \<Rightarrow> ''?'')"

definition isPrivateIP :: "goIP \<Rightarrow> bool" where
  "isPrivateIP ip =
     (case To4 ip of
        None \<Rightarrow> False
      | Some ip4 \<Rightarrow>
          ip4 ! 0 = 10
          \<or> (ip4 ! 0 = 172 \<and> 16 \<le> ip4 ! 1 \<and> ip4 ! 1 \<le> 31)
          \<or> (ip4 ! 0 = 192 \<and> ip4 ! 1 = 168))"

definition isLocalIP :: "string \<Rightarrow> string list \<Rightarrow> bool" where
  "isLocalIP ip localIPs = list_ex (\<lambda>localIP. ip = localIP) localIPs"

section \<open>Interfaces of the machine\<close>

datatype ifaceAddr = IPNet goIP | OtherNet

text \<open>\<open>net.InterfaceAddrs()\<close>, or \<open>None\<close> when it fails.\<close>

definition GetLocalIPs :: "ifaceAddr list option \<Rightarrow> string list option" where
  "GetLocalIPs interfaceAddrs =
     (case interfaceAddrs of
        None \<Rightarrow> None
      | Some addrs \<Rightarrow>
          Some (concat (map (\<lambda>a. case a of
                  OtherNet \<Rightarrow> []
                | IPNet ip \<Rightarrow>
                    if \<not> IsLoopback ip \<and> To4 ip \<noteq> None then
                      (if isPrivateIP ip then [ipString ip] else [])
                    else []) addrs)))"

record netInterface =
  if_Flags :: "64 word"
  if_Addrs :: "ifaceAddr list option"

definition FlagUp :: "64 word" where "FlagUp = 1"
definition FlagLoopback :: "64 word" where "FlagLoopback = 4"
definition FlagMulticast :: "64 word" where "FlagMulticast = 16"

text \<open>The condition under which the source skips an interface, and the addresses it keeps.\<close>

definition skipInterface :: "netInterface \<Rightarrow> bool" where
  "skipInterface i \<longleftrightarrow>
     if_Flags i AND FlagUp = 0 \<or> if_Flags i AND FlagMulticast = 0 \<or> if_Flags i AND FlagLoopback \<noteq> 0"

fun privateIPv4 :: "ifaceAddr \<Rightarrow> bool" where
  "privateIPv4 OtherNet = False"
| "privateIPv4 (IPNet ip) = (To4 ip \<noteq> None \<and> isPrivateIP ip)"

section \<open>Facts\<close>

definition addr32 :: "byte list \<Rightarrow> 32 word" where
  "addr32 b = word_of_nat (((unat (b ! 0) * 256 + unat (b ! 1)) * 256 + unat (b ! 2)) * 256 + unat (b ! 3))"

text \<open>\<open>a\<close> is in the block \<open>base/len\<close>: both agree on the first \<open>len\<close> bits.\<close>

definition inBlock :: "32 word \<Rightarrow> 32 word \<Rightarrow> nat \<Rightarrow> bool" where
  "inBlock a base len \<longleftrightarrow> drop_bit (32 - len) a = drop_bit (32 - len) base"

lemma inBlock_nat: "inBlock a base len \<longleftrightarrow> unat a div 2 ^ (32 - len) = unat base div 2 ^ (32 - len)"
proof -
  have "unat (drop_bit n w) = unat w div 2 ^ n" for n and w :: "32 word"
    by (metis drop_bit_eq_div unat_drop_bit_eq)
  then show ?thesis by (simp add: inBlock_def word_unat_eq_iff)
qed

lemma byte_lt: "unat (x :: byte) < 256"
proof -
  have "unat x < 2 ^ LENGTH(8)" by (rule unsigned_less)
  then show ?thesis by simp
qed

lemma unat_word32: "n < 2 ^ 32 \<Longrightarrow> unat (word_of_nat n :: 32 word) = n"
  by (simp add: unat_of_nat take_bit_nat_eq_self)

lemma unat_addr32:
  "unat (addr32 b) = ((unat (b ! 0) * 256 + unat (b ! 1)) * 256 + unat (b ! 2)) * 256 + unat (b ! 3)"
proof -
  have "((unat (b ! 0) * 256 + unat (b ! 1)) * 256 + unat (b ! 2)) * 256 + unat (b ! 3) < 2 ^ 32"
    using byte_lt [of "b ! 0"] byte_lt [of "b ! 1"] byte_lt [of "b ! 2"] byte_lt [of "b ! 3"] by simp
  then show ?thesis unfolding addr32_def by (rule unat_word32)
qed

text \<open>The dotted text determines the address, and has no colon.\<close>

lemma dotted_parts: "Split (dotted b) CHR ''.'' = (if b = [] then [[]] else map (\<lambda>x. Itoa (uint x)) b)"
proof (cases "b = []")
  case True
  then show ?thesis by (simp add: dotted_def)
next
  case False
  have "CHR ''.'' \<notin> set (Itoa i)" for i using Itoa_chars [of "CHR ''.''" i] by (auto simp: isDigit_def)
  then show ?thesis using False by (simp add: dotted_def Split_Join)
qed

lemma dotted_inject: "length b = 4 \<Longrightarrow> length b' = 4 \<Longrightarrow> dotted b = dotted b' \<Longrightarrow> b = b'"
proof -
  assume l: "length b = 4" "length b' = 4" and eq: "dotted b = dotted b'"
  have ne: "b \<noteq> []" "b' \<noteq> []" using l by auto
  have "map (\<lambda>x. Itoa (uint x)) b = map (\<lambda>x. Itoa (uint x)) b'"
    using arg_cong [OF eq, of "\<lambda>s. Split s CHR ''.''"] ne by (simp add: dotted_parts)
  moreover have "inj (\<lambda>x::byte. Itoa (uint x))" by (auto simp: inj_def word_uint_eq_iff)
  ultimately show ?thesis by (rule map_injective)
qed

lemma block12:
  fixes a b low :: nat
  assumes "low < 65536" "b < 256"
  shows "(a * 16777216 + b * 65536 + low) div 1048576 = 2753 \<longleftrightarrow> a = 172 \<and> 16 \<le> b \<and> b \<le> 31"
proof -
  have "(a * 16777216 + b * 65536 + low) div 1048576 = 2753 \<longleftrightarrow>
      2753 * 1048576 \<le> a * 16777216 + b * 65536 + low \<and> a * 16777216 + b * 65536 + low < 2754 * 1048576"
    using div_nat_eqI [of 1048576 2753 "a * 16777216 + b * 65536 + low"]
      div_times_less_eq_dividend [of "a * 16777216 + b * 65536 + low" 1048576]
      dividend_less_div_times [of 1048576 "a * 16777216 + b * 65536 + low"] by auto
  also have "\<dots> \<longleftrightarrow> a = 172 \<and> 16 \<le> b \<and> b \<le> 31"
  proof
    assume range: "2753 * 1048576 \<le> a * 16777216 + b * 65536 + low \<and> a * 16777216 + b * 65536 + low < 2754 * 1048576"
    have "\<not> a \<le> 171" "\<not> 173 \<le> a" using range assms by linarith+
    then have a: "a = 172" by simp
    then have "\<not> b \<le> 15" "\<not> 32 \<le> b" using range assms by linarith+
    then show "a = 172 \<and> 16 \<le> b \<and> b \<le> 31" using a by simp
  qed (use assms in linarith)
  finally show ?thesis .
qed

lemma block16:
  fixes a b :: nat
  assumes "b < 256"
  shows "a * 256 + b = 49320 \<longleftrightarrow> a = 192 \<and> b = 168"
proof
  assume eq: "a * 256 + b = 49320"
  have "\<not> a \<le> 191" "\<not> 193 \<le> a" using eq assms by linarith+
  then have "a = 192" by simp
  then show "a = 192 \<and> b = 168" using eq by simp
qed simp

section \<open>Properties\<close>

text \<open>
  C29: the test on the first two bytes accepts exactly the IPv4 addresses of the blocks
  10.0.0.0/8, 172.16.0.0/12 and 192.168.0.0/16, in either representation, and no other address.
\<close>

theorem private_ranges:
  "isPrivateIP ip \<longleftrightarrow>
     (\<exists>b. To4 ip = Some b \<and>
        (inBlock (addr32 b) 0x0A000000 8 \<or> inBlock (addr32 b) 0xAC100000 12 \<or> inBlock (addr32 b) 0xC0A80000 16))"
proof (cases "To4 ip")
  case None
  then show ?thesis by (simp add: isPrivateIP_def)
next
  case (Some b)
  let ?a = "unat (b ! 0)" and ?b = "unat (b ! 1)" and ?n = "unat (addr32 b)"
  let ?low = "unat (b ! 2) * 256 + unat (b ! 3)"
  have n: "?n = ?a * 16777216 + ?b * 65536 + ?low" by (simp add: unat_addr32 algebra_simps)
  have low: "?low < 65536" using byte_lt [of "b ! 2"] byte_lt [of "b ! 3"] by simp
  have "inBlock (addr32 b) 0x0A000000 8 \<longleftrightarrow> ?n div 16777216 = 10" by (simp add: inBlock_nat)
  also have "?n div 16777216 = ?a" using n low byte_lt [of "b ! 1"] by simp
  finally have b1: "inBlock (addr32 b) 0x0A000000 8 \<longleftrightarrow> b ! 0 = 10" by (simp add: word_unat_eq_iff)
  have "inBlock (addr32 b) 0xAC100000 12 \<longleftrightarrow> ?n div 1048576 = 2753" by (simp add: inBlock_nat)
  also have "\<dots> \<longleftrightarrow> ?a = 172 \<and> 16 \<le> ?b \<and> ?b \<le> 31"
    unfolding n by (rule block12) (use low byte_lt [of "b ! 1"] in auto)
  finally have b2: "inBlock (addr32 b) 0xAC100000 12 \<longleftrightarrow> b ! 0 = 172 \<and> 16 \<le> b ! 1 \<and> b ! 1 \<le> 31"
    by (simp add: word_unat_eq_iff word_le_nat_alt)
  have "inBlock (addr32 b) 0xC0A80000 16 \<longleftrightarrow> ?n div 65536 = 49320" by (simp add: inBlock_nat)
  also have "?n div 65536 = ?a * 256 + ?b" using n low by simp
  also have "\<dots> = 49320 \<longleftrightarrow> ?a = 192 \<and> ?b = 168" by (rule block16 [OF byte_lt])
  finally have b3: "inBlock (addr32 b) 0xC0A80000 16 \<longleftrightarrow> b ! 0 = 192 \<and> b ! 1 = 168"
    by (simp add: word_unat_eq_iff)
  show ?thesis using Some b1 b2 b3 by (simp add: isPrivateIP_def)
qed

end
