(* ===== verification/Discovery.thy ===== *)
theory Discovery
  imports ProtocolJson Address
begin

text \<open>
  UDP multicast discovery: \<open>SendAnnounce\<close> and \<open>StartMulticastListener\<close> of
  \<open>pkg/discovery/discovery.go\<close>, with the socket options of \<open>sockopts_other.go\<close> and
  \<open>sockopts_windows.go\<close>. What the operating system answers to a socket call is an argument.
\<close>

section \<open>Socket options\<close>

datatype sockopt = MulticastIf "byte list" | MulticastLoop

text \<open>
  The result is the calls of \<open>setsockopt\<close> in order, and whether the function returned without an
  error. \<open>raw\<close> says whether the raw connection could be had, \<open>setopt\<close> which calls succeed.
\<close>

definition setMulticastSocketOptions :: "bool \<Rightarrow> (sockopt \<Rightarrow> bool) \<Rightarrow> goIP \<Rightarrow> sockopt list \<times> bool" where
  "setMulticastSocketOptions raw setopt ip =
     (if \<not> raw then ([], False)
      else case To4 ip of
             None \<Rightarrow> ([], True)
           | Some ip4 \<Rightarrow>
               if ip4 \<noteq> [0, 0, 0, 0] then
                 (if \<not> setopt (MulticastIf ip4) then ([MulticastIf ip4], False)
                  else ([MulticastIf ip4, MulticastLoop], setopt MulticastLoop))
               else ([MulticastLoop], setopt MulticastLoop))"

text \<open>
  The Windows variant passes the address as four raw bytes: \<open>opt4\<close> is \<open>syscall.Setsockopt\<close> with
  \<open>IP_MULTICAST_IF\<close>, \<open>optInt\<close> is \<open>syscall.SetsockoptInt\<close> with \<open>IP_MULTICAST_LOOP\<close>.
\<close>

definition setMulticastSocketOptions_windows ::
  "bool \<Rightarrow> (byte list \<Rightarrow> bool) \<Rightarrow> (int \<Rightarrow> bool) \<Rightarrow> goIP \<Rightarrow> sockopt list \<times> bool" where
  "setMulticastSocketOptions_windows raw opt4 optInt ip =
     (if \<not> raw then ([], False)
      else case To4 ip of
             None \<Rightarrow> ([], True)
           | Some ip4 \<Rightarrow>
               let addr = take 4 ip4;
                   (calls, ok) = (if ip4 \<noteq> [0, 0, 0, 0] then ([MulticastIf addr], opt4 addr) else ([], True))
               in if \<not> ok then (calls, False) else (calls @ [MulticastLoop], optInt 1))"

lemma setMulticastSocketOptions_agree:
  "setMulticastSocketOptions_windows raw opt4 optInt ip =
     setMulticastSocketOptions raw (\<lambda>call. case call of MulticastIf addr \<Rightarrow> opt4 addr | MulticastLoop \<Rightarrow> optInt 1) ip"
  using To4_length [of ip]
  by (auto simp: setMulticastSocketOptions_windows_def setMulticastSocketOptions_def split: option.splits)

section \<open>Announcing\<close>

text \<open>
  The network as the sender sees it: \<open>net_Interfaces\<close> is \<open>net.Interfaces()\<close>, \<open>net_Dial\<close> says
  whether a socket bound to the given local address (\<open>None\<close> for the wildcard) can be made,
  \<open>net_Listen\<close> the same for a listener on an interface (by its position). The last three are the
  calls of the Windows listener.
\<close>

record network =
  net_Resolves :: bool
  net_Interfaces :: "netInterface list option"
  net_Dial :: "goIP option \<Rightarrow> bool"
  net_Listen :: "nat option \<Rightarrow> bool"
  net_GOOS :: string
  net_ListenPacket :: bool
  net_RawConn :: bool
  net_Membership :: "goIP \<Rightarrow> bool"

datatype netError = ErrResolve | ErrInterfaces | ErrNoListener | ErrListenUDP | ErrRawConn | ErrJoin

text \<open>The packets sent, each with the local address of its socket. Errors of the options are only logged.\<close>

definition SendAnnounce :: "network \<Rightarrow> device \<Rightarrow> bool \<Rightarrow> netError + (goIP option \<times> json) list" where
  "SendAnnounce net myDevice announce =
     (if \<not> net_Resolves net then Inl ErrResolve
      else case net_Interfaces net of
        None \<Rightarrow> Inl ErrInterfaces
      | Some interfaces \<Rightarrow>
          let data = encodeAnnounce \<lparr>msg_Device = myDevice, msg_Announce = announce\<rparr>;
              direct = concat (map (\<lambda>iface.
                 if skipInterface iface then []
                 else case if_Addrs iface of
                        None \<Rightarrow> []
                      | Some addrs \<Rightarrow>
                          concat (map (\<lambda>a. case a of
                             OtherNet \<Rightarrow> []
                           | IPNet ip \<Rightarrow>
                               if \<not> privateIPv4 a then []
                               else if \<not> net_Dial net (Some ip) then []
                               else [(Some ip, data)]) addrs)) interfaces);
              wildcard = (if net_Dial net None then [(None, data)] else [])
          in Inr (direct @ wildcard))"

section \<open>Receiving announcements\<close>

datatype source = UDPSource goIP | OtherSource

datatype found = Discovered device | AnnounceRequest device

definition dedupKey :: "string \<Rightarrow> int \<Rightarrow> string" where
  "dedupKey fingerprint port = fingerprint @ '':'' @ Itoa port"

text \<open>
  One turn of the receive loop \<open>handleConn\<close>: the payload (\<open>None\<close> when it is not JSON), where it came
  from, and the table \<open>lastReceived\<close>.
\<close>

definition handlePacket ::
  "device \<Rightarrow> gotime \<Rightarrow> json option \<Rightarrow> source \<Rightarrow> gotime gomap \<Rightarrow> found list \<times> gotime gomap" where
  "handlePacket myDevice now payload src lastReceived =
     (case Option.bind payload decodeAnnounce of
        None \<Rightarrow> ([], lastReceived)
      | Some msg \<Rightarrow>
          let dev = msg_Device msg in
          if dev_Fingerprint dev = dev_Fingerprint myDevice \<and> dev_Port dev = dev_Port myDevice
          then ([], lastReceived)
          else let key = dedupKey (dev_Fingerprint dev) (dev_Port dev) in
            if (case map_of lastReceived key of Some lastTime \<Rightarrow> Sub now lastTime < 2 * Second | None \<Rightarrow> False)
            then ([], lastReceived)
            else let lastReceived' = AList.update key now lastReceived in
              (case src of
                 OtherSource \<Rightarrow> ([], lastReceived')
               | UDPSource ip \<Rightarrow>
                   let dev' = dev\<lparr>dev_IP := ipString ip\<rparr> in
                   (Discovered dev' # (if msg_Announce msg \<and> 0 < dev_Port dev then [AnnounceRequest dev'] else []),
                    lastReceived')))"

text \<open>The loop, over the packets with the instants they are handled at.\<close>

fun handleConn ::
  "device \<Rightarrow> (gotime \<times> json option \<times> source) list \<Rightarrow> gotime gomap \<Rightarrow> (gotime \<times> found) list \<times> gotime gomap" where
  "handleConn myDevice [] st = ([], st)"
| "handleConn myDevice ((now, payload, src) # ps) st =
     (let (es, st1) = handlePacket myDevice now payload src st;
          (rest, st2) = handleConn myDevice ps st1
      in (map (Pair now) es @ rest, st2))"

section \<open>Starting the listener\<close>

definition hasPrivateIPv4 :: "netInterface \<Rightarrow> bool" where
  "hasPrivateIPv4 iface = (case if_Addrs iface of None \<Rightarrow> False | Some addrs \<Rightarrow> list_ex privateIPv4 addrs)"

text \<open>
  On Windows one socket joins the group on every private address. \<open>setoptErr\<close> is the error of the last
  call.
\<close>

definition windowsIPs :: "netInterface list \<Rightarrow> goIP list" where
  "windowsIPs interfaces =
     concat (map (\<lambda>iface. if skipInterface iface then []
       else case if_Addrs iface of
              None \<Rightarrow> []
            | Some addrs \<Rightarrow> concat (map (\<lambda>a. case a of IPNet ip \<Rightarrow> if privateIPv4 a then [ip] else []
                                             | OtherNet \<Rightarrow> []) addrs)) interfaces)"

fun joinGroups :: "(goIP \<Rightarrow> bool) \<Rightarrow> goIP list \<Rightarrow> bool \<Rightarrow> goIP list \<Rightarrow> bool \<times> goIP list" where
  "joinGroups join [] setoptErr joined = (setoptErr, joined)"
| "joinGroups join (ip # ips) setoptErr joined =
     (if \<not> join ip then joinGroups join ips True joined else joinGroups join ips False (joined @ [ip]))"

definition startWindowsMulticastListener ::
  "bool \<Rightarrow> bool \<Rightarrow> (goIP \<Rightarrow> bool) \<Rightarrow> netInterface list \<Rightarrow> netError + goIP list" where
  "startWindowsMulticastListener listens raw join interfaces =
     (if \<not> listens then Inl ErrListenUDP
      else if \<not> raw then Inl ErrRawConn
      else let (setoptErr, joined) = joinGroups join (windowsIPs interfaces) False []
      in if setoptErr then Inl ErrJoin else Inr joined)"

text \<open>
  Elsewhere one socket per usable interface, numbered by its position, and one on the wildcard
  interface. The result is the sockets \<open>handleConn\<close> runs on.
\<close>

datatype listener = OnInterface nat | OnWildcard | OnWindows "goIP list"

definition StartMulticastListener :: "network \<Rightarrow> netError + listener list" where
  "StartMulticastListener net =
     (if \<not> net_Resolves net then Inl ErrResolve
      else case net_Interfaces net of
        None \<Rightarrow> Inl ErrInterfaces
      | Some interfaces \<Rightarrow>
          if net_GOOS net = ''windows'' then
            (case startWindowsMulticastListener (net_ListenPacket net) (net_RawConn net) (net_Membership net) interfaces of
               Inl err \<Rightarrow> Inl err
             | Inr joined \<Rightarrow> Inr [OnWindows joined])
          else
          let perInterface = concat (map (\<lambda>(i, iface).
                 if skipInterface iface then []
                 else if \<not> hasPrivateIPv4 iface then []
                 else if \<not> net_Listen net (Some i) then []
                 else [OnInterface i]) (enumerate 0 interfaces));
              listeners = perInterface @ (if net_Listen net None then [OnWildcard] else [])
          in if listeners = [] then Inl ErrNoListener else Inr listeners)"

section \<open>Facts\<close>

lemma dedupKey_inject [simp]: "dedupKey f p = dedupKey f' p' \<longleftrightarrow> f = f' \<and> p = p'"
  using last_split_inject [of f "CHR '':''" "Itoa p" f' "Itoa p'"] by (auto simp: dedupKey_def)

text \<open>What one packet does: nothing, or a discovery that passed the time test and is remembered.\<close>

lemma handlePacket_cases:
  assumes "handlePacket my now payload src st = (es, st')"
  obtains
    (dropped) "es = []" "st' = st"
  | (remembered) d :: device where "es = []" "st' = AList.update (dedupKey (dev_Fingerprint d) (dev_Port d)) now st"
  | (reported) d :: device and rest where "es = Discovered d # rest" "rest = [] \<or> rest = [AnnounceRequest d]"
      "st' = AList.update (dedupKey (dev_Fingerprint d) (dev_Port d)) now st"
      "\<not> (dev_Fingerprint d = dev_Fingerprint my \<and> dev_Port d = dev_Port my)"
      "\<And>t. map_of st (dedupKey (dev_Fingerprint d) (dev_Port d)) = Some t \<Longrightarrow> 2 * Second \<le> Sub now t"
      "rest \<noteq> [] \<longrightarrow> 0 < dev_Port d"
proof (cases "Option.bind payload decodeAnnounce")
  case None
  then show thesis using assms dropped by (simp add: handlePacket_def)
next
  case (Some msg)
  let ?d = "msg_Device msg"
  let ?k = "dedupKey (dev_Fingerprint ?d) (dev_Port ?d)"
  consider (self) "dev_Fingerprint ?d = dev_Fingerprint my \<and> dev_Port ?d = dev_Port my"
    | (soon) "\<not> (dev_Fingerprint ?d = dev_Fingerprint my \<and> dev_Port ?d = dev_Port my)"
        "\<exists>t. map_of st ?k = Some t \<and> Sub now t < 2 * Second"
    | (fresh) "\<not> (dev_Fingerprint ?d = dev_Fingerprint my \<and> dev_Port ?d = dev_Port my)"
        "\<And>t. map_of st ?k = Some t \<Longrightarrow> 2 * Second \<le> Sub now t"
    by (metis not_less)
  then show thesis
  proof cases
    case self
    then show thesis using assms Some dropped by (simp add: handlePacket_def Let_def)
  next
    case soon
    then show thesis using assms Some dropped by (auto simp: handlePacket_def Let_def)
  next
    case fresh
    have pass: "\<not> (case map_of st ?k of Some t \<Rightarrow> Sub now t < 2 * Second | None \<Rightarrow> False)"
      using fresh(2) by (auto split: option.splits simp: not_less)
    show thesis
    proof (cases src)
      case OtherSource
      then have "es = []" "st' = AList.update ?k now st"
        using assms Some fresh(1) pass by (simp_all add: handlePacket_def Let_def)
      then show thesis using remembered [of ?d] by blast
    next
      case (UDPSource ip)
      let ?d' = "?d\<lparr>dev_IP := ipString ip\<rparr>"
      have "es = Discovered ?d' # (if msg_Announce msg \<and> 0 < dev_Port ?d then [AnnounceRequest ?d'] else [])"
          "st' = AList.update ?k now st"
        using assms Some fresh(1) pass UDPSource by (simp_all add: handlePacket_def Let_def)
      then show thesis
        using reported [of ?d' "if msg_Announce msg \<and> 0 < dev_Port ?d then [AnnounceRequest ?d'] else []"] fresh by simp
    qed
  qed
qed

text \<open>Two reports of the same device.\<close>

definition spaced :: "gotime \<times> found \<Rightarrow> gotime \<times> found \<Rightarrow> bool" where
  "spaced x y \<longleftrightarrow>
     (case (x, y) of
        ((t1, Discovered d1), (t2, Discovered d2)) \<Rightarrow>
          dev_Fingerprint d1 = dev_Fingerprint d2 \<longrightarrow> dev_Port d1 = dev_Port d2 \<longrightarrow> 2 * Second \<le> Sub t2 t1
      | _ \<Rightarrow> True)"

definition notSelf :: "device \<Rightarrow> device \<Rightarrow> bool" where
  "notSelf my d \<longleftrightarrow> \<not> (dev_Fingerprint d = dev_Fingerprint my \<and> dev_Port d = dev_Port my)"

text \<open>Every report is spaced from what the table remembers at the start.\<close>

lemma handleConn_spaced:
  assumes "sorted (map fst pkts)" "\<forall>k t. map_of st k = Some t \<longrightarrow> (\<forall>p \<in> set pkts. t \<le> fst p)"
    and "handleConn my pkts st = (es, st')"
  shows "(\<forall>t d t0. (t, Discovered d) \<in> set es \<longrightarrow> map_of st (dedupKey (dev_Fingerprint d) (dev_Port d)) = Some t0 \<longrightarrow>
            2 * Second \<le> Sub t t0)
         \<and> sorted_wrt spaced es"
  using assms
proof (induction pkts arbitrary: st es)
  case (Cons p ps)
  obtain now payload src where p: "p = (now, payload, src)" by (cases p) auto
  obtain e1 st1 where h: "handlePacket my now payload src st = (e1, st1)" by force
  obtain e2 where r: "handleConn my ps st1 = (e2, st')" and es: "es = map (Pair now) e1 @ e2"
    using Cons.prems(3) h p by (auto split: prod.splits)
  have so: "sorted (map fst ps)" "\<forall>q \<in> set ps. now \<le> fst q" using Cons.prems(1) p by auto
  have old: "\<forall>k t. map_of st k = Some t \<longrightarrow> t \<le> now \<and> (\<forall>q \<in> set ps. t \<le> fst q)" using Cons.prems(2) p by auto
  have new: "\<forall>k t. map_of (AList.update k0 now st) k = Some t \<longrightarrow> (\<forall>q \<in> set ps. t \<le> fst q)" for k0
    using old so(2) by auto
  from h show ?case
  proof (cases rule: handlePacket_cases)
    case dropped
    then have "\<forall>k t. map_of st1 k = Some t \<longrightarrow> (\<forall>q \<in> set ps. t \<le> fst q)" using old by blast
    from Cons.IH [OF so(1) this r] show ?thesis using es dropped by simp
  next
    case (remembered d0)
    note IH = Cons.IH [OF so(1) new [of "dedupKey (dev_Fingerprint d0) (dev_Port d0)", folded remembered(2)] r]
    have "2 * Second \<le> Sub t t0"
      if "(t, Discovered d) \<in> set e2" "map_of st (dedupKey (dev_Fingerprint d) (dev_Port d)) = Some t0" for t d t0
      using IH that old remembered(2) Sub_antimono [of t0 now t] by (cases "dedupKey (dev_Fingerprint d) (dev_Port d)
          = dedupKey (dev_Fingerprint d0) (dev_Port d0)") force+
    then show ?thesis using IH es remembered(1) by simp
  next
    case (reported d0 rest)
    note IH = Cons.IH [OF so(1) new [of "dedupKey (dev_Fingerprint d0) (dev_Port d0)", folded reported(3)] r]
    have later: "2 * Second \<le> Sub t t0"
      if "(t, Discovered d) \<in> set e2" "map_of st (dedupKey (dev_Fingerprint d) (dev_Port d)) = Some t0" for t d t0
      using IH that old reported(3) Sub_antimono [of t0 now t] by (cases "dedupKey (dev_Fingerprint d) (dev_Port d)
          = dedupKey (dev_Fingerprint d0) (dev_Port d0)") force+
    have first: "2 * Second \<le> Sub t now"
      if "(t, Discovered d) \<in> set e2" "dev_Fingerprint d = dev_Fingerprint d0" "dev_Port d = dev_Port d0" for t d
      using IH that reported(3) by simp
    have "spaced (now, Discovered d0) y" if "y \<in> set e2" for y
      using that first by (auto simp: spaced_def split: prod.splits found.splits)
    moreover have "spaced (now, AnnounceRequest d0) y" for y by (simp add: spaced_def split: prod.splits)
    moreover have "spaced x (now, AnnounceRequest d0)" for x by (simp add: spaced_def split: prod.splits found.splits)
    ultimately have "sorted_wrt spaced es"
      using IH reported(1,2) by (auto simp: es sorted_wrt_append)
    moreover have "2 * Second \<le> Sub t t0"
      if "(t, Discovered d) \<in> set es" "map_of st (dedupKey (dev_Fingerprint d) (dev_Port d)) = Some t0" for t d t0
      using that later reported(1,2,5) by (auto simp: es)
    ultimately show ?thesis by blast
  qed
qed simp

lemma handleConn_events:
  "handleConn my pkts st = (es, st') \<Longrightarrow>
     (\<forall>t d. (t, Discovered d) \<in> set es \<longrightarrow> notSelf my d)
     \<and> (\<forall>t d. (t, AnnounceRequest d) \<in> set es \<longrightarrow> 0 < dev_Port d \<and> (t, Discovered d) \<in> set es)"
proof (induction pkts arbitrary: st es)
  case (Cons p ps)
  obtain now payload src where p: "p = (now, payload, src)" by (cases p) auto
  obtain e1 st1 where h: "handlePacket my now payload src st = (e1, st1)" by force
  obtain e2 where r: "handleConn my ps st1 = (e2, st')" and es: "es = map (Pair now) e1 @ e2"
    using Cons.prems h p by (auto split: prod.splits)
  note IH = Cons.IH [OF r]
  from h show ?case
  proof (cases rule: handlePacket_cases)
    case (reported d rest)
    then show ?thesis using IH by (auto simp: es notSelf_def)
  qed (use IH es in auto)
qed simp

section \<open>Properties\<close>


definition demo_phone :: device where
  "demo_phone = zeroDevice\<lparr>dev_Alias := ''Phone'', dev_Fingerprint := ''fp'', dev_Port := 53317\<rparr>"

definition demo_packet :: "json option" where
  "demo_packet = Some (encodeAnnounce \<lparr>msg_Device = demo_phone, msg_Announce = True\<rparr>)"



definition demo_net :: network where
  "demo_net = \<lparr>net_Resolves = True,
     net_Interfaces = Some [\<lparr>if_Flags = 19, if_Addrs = Some [IPNet [192, 168, 1, 7], IPNet [8, 8, 8, 8]]\<rparr>,
                            \<lparr>if_Flags = 5, if_Addrs = Some [IPNet [127, 0, 0, 1]]\<rparr>],
     net_Dial = (\<lambda>_. True), net_Listen = (\<lambda>_. True),
     net_GOOS = ''linux'', net_ListenPacket = True, net_RawConn = True, net_Membership = (\<lambda>_. True)\<rparr>"


lemma joinGroups_eq:
  "joinGroups join ips e joined = (if ips = [] then e else \<not> join (last ips), joined @ filter join ips)"
  by (induction ips arbitrary: e joined) auto

text \<open>
  The Windows listener reports the error of the last membership call only. It starts
  without having joined any group when the machine has no private address, and it gives up when the
  last interface fails although others joined.
\<close>

lemma windows_join:
  "startWindowsMulticastListener True True join interfaces =
     (let ips = windowsIPs interfaces in
      if ips \<noteq> [] \<and> \<not> join (last ips) then Inl ErrJoin else Inr (filter join ips))"
  by (auto simp: startWindowsMulticastListener_def joinGroups_eq Let_def)

end
