(* ===== verification/Scan.thy ===== *)
theory Scan
  imports Discovery "HOL-Library.Multiset"
begin

text \<open>
  \<open>ScanLegacy\<close> and \<open>scanHost\<close> of \<open>pkg/discovery/discovery.go\<close>: the list of hosts to try, the probe of
  one host, and the goroutines behind the semaphore as a step relation.
\<close>

section \<open>Targets\<close>

type_synonym target = "string \<times> int"

text \<open>Step 1: the conflict ports of the own addresses and of loopback, less the own port.\<close>

definition isSelfTarget :: "device \<Rightarrow> string list \<Rightarrow> string \<Rightarrow> int \<Rightarrow> bool" where
  "isSelfTarget myDevice localIPs ip port \<longleftrightarrow>
     dev_Fingerprint myDevice \<noteq> [] \<and> port = dev_Port myDevice \<and> (ip = ''127.0.0.1'' \<or> isLocalIP ip localIPs)"

definition conflictTargets :: "device \<Rightarrow> string list \<Rightarrow> target list" where
  "conflictTargets myDevice localIPs =
     concat (map (\<lambda>ip. concat (map (\<lambda>port.
       if isSelfTarget myDevice localIPs ip port then [] else [(ip, port)])
       [DefaultPort..DefaultPort + 9])) (localIPs @ [''127.0.0.1'']))"

text \<open>Step 2: the default port on the rest of each local class C subnet.\<close>

definition subnetTargets :: "string list \<Rightarrow> target list" where
  "subnetTargets localIPs =
     concat (map (\<lambda>localIP.
       let parts = Split localIP CHR ''.'' in
       if length parts \<noteq> 4 then []
       else let baseIP = Join (take 3 parts) ''.'' @ ''.'' in
         concat (map (\<lambda>i. let targetIP = baseIP @ Itoa i in
           if isLocalIP targetIP localIPs then [] else [(targetIP, DefaultPort)]) [1..254])) localIPs)"

definition scanTargets :: "device \<Rightarrow> string list \<Rightarrow> target list" where
  "scanTargets myDevice localIPs = conflictTargets myDevice localIPs @ subnetTargets localIPs"

section \<open>One host\<close>

text \<open>
  \<open>http url body\<close> is what the request to \<open>url\<close> came to: nothing (an error or the timeout of half a
  second), or a status and the first JSON value of the answer.
\<close>

type_synonym httpDo = "string \<Rightarrow> json \<Rightarrow> (nat \<times> json option) option"

definition registerURL :: "string \<Rightarrow> string \<Rightarrow> int \<Rightarrow> string" where
  "registerURL proto ip port = proto @ ''://'' @ ip @ '':'' @ Itoa port @ ''/api/localsend/v2/register''"

fun tryProtocols :: "httpDo \<Rightarrow> device \<Rightarrow> string \<Rightarrow> int \<Rightarrow> string list \<Rightarrow> device list" where
  "tryProtocols http myDevice ip port [] = []"
| "tryProtocols http myDevice ip port (proto # protos) =
     (case http (registerURL proto ip port) (encodeDevice myDevice) of
        None \<Rightarrow> tryProtocols http myDevice ip port protos
      | Some (status, body) \<Rightarrow>
          if status = 200 then
            (case Option.bind body decodeDevice of
               None \<Rightarrow> tryProtocols http myDevice ip port protos
             | Some partner \<Rightarrow> [partner\<lparr>dev_IP := ip, dev_Protocol := proto, dev_Port := port\<rparr>])
          else tryProtocols http myDevice ip port protos)"

definition scanHost :: "httpDo \<Rightarrow> device \<Rightarrow> target \<Rightarrow> device list" where
  "scanHost http myDevice t = tryProtocols http myDevice (fst t) (snd t) [''https'', ''http'']"

section \<open>The goroutines\<close>

definition semCapacity :: nat where "semCapacity = 64"

record scan =
  sc_todo :: "target list"
  sc_running :: "target list"
  sc_done :: "target list"
  sc_found :: "device list"

definition ScanLegacy :: "device \<Rightarrow> string list option \<Rightarrow> scan option" where
  "ScanLegacy myDevice localIPs =
     map_option (\<lambda>ips. \<lparr>sc_todo = scanTargets myDevice ips, sc_running = [], sc_done = [], sc_found = []\<rparr>) localIPs"

text \<open>
  The main goroutine takes a slot of the semaphore and starts the next host; a host's goroutine
  reports what it found and gives the slot back. \<open>wg.Wait\<close> returns when no step is left.
\<close>

inductive scan_step :: "httpDo \<Rightarrow> device \<Rightarrow> scan \<Rightarrow> scan \<Rightarrow> bool"
  for http :: httpDo and my :: device
where
  spawn: "length rs < semCapacity \<Longrightarrow>
    scan_step http my \<lparr>sc_todo = t # ts, sc_running = rs, sc_done = ds, sc_found = fs\<rparr>
                      \<lparr>sc_todo = ts, sc_running = rs @ [t], sc_done = ds, sc_found = fs\<rparr>"
| finish: "scan_step http my \<lparr>sc_todo = ts, sc_running = rs1 @ t # rs2, sc_done = ds, sc_found = fs\<rparr>
    \<lparr>sc_todo = ts, sc_running = rs1 @ rs2, sc_done = ds @ [t], sc_found = fs @ scanHost http my t\<rparr>"

inductive_cases scan_stepE: "scan_step http my s s'"

inductive_simps scan_step_idle: "scan_step http my \<lparr>sc_todo = [], sc_running = [], sc_done = ds, sc_found = fs\<rparr> s'"

inductive scan_steps :: "httpDo \<Rightarrow> device \<Rightarrow> nat \<Rightarrow> scan \<Rightarrow> scan \<Rightarrow> bool"
  for http :: httpDo and my :: device
where
  zero: "scan_steps http my 0 s s"
| suc: "scan_steps http my n s s' \<Longrightarrow> scan_step http my s' s'' \<Longrightarrow> scan_steps http my (Suc n) s s''"

definition pending :: "scan \<Rightarrow> nat" where
  "pending s = 2 * length (sc_todo s) + length (sc_running s)"

definition scan_inv :: "httpDo \<Rightarrow> device \<Rightarrow> target list \<Rightarrow> scan \<Rightarrow> bool" where
  "scan_inv http my ts s \<longleftrightarrow>
     length (sc_running s) \<le> semCapacity
     \<and> mset (sc_todo s) + mset (sc_running s) + mset (sc_done s) = mset ts
     \<and> sc_found s = concat (map (scanHost http my) (sc_done s))"

lemma scan_step_inv: "scan_step http my s s' \<Longrightarrow> scan_inv http my ts s \<Longrightarrow> scan_inv http my ts s'"
  by (erule scan_stepE) (auto simp: scan_inv_def)

lemma scan_step_pending: "scan_step http my s s' \<Longrightarrow> pending s = Suc (pending s')"
  by (erule scan_stepE) (auto simp: pending_def)

lemma scan_progress:
  assumes "sc_todo s \<noteq> [] \<or> sc_running s \<noteq> []" "length (sc_running s) \<le> semCapacity"
  shows "\<exists>s'. scan_step http my s s'"
proof -
  obtain ts rs ds fs where s: "s = \<lparr>sc_todo = ts, sc_running = rs, sc_done = ds, sc_found = fs\<rparr>"
    by (cases s) auto
  show ?thesis
  proof (cases rs)
    case Nil
    then obtain t ts' where "ts = t # ts'" using assms(1) s by (cases ts) auto
    then show ?thesis using spawn [of rs http my t ts' ds fs] Nil s by (auto simp: semCapacity_def)
  next
    case (Cons r rs')
    then show ?thesis using finish [of http my ts "[]" r rs' ds fs] s by auto
  qed
qed

lemma scan_steps_inv:
  "scan_steps http my n s s' \<Longrightarrow> scan_inv http my ts s \<Longrightarrow> scan_inv http my ts s' \<and> pending s = pending s' + n"
  by (induction rule: scan_steps.induct) (auto dest: scan_step_inv scan_step_pending)

section \<open>The targets as sets\<close>

lemma dotted4: "dotted [a, b, c, d] = dotted [a, b, c] @ ''.'' @ Itoa (uint d)"
  by (simp add: dotted_def)

lemma subnet_of:
  assumes "localIP = dotted [a, b, c, d]"
  shows "length (Split localIP CHR ''.'') = 4" "Join (take 3 (Split localIP CHR ''.'')) ''.'' = dotted [a, b, c]"
  using assms dotted_parts [of "[a, b, c, d]"] by (simp_all add: dotted_def)

lemma uint_byte: "1 \<le> i \<Longrightarrow> i \<le> 254 \<Longrightarrow> uint (word_of_int i :: byte) = i"
  by (simp add: uint_word_of_int)

lemma conflictTargets_set:
  "set (conflictTargets my localIPs) =
     {(ip, port). (ip \<in> set localIPs \<or> ip = ''127.0.0.1'') \<and> DefaultPort \<le> port \<and> port \<le> DefaultPort + 9
        \<and> \<not> (dev_Fingerprint my \<noteq> [] \<and> port = dev_Port my)}"
  unfolding conflictTargets_def set_concat set_map set_upto
  by (auto simp: isSelfTarget_def isLocalIP_def list_ex_iff split: if_splits)

lemma subnetTargets_set:
  assumes "localIPs = map dotted bs" "\<forall>b \<in> set bs. length b = 4"
  shows "set (subnetTargets localIPs) =
     {(dotted [a, b, c, x], 53317) | a b c d x. [a, b, c, d] \<in> set bs \<and> 1 \<le> x \<and> x \<le> 254
        \<and> dotted [a, b, c, x] \<notin> set localIPs}" (is "_ = ?R")
proof -
  have one: "set (let parts = Split (dotted bb) CHR ''.'' in
       if length parts \<noteq> 4 then []
       else let baseIP = Join (take 3 parts) ''.'' @ ''.'' in
         concat (map (\<lambda>i. let targetIP = baseIP @ Itoa i in
           if isLocalIP targetIP localIPs then [] else [(targetIP, DefaultPort)]) [1..254]))
     = {(dotted [a, b, c, x], 53317) | a b c d x. bb = [a, b, c, d] \<and> 1 \<le> x \<and> x \<le> 254
          \<and> dotted [a, b, c, x] \<notin> set localIPs}" if bb_in: "bb \<in> set bs" for bb
  proof -
    obtain a b c d where bb: "bb = [a, b, c, d]" using assms(2) bb_in length4 [of bb] by blast
    note sn = subnet_of [OF refl, of a b c d]
    have im: "{dotted [a, b, c] @ ''.'' @ Itoa i | i. 1 \<le> i \<and> i \<le> 254}
        = {dotted [a, b, c, x] | x. 1 \<le> x \<and> x \<le> 254}"
    proof (intro set_eqI iffI; clarsimp)
      fix i :: int assume i: "1 \<le> i" "i \<le> 254"
      have "1 \<le> (word_of_int i :: byte)" "(word_of_int i :: byte) \<le> 254"
        using i uint_byte [OF i] by (simp_all add: word_le_def)
      then show "\<exists>x. dotted [a, b, c] @ CHR ''.'' # Itoa i = dotted [a, b, c, x] \<and> 1 \<le> x \<and> x \<le> 254"
        using uint_byte [OF i] dotted4 [of a b c "word_of_int i"]
        by (intro exI [of _ "word_of_int i"]) simp
    next
      fix x :: byte assume "1 \<le> x" "x \<le> 254"
      then show "\<exists>i. dotted [a, b, c, x] = dotted [a, b, c] @ CHR ''.'' # Itoa i \<and> 1 \<le> i \<and> i \<le> 254"
        using dotted4 [of a b c x] by (intro exI [of _ "uint x"]) (simp add: word_le_def)
    qed
    have "set (concat (map (\<lambda>i. let targetIP = (dotted [a, b, c] @ ''.'') @ Itoa i in
           if isLocalIP targetIP localIPs then [] else [(targetIP, DefaultPort)]) [1..254]))
        = (\<lambda>t. (t, 53317)) ` ({dotted [a, b, c] @ ''.'' @ Itoa i | i. 1 \<le> i \<and> i \<le> 254} - set localIPs)"
      by (auto simp: isLocalIP_def list_ex_iff DefaultPort_def Let_def split: if_splits)
    then show ?thesis unfolding bb im Let_def sn by auto
  qed
  have "set (subnetTargets localIPs) = (\<Union>bb \<in> set bs. {(dotted [a, b, c, x], 53317) | a b c d x.
      bb = [a, b, c, d] \<and> 1 \<le> x \<and> x \<le> 254 \<and> dotted [a, b, c, x] \<notin> set localIPs})"
    unfolding subnetTargets_def using one by (simp add: assms(1) cong: SUP_cong)
  also have "\<dots> = ?R" by fast
  finally show ?thesis .
qed

lemma GetLocalIPs_dotted:
  assumes "GetLocalIPs interfaces = Some localIPs"
  obtains bs where "localIPs = map dotted bs" "\<forall>b \<in> set bs. length b = 4 \<and> isPrivateIP b"
proof -
  obtain addrs where "interfaces = Some addrs" using assms by (auto simp: GetLocalIPs_def split: option.splits)
  have "\<exists>bs. localIPs = map dotted bs \<and> (\<forall>b \<in> set bs. length b = 4 \<and> isPrivateIP b)"
    using assms unfolding \<open>interfaces = Some addrs\<close>
  proof (induction addrs arbitrary: localIPs)
    case (Cons a addrs)
    obtain ips where "GetLocalIPs (Some addrs) = Some ips" by (simp add: GetLocalIPs_def)
    moreover then obtain bs where bs: "ips = map dotted bs" "\<forall>b \<in> set bs. length b = 4 \<and> isPrivateIP b"
      using Cons.IH by blast
    ultimately consider "localIPs = ips" | ip b where "To4 ip = Some b" "isPrivateIP ip" "localIPs = dotted b # ips"
      using Cons.prems by (cases a) (auto simp: GetLocalIPs_def ipString_def split: if_splits)
    then show ?case
    proof cases
      case 2
      then have "length b = 4" "isPrivateIP b"
        using To4_length [of ip b] by (simp_all add: isPrivateIP_def To4_def [of b])
      then show ?thesis using 2(3) bs by (intro exI [of _ "b # bs"]) simp
    qed (use bs in blast)
  qed (simp add: GetLocalIPs_def)
  then show ?thesis using that by blast
qed

lemma dotted_mem:
  assumes "localIPs = map dotted bs" "\<forall>b \<in> set bs. length b = 4"
  shows "dotted [a, b, c, d] \<in> set localIPs \<longleftrightarrow> [a, b, c, d] \<in> set bs"
  using assms dotted_inject [of "[a, b, c, d]"] by auto

lemma not_loopback:
  assumes "isPrivateIP [a, b, c, d]"
  shows "''127.0.0.1'' \<noteq> dotted [a, b, c, x]"
proof
  have l: "dotted [127, 0, 0, 1] = ''127.0.0.1''" by code_simp
  assume "''127.0.0.1'' = dotted [a, b, c, x]"
  then have "[127, 0, 0, 1] = [a, b, c, x]" using l by (intro dotted_inject) simp_all
  then show False using assms by (auto simp: isPrivateIP_def To4_def)
qed

lemma scanTargets_length: "length (scanTargets my localIPs) \<le> 264 * length localIPs + 10"
proof -
  have bound: "length (concat (map f xs)) \<le> k * length xs" if "\<And>x. length (f x) \<le> k" for f :: "'a \<Rightarrow> target list" and xs k
  proof (induction xs)
    case (Cons x xs)
    then show ?case using that [of x] by simp
  qed simp
  have "length (concat (map (\<lambda>port. if isSelfTarget my localIPs ip port then [] else [(ip, port)])
      [DefaultPort..DefaultPort + 9])) \<le> 1 * length [DefaultPort..DefaultPort + 9]" for ip
    by (rule bound) simp
  then have "length (conflictTargets my localIPs) \<le> 10 * length (localIPs @ [''127.0.0.1''])"
    unfolding conflictTargets_def by (intro bound) simp
  moreover have sub: "length (concat (map (\<lambda>i. let targetIP = baseIP @ Itoa i in
      if isLocalIP targetIP localIPs then [] else [(targetIP, DefaultPort)]) [1..254])) \<le> 1 * length [1..254::int]" for baseIP
    by (rule bound) (simp add: Let_def)
  have "length (subnetTargets localIPs) \<le> 254 * length localIPs"
    unfolding subnetTargets_def
  proof (rule bound)
    fix localIP
    show "length (let parts = Split localIP CHR ''.'' in
       if length parts \<noteq> 4 then []
       else let baseIP = Join (take 3 parts) ''.'' @ ''.'' in
         concat (map (\<lambda>i. let targetIP = baseIP @ Itoa i in
           if isLocalIP targetIP localIPs then [] else [(targetIP, DefaultPort)]) [1..254])) \<le> 254"
      using sub [of "Join (take 3 (Split localIP CHR ''.'')) ''.'' @ ''.''"]
      by (cases "length (Split localIP CHR ''.'') = 4") (simp_all add: Let_def cong: if_cong)
  qed
  ultimately show ?thesis by (simp add: scanTargets_def)
qed

section \<open>Properties\<close>

text \<open>
  C13: a scan never has more than 64 requests in flight, takes at most two steps per
  target, can always go on while targets are left, and when it cannot go on it has probed every
  target exactly as often as it is listed and reported what these probes found.
\<close>

theorem scan_run:
  assumes start: "ScanLegacy my (Some localIPs) = Some s0" and run: "scan_steps http my n s0 s"
  shows "length (sc_running s) \<le> 64 \<and> n \<le> 2 * length (scanTargets my localIPs)
     \<and> ((\<nexists>s'. scan_step http my s s') \<longleftrightarrow> n = 2 * length (scanTargets my localIPs))
     \<and> ((\<nexists>s'. scan_step http my s s') \<longrightarrow>
          mset (sc_done s) = mset (scanTargets my localIPs)
          \<and> sc_found s = concat (map (scanHost http my) (sc_done s)))"
proof -
  let ?T = "scanTargets my localIPs"
  have s0: "s0 = \<lparr>sc_todo = ?T, sc_running = [], sc_done = [], sc_found = []\<rparr>"
    using start by (simp add: ScanLegacy_def)
  have inv: "scan_inv http my ?T s" and left: "2 * length ?T = pending s + n"
    using scan_steps_inv [OF run, of ?T] s0 by (simp_all add: scan_inv_def pending_def)
  have idle: "(\<nexists>s'. scan_step http my s s') \<longleftrightarrow> pending s = 0"
    using scan_progress [of s http my] scan_step_pending [of http my s] inv
    by (auto simp: pending_def scan_inv_def)
  then show ?thesis using inv left by (auto simp: scan_inv_def pending_def semCapacity_def)
qed

definition demo_http :: httpDo where
  "demo_http url body = (if take 5 url = ''https'' then Some (200, Some (encodeDevice demo_phone)) else None)"

theorem scan_run_witness:
  "\<exists>s. scan_steps demo_http demo_phone 1 (the (ScanLegacy demo_phone (Some []))) s \<and> length (sc_running s) \<le> 64"
proof -
  let ?T = "scanTargets demo_phone []"
  have T: "?T = (''127.0.0.1'', 53318) # tl ?T" by code_simp
  let ?s0 = "\<lparr>sc_todo = ?T, sc_running = [], sc_done = [], sc_found = []\<rparr>"
  have s0: "ScanLegacy demo_phone (Some []) = Some ?s0" by (simp add: ScanLegacy_def)
  have "scan_step demo_http demo_phone ?s0 \<lparr>sc_todo = tl ?T, sc_running = [(''127.0.0.1'', 53318)], sc_done = [], sc_found = []\<rparr>"
    by (subst T) (use spawn [of "[]"] in \<open>simp add: semCapacity_def\<close>)
  from scan_steps.suc [OF scan_steps.zero this]
  obtain s where r: "scan_steps demo_http demo_phone (Suc 0) ?s0 s" by blast
  then show ?thesis using scan_run [OF s0 r] s0 by auto
qed

text \<open>
  C19: with the addresses that \<open>GetLocalIPs\<close> finds, a scan asks the ten conflict ports of
  these addresses and of loopback, and the default port of the 254 hosts of each of their /24
  networks; it never asks the scanning device itself, and it lists at most 264 hosts per address
  and ten for loopback.
\<close>

theorem scan_targets:
  assumes local: "GetLocalIPs interfaces = Some localIPs"
  shows "((ip, port) \<in> set (scanTargets my localIPs) \<longleftrightarrow>
        (ip \<in> set localIPs \<or> ip = ''127.0.0.1'') \<and> DefaultPort \<le> port \<and> port \<le> DefaultPort + 9
          \<and> \<not> (dev_Fingerprint my \<noteq> [] \<and> port = dev_Port my)
        \<or> port = DefaultPort \<and> ip \<notin> set localIPs
          \<and> (\<exists>a b c d x. dotted [a, b, c, d] \<in> set localIPs \<and> ip = dotted [a, b, c, x] \<and> 1 \<le> x \<and> x \<le> 254))
     \<and> (dev_Fingerprint my \<noteq> [] \<and> ip \<in> insert ''127.0.0.1'' (set localIPs)
          \<longrightarrow> (ip, dev_Port my) \<notin> set (scanTargets my localIPs))
     \<and> length (scanTargets my localIPs) \<le> 264 * length localIPs + 10"
proof -
  obtain bs where bs: "localIPs = map dotted bs" "\<forall>b \<in> set bs. length b = 4 \<and> isPrivateIP b"
    using GetLocalIPs_dotted [OF local] by blast
  have four: "\<forall>b \<in> set bs. length b = 4" using bs(2) by blast
  note subnet = subnetTargets_set [OF bs(1) four, folded dotted_mem [OF bs(1) four]]
  have mem: "(ip, port) \<in> set (scanTargets my localIPs) \<longleftrightarrow>
        (ip \<in> set localIPs \<or> ip = ''127.0.0.1'') \<and> DefaultPort \<le> port \<and> port \<le> DefaultPort + 9
          \<and> \<not> (dev_Fingerprint my \<noteq> [] \<and> port = dev_Port my)
        \<or> port = DefaultPort \<and> ip \<notin> set localIPs
          \<and> (\<exists>a b c d x. dotted [a, b, c, d] \<in> set localIPs \<and> ip = dotted [a, b, c, x] \<and> 1 \<le> x \<and> x \<le> 254)" for ip port
    unfolding scanTargets_def set_append Un_iff conflictTargets_set subnet
    by (auto simp: DefaultPort_def)
  have "dotted [a, b, c, x] \<noteq> ''127.0.0.1''" if d: "dotted [a, b, c, d] \<in> set localIPs" for a b c d x
    using not_loopback [of a b c d x] bs(2) d dotted_mem [OF bs(1) four] by fastforce
  then show ?thesis using mem scanTargets_length [of my localIPs] by auto
qed

theorem scan_targets_witness:
  "(''192.168.1.254'', 53317) \<in> set (scanTargets demo_phone [''192.168.1.7''])
     \<and> (''192.168.1.7'', 53317) \<notin> set (scanTargets demo_phone [''192.168.1.7''])"
proof -
  have l: "GetLocalIPs (Some [IPNet [192, 168, 1, 7], IPNet [127, 0, 0, 1]]) = Some [''192.168.1.7'']" by code_simp
  have d: "dotted [192, 168, 1, 7] \<in> set [''192.168.1.7'']" "''192.168.1.254'' = dotted [192, 168, 1, 254]"
    by code_simp+
  have "(254::byte) \<le> 254" "(1::byte) \<le> 254" by simp_all
  then have "\<exists>a b c d x. dotted [a, b, c, d] \<in> set [''192.168.1.7''] \<and> ''192.168.1.254'' = dotted [a, b, c, x] \<and> 1 \<le> x \<and> x \<le> 254"
    using d by blast
  moreover have "(53317::int) = DefaultPort" "''192.168.1.254'' \<notin> set [''192.168.1.7'']" by (simp_all add: DefaultPort_def)
  ultimately have "(''192.168.1.254'', 53317) \<in> set (scanTargets demo_phone [''192.168.1.7''])"
    using scan_targets [OF l, of "''192.168.1.254''" 53317 demo_phone] by blast
  moreover have "(''192.168.1.7'', 53317) \<notin> set (scanTargets demo_phone [''192.168.1.7''])"
    using scan_targets [OF l, of "''192.168.1.7''" 53317 demo_phone] by (simp add: demo_phone_def zeroDevice_def)
  ultimately show ?thesis by blast
qed

end
