(* ===== verification/Mdns.thy ===== *)
theory Mdns
  imports Discovery
begin

text \<open>
  \<open>pkg/discovery/mdns.go\<close>: advertising the device as a DNS-SD service, reading the services of other
  devices, and the start of listeners and advertisers in the three discovery modes. The mDNS
  library is third-party code: whether its calls succeed is an argument, and so is the event it
  delivers for a service.
\<close>

section \<open>The library and the sockets\<close>

type_synonym txtEntry = "string \<times> string"

record serviceInstance =
  svc_Instance :: string
  svc_Service :: string
  svc_Domain :: string
  svc_Host :: string
  svc_Port :: "16 word"
  svc_Text :: "txtEntry list"

text \<open>\<open>ev_Addr\<close> is the text of the address, \<open>None\<close> for the zero \<open>netip.Addr\<close>.\<close>

record serviceEvent =
  ev_Port :: "16 word"
  ev_Text :: "txtEntry list"
  ev_Addr :: "string option"

record mdnsEnv =
  md_Resolves :: bool
  md_ListenPacket :: bool
  md_NewBrowser :: bool
  md_NewAdvertiser :: "serviceInstance \<Rightarrow> bool"

datatype mdnsError = ErrMDNSResolve | ErrMDNSListen | ErrMDNSBrowse | ErrMDNSAdvertise

definition listenMulticastUDP :: "mdnsEnv \<Rightarrow> mdnsError option" where
  "listenMulticastUDP env =
     (if \<not> md_Resolves env then Some ErrMDNSResolve
      else if \<not> md_ListenPacket env then Some ErrMDNSListen else None)"

definition createMulticastConnV4 :: "mdnsEnv \<Rightarrow> mdnsError option" where
  "createMulticastConnV4 env = listenMulticastUDP env"

section \<open>Browsing\<close>

fun txtField :: "device \<Rightarrow> txtEntry \<Rightarrow> device" where
  "txtField dev (k, val) =
     (let key = ToLower k in
      if key = ''alias'' then dev\<lparr>dev_Alias := val\<rparr>
      else if key = ''version'' then dev\<lparr>dev_Version := val\<rparr>
      else if key = ''devicemodel'' then dev\<lparr>dev_DeviceModel := val\<rparr>
      else if key = ''devicetype'' then dev\<lparr>dev_DeviceType := val\<rparr>
      else if key = ''fingerprint'' then dev\<lparr>dev_Fingerprint := val\<rparr>
      else if key = ''protocol'' then dev\<lparr>dev_Protocol := val\<rparr>
      else if key = ''download'' then dev\<lparr>dev_Download := (val = ''true'' \<or> val = ''1'')\<rparr>
      else dev)"

definition parseDeviceFromServiceEvent :: "serviceEvent \<Rightarrow> device" where
  "parseDeviceFromServiceEvent evt =
     (let dev = foldl txtField (zeroDevice\<lparr>dev_Port := uint (ev_Port evt), dev_Protocol := ''https''\<rparr>) (ev_Text evt);
          dev = (case ev_Addr evt of Some a \<Rightarrow> dev\<lparr>dev_IP := a\<rparr> | None \<Rightarrow> dev)
      in if dev_Fingerprint dev = [] \<or> dev_Alias dev = [] then zeroDevice else dev)"

text \<open>The handler given to \<open>OnServiceDiscovered\<close>: the devices it passes to \<open>onDiscover\<close>.\<close>

definition onServiceDiscovered :: "serviceEvent \<Rightarrow> device list" where
  "onServiceDiscovered evt =
     (let dev = parseDeviceFromServiceEvent evt in if dev_Fingerprint dev \<noteq> [] then [dev] else [])"

definition StartMDNSListener :: "mdnsEnv \<Rightarrow> mdnsError option" where
  "StartMDNSListener env =
     (case createMulticastConnV4 env of
        Some err \<Rightarrow> Some err
      | None \<Rightarrow> if \<not> md_NewBrowser env then Some ErrMDNSBrowse else None)"

section \<open>Advertising\<close>

definition instanceName :: "device \<Rightarrow> string" where
  "instanceName d =
     (let name = (if 8 \<le> length (dev_Fingerprint d)
                  then dev_Alias d @ '' ('' @ take 8 (dev_Fingerprint d) @ '')'' else dev_Alias d)
      in if 63 < length name then
           (if 63 < length (dev_Alias d) then take 63 (dev_Alias d) else dev_Alias d)
         else name)"

definition hostName :: "device \<Rightarrow> string" where
  "hostName d =
     (if 8 \<le> length (dev_Fingerprint d) then ''localsend-'' @ take 8 (dev_Fingerprint d) @ ''.local.''
      else ''localsend-device.local.'')"

definition txtEntries :: "device \<Rightarrow> txtEntry list" where
  "txtEntries d =
     [(''alias'', dev_Alias d), (''version'', ProtocolVersion), (''deviceModel'', dev_DeviceModel d),
      (''deviceType'', dev_DeviceType d), (''fingerprint'', dev_Fingerprint d),
      (''protocol'', dev_Protocol d), (''download'', FormatBool (dev_Download d))]"

text \<open>\<open>uint16(myDevice.Port)\<close> keeps the low sixteen bits.\<close>

definition serviceOf :: "device \<Rightarrow> serviceInstance" where
  "serviceOf d =
     \<lparr>svc_Instance = instanceName d, svc_Service = ''_localsend._tcp'', svc_Domain = ''local'',
      svc_Host = hostName d, svc_Port = word_of_int (dev_Port d), svc_Text = txtEntries d\<rparr>"

text \<open>
  The closer of a registration. \<open>mc_done\<close> is its \<open>sync.Once\<close>; the counters say how often each of its
  two resources was closed.
\<close>

record mdnsCloser =
  mc_done :: bool
  mc_server :: nat
  mc_rawConn :: nat

definition CloseMdns :: "bool \<Rightarrow> mdnsCloser \<Rightarrow> bool \<times> mdnsCloser" where
  "CloseMdns rawErr c =
     (if mc_done c then (False, c)
      else (rawErr, c\<lparr>mc_done := True, mc_server := Suc (mc_server c), mc_rawConn := Suc (mc_rawConn c)\<rparr>))"

definition RegisterMDNSService :: "mdnsEnv \<Rightarrow> device \<Rightarrow> mdnsError + serviceInstance \<times> mdnsCloser" where
  "RegisterMDNSService env myDevice =
     (case createMulticastConnV4 env of
        Some err \<Rightarrow> Inl err
      | None \<Rightarrow>
          let svc = serviceOf myDevice in
          if \<not> md_NewAdvertiser env svc then Inl ErrMDNSAdvertise
          else Inr (svc, \<lparr>mc_done = False, mc_server = 0, mc_rawConn = 0\<rparr>))"

record advertisingCloser =
  ac_done :: bool
  ac_mdnsCloser :: "mdnsCloser option"

text \<open>\<open>Close\<close> of the wrapper, and the cancelled context that closes the inner closer on its own.\<close>

definition CloseAdvertising :: "bool \<Rightarrow> advertisingCloser \<Rightarrow> bool \<times> advertisingCloser" where
  "CloseAdvertising rawErr a =
     (if ac_done a then (False, a)
      else let a1 = a\<lparr>ac_done := True\<rparr> in
        case ac_mdnsCloser a1 of
          None \<Rightarrow> (False, a1)
        | Some c \<Rightarrow> let (err, c') = CloseMdns rawErr c in (err, a1\<lparr>ac_mdnsCloser := Some c'\<rparr>))"

definition cancelAdvertising :: "bool \<Rightarrow> advertisingCloser \<Rightarrow> advertisingCloser" where
  "cancelAdvertising rawErr a =
     a\<lparr>ac_mdnsCloser := map_option (\<lambda>c. snd (CloseMdns rawErr c)) (ac_mdnsCloser a)\<rparr>"

section \<open>Discovery modes\<close>

definition DiscoveryModeHybrid :: string where "DiscoveryModeHybrid = ''hybrid''"
definition DiscoveryModeMulticast :: string where "DiscoveryModeMulticast = ''multicast''"
definition DiscoveryModeMDNS :: string where "DiscoveryModeMDNS = ''mdns''"

text \<open>
  The result of \<open>StartListeners\<close>: the errors it reports (\<open>None\<close> for \<open>nil\<close>), the multicast sockets that
  are being read, and whether the mDNS browser runs.
\<close>

definition StartListeners ::
  "network \<Rightarrow> mdnsEnv \<Rightarrow> string \<Rightarrow> (netError + mdnsError) list option \<times> listener list \<times> bool" where
  "StartListeners net env mode =
     (let (errs1, listeners) =
            (if mode = DiscoveryModeHybrid \<or> mode = DiscoveryModeMulticast then
               (case StartMulticastListener net of Inl e \<Rightarrow> ([Inl e], []) | Inr ls \<Rightarrow> ([], ls))
             else ([], []));
          (errs, browsing) =
            (if mode = DiscoveryModeHybrid \<or> mode = DiscoveryModeMDNS then
               (case StartMDNSListener env of Some e \<Rightarrow> (errs1 @ [Inr e], False) | None \<Rightarrow> (errs1, True))
             else (errs1, False))
      in if 0 < length errs then
           (if mode = DiscoveryModeHybrid \<and> length errs < 2 then (None, listeners, browsing)
            else (Some errs, listeners, browsing))
         else (None, listeners, browsing))"

text \<open>\<open>StartAdvertising\<close>: the packets sent, and the error or the closer with the registered service.\<close>

definition StartAdvertising ::
  "network \<Rightarrow> mdnsEnv \<Rightarrow> device \<Rightarrow> string \<Rightarrow> bool
     \<Rightarrow> (goIP option \<times> json) list \<times> (mdnsError + serviceInstance option \<times> advertisingCloser)" where
  "StartAdvertising net env myDevice mode announce =
     (let packets = (if mode = DiscoveryModeHybrid \<or> mode = DiscoveryModeMulticast
                     then (case SendAnnounce net myDevice announce of Inl _ \<Rightarrow> [] | Inr ps \<Rightarrow> ps) else [])
      in if mode = DiscoveryModeHybrid \<or> mode = DiscoveryModeMDNS then
           (case RegisterMDNSService env myDevice of
              Inl err \<Rightarrow> (packets, Inl err)
            | Inr (svc, c) \<Rightarrow> (packets, Inr (Some svc, \<lparr>ac_done = False, ac_mdnsCloser = Some c\<rparr>)))
         else (packets, Inr (None, \<lparr>ac_done = False, ac_mdnsCloser = None\<rparr>)))"

section \<open>Facts\<close>

text \<open>Only the lower-case form of a key matters, as DNS-SD has it.\<close>

lemma foldl_txtField_lower:
  "map (\<lambda>(k, v). (ToLower k, v)) es = map (\<lambda>(k, v). (ToLower k, v)) es' \<Longrightarrow> foldl txtField d es = foldl txtField d es'"
proof (induction es arbitrary: es' d)
  case (Cons e es)
  obtain k v where e: "e = (k, v)" by (cases e)
  obtain k' es2 where es': "es' = (k', v) # es2" "ToLower k' = ToLower k"
    using Cons.prems e by (cases es') auto
  have "txtField d (k, v) = txtField d (k', v)" using es'(2) by simp
  then show ?case using Cons.IH [of es2] Cons.prems es' e by simp
qed simp

lemma ToLower_keys:
  "ToLower ''alias'' = ''alias''" "ToLower ''version'' = ''version''" "ToLower ''deviceModel'' = ''devicemodel''"
  "ToLower ''deviceType'' = ''devicetype''" "ToLower ''fingerprint'' = ''fingerprint''"
  "ToLower ''protocol'' = ''protocol''" "ToLower ''download'' = ''download''"
  by code_simp+

lemma foldl_txtEntries:
  "foldl txtField (zeroDevice\<lparr>dev_Port := p, dev_Protocol := q\<rparr>) (txtEntries d)
     = d\<lparr>dev_Version := ProtocolVersion, dev_Port := p, dev_IP := []\<rparr>"
  by (cases d) (simp add: txtEntries_def ToLower_keys zeroDevice_def FormatBool_def del: ToLower.simps)

lemma instanceName_bound: "length (instanceName d) \<le> 63"
  by (auto simp: instanceName_def Let_def)

text \<open>The closers: an operation is \<open>True\<close> for \<open>Close\<close> and \<open>False\<close> for the cancelled context.\<close>

fun runClosers :: "bool \<Rightarrow> bool list \<Rightarrow> advertisingCloser \<Rightarrow> bool list \<times> advertisingCloser" where
  "runClosers rawErr [] a = ([], a)"
| "runClosers rawErr (True # ops) a =
     (let (err, a1) = CloseAdvertising rawErr a; (errs, a2) = runClosers rawErr ops a1 in (err # errs, a2))"
| "runClosers rawErr (False # ops) a = runClosers rawErr ops (cancelAdvertising rawErr a)"

definition closed_once :: "bool \<Rightarrow> advertisingCloser \<Rightarrow> bool" where
  "closed_once is_done a \<longleftrightarrow>
     (\<exists>c. ac_mdnsCloser a = Some c \<and>
        mc_done c = is_done \<and> mc_server c = (if is_done then 1 else 0) \<and> mc_rawConn c = (if is_done then 1 else 0))"

lemma closed_once_steps:
  "closed_once False a \<Longrightarrow> \<not> ac_done a \<Longrightarrow>
     closed_once True (snd (CloseAdvertising e a)) \<and> fst (CloseAdvertising e a) = e"
  "closed_once True a \<Longrightarrow> closed_once True (snd (CloseAdvertising e a)) \<and> \<not> fst (CloseAdvertising e a)"
  "closed_once b a \<Longrightarrow> closed_once True (cancelAdvertising e a)"
proof -
  assume "closed_once False a" "\<not> ac_done a"
  then obtain c where "ac_mdnsCloser a = Some c" "\<not> mc_done c" "mc_server c = 0" "mc_rawConn c = 0" "\<not> ac_done a"
    by (auto simp: closed_once_def)
  then show "closed_once True (snd (CloseAdvertising e a)) \<and> fst (CloseAdvertising e a) = e"
    by (simp add: closed_once_def CloseAdvertising_def CloseMdns_def)
next
  assume "closed_once True a"
  then obtain c where "ac_mdnsCloser a = Some c" "mc_done c" "mc_server c = 1" "mc_rawConn c = 1"
    by (auto simp: closed_once_def)
  then show "closed_once True (snd (CloseAdvertising e a)) \<and> \<not> fst (CloseAdvertising e a)"
    by (simp add: closed_once_def CloseAdvertising_def CloseMdns_def Let_def)
next
  assume "closed_once b a"
  then obtain c where "ac_mdnsCloser a = Some c" "mc_done c = b" "mc_server c = (if b then 1 else 0)"
      "mc_rawConn c = (if b then 1 else 0)"
    by (auto simp: closed_once_def)
  then show "closed_once True (cancelAdvertising e a)"
    by (cases b) (simp_all add: closed_once_def cancelAdvertising_def CloseMdns_def)
qed

lemma runClosers_done:
  "runClosers e ops a = (errs, a') \<Longrightarrow> closed_once True a \<Longrightarrow> closed_once True a' \<and> True \<notin> set errs"
proof (induction ops arbitrary: a errs)
  case (Cons op ops)
  show ?case
  proof (cases op)
    case True
    then show ?thesis
      using Cons.prems Cons.IH closed_once_steps(2) [OF Cons.prems(2), of e] by (auto split: prod.splits)
  next
    case False
    then show ?thesis using Cons.prems Cons.IH closed_once_steps(3) [OF Cons.prems(2), of e] by auto
  qed
qed simp

section \<open>Properties\<close>

text \<open>
  C15: a browser that is handed the TXT entries (keys in any case) and the port of a
  registered service, with the address it came from, reports the registered device, with the
  version of this program and the port reduced to sixteen bits; the instance name fits a DNS label.
\<close>

theorem mdns_roundtrip:
  assumes reg: "RegisterMDNSService env my = Inr (svc, c)"
    and carried: "map (\<lambda>(k, v). (ToLower k, v)) (ev_Text ev) = map (\<lambda>(k, v). (ToLower k, v)) (svc_Text svc)"
      "ev_Port ev = svc_Port svc" "ev_Addr ev = Some ip"
    and named: "dev_Alias my \<noteq> []" "dev_Fingerprint my \<noteq> []"
  shows "onServiceDiscovered ev
       = [my\<lparr>dev_Version := ProtocolVersion, dev_Port := dev_Port my mod 65536, dev_IP := ip\<rparr>]
     \<and> length (svc_Instance svc) \<le> 63"
proof -
  have svc: "svc = serviceOf my"
    using reg by (auto simp: RegisterMDNSService_def Let_def split: option.splits if_splits)
  have port: "uint (ev_Port ev) = dev_Port my mod 65536"
    using carried(2) svc by (simp add: serviceOf_def uint_word_of_int)
  have "foldl txtField (zeroDevice\<lparr>dev_Port := uint (ev_Port ev), dev_Protocol := ''https''\<rparr>) (ev_Text ev)
      = my\<lparr>dev_Version := ProtocolVersion, dev_Port := dev_Port my mod 65536, dev_IP := []\<rparr>"
    using foldl_txtField_lower [OF carried(1)] svc port by (simp add: serviceOf_def foldl_txtEntries)
  then show ?thesis
    using named carried(3) svc instanceName_bound [of my]
    by (simp add: onServiceDiscovered_def parseDeviceFromServiceEvent_def serviceOf_def)
qed

definition demo_mdns :: mdnsEnv where
  "demo_mdns = \<lparr>md_Resolves = True, md_ListenPacket = True, md_NewBrowser = True, md_NewAdvertiser = (\<lambda>_. True)\<rparr>"

theorem mdns_roundtrip_witness:
  "onServiceDiscovered \<lparr>ev_Port = 53317, ev_Text = (''VENDOR'', ''x'') # [] @ [], ev_Addr = None\<rparr> = []
     \<and> (\<exists>svc c. RegisterMDNSService demo_mdns demo_phone = Inr (svc, c)
        \<and> onServiceDiscovered \<lparr>ev_Port = svc_Port svc, ev_Text = map (\<lambda>(k, v). (ToLower k, v)) (svc_Text svc),
              ev_Addr = Some ''10.0.0.2''\<rparr>
          = [demo_phone\<lparr>dev_Version := ''2.0'', dev_Port := 53317, dev_IP := ''10.0.0.2''\<rparr>])"
proof -
  let ?svc = "serviceOf demo_phone" and ?c = "\<lparr>mc_done = False, mc_server = 0, mc_rawConn = 0\<rparr>"
  let ?ev = "\<lparr>ev_Port = svc_Port ?svc, ev_Text = map (\<lambda>(k, v). (ToLower k, v)) (svc_Text ?svc), ev_Addr = Some ''10.0.0.2''\<rparr>"
  have reg: "RegisterMDNSService demo_mdns demo_phone = Inr (?svc, ?c)"
    by (simp add: RegisterMDNSService_def demo_mdns_def createMulticastConnV4_def listenMulticastUDP_def)
  have lower: "map (\<lambda>(k, v). (ToLower k, v)) (ev_Text ?ev) = map (\<lambda>(k, v). (ToLower k, v)) (svc_Text ?svc)"
    by code_simp
  have "onServiceDiscovered ?ev = [demo_phone\<lparr>dev_Version := ProtocolVersion, dev_Port := 53317, dev_IP := ''10.0.0.2''\<rparr>]"
    using mdns_roundtrip [OF reg lower, of "''10.0.0.2''"] by (simp add: demo_phone_def)
  moreover have "onServiceDiscovered \<lparr>ev_Port = 53317, ev_Text = (''VENDOR'', ''x'') # [] @ [], ev_Addr = None\<rparr> = []"
    by code_simp
  ultimately show ?thesis using reg by (auto simp: ProtocolVersion_def)
qed

text \<open>
  C34: listeners start without an error exactly when something listens afterwards or the
  mode is none of the three; in hybrid mode one of the two protocols is enough. Advertising in
  hybrid mode fails whenever the mDNS registration fails, although the announcement was sent.
\<close>

theorem listeners_start:
  "(case StartListeners net env mode of (err, listeners, browsing) \<Rightarrow>
      (err = None \<longleftrightarrow> listeners \<noteq> [] \<or> browsing
         \<or> mode \<notin> {DiscoveryModeHybrid, DiscoveryModeMulticast, DiscoveryModeMDNS})
      \<and> (listeners \<noteq> [] \<longleftrightarrow> mode \<in> {DiscoveryModeHybrid, DiscoveryModeMulticast}
            \<and> (\<exists>ls. StartMulticastListener net = Inr ls))
      \<and> (browsing \<longleftrightarrow> mode \<in> {DiscoveryModeHybrid, DiscoveryModeMDNS} \<and> StartMDNSListener env = None))
   \<and> ((\<exists>err. snd (StartAdvertising net env my mode announce) = Inl err) \<longleftrightarrow>
        mode \<in> {DiscoveryModeHybrid, DiscoveryModeMDNS} \<and> (\<exists>err. RegisterMDNSService env my = Inl err))
   \<and> (fst (StartAdvertising net env my mode announce) \<noteq> [] \<longleftrightarrow>
        mode \<in> {DiscoveryModeHybrid, DiscoveryModeMulticast}
        \<and> (\<exists>p ps. SendAnnounce net my announce = Inr (p # ps)))"
proof -
  have ne: "ls \<noteq> []" if "StartMulticastListener net = Inr ls" for ls
    using that by (auto simp: StartMulticastListener_def Let_def split: if_splits option.splits sum.splits
        simp del: append_is_Nil_conv concat_eq_Nil_conv)
  have modes: "DiscoveryModeHybrid \<noteq> DiscoveryModeMulticast" "DiscoveryModeHybrid \<noteq> DiscoveryModeMDNS"
      "DiscoveryModeMulticast \<noteq> DiscoveryModeMDNS"
    by (simp_all add: DiscoveryModeHybrid_def DiscoveryModeMulticast_def DiscoveryModeMDNS_def)
  show ?thesis
    using modes ne
    by (auto simp: StartListeners_def StartAdvertising_def Let_def neq_Nil_conv split: sum.splits option.splits)
qed

theorem listeners_start_witness:
  "(case StartListeners (demo_net\<lparr>net_Resolves := False\<rparr>) demo_mdns DiscoveryModeHybrid of
      (err, listeners, browsing) \<Rightarrow> err = None \<and> listeners = [] \<and> browsing)
   \<and> fst (StartListeners (demo_net\<lparr>net_Resolves := False\<rparr>) demo_mdns DiscoveryModeMulticast) \<noteq> None"
proof -
  let ?net = "demo_net\<lparr>net_Resolves := False\<rparr>"
  have "\<nexists>ls. StartMulticastListener ?net = Inr ls" "StartMDNSListener demo_mdns = None"
      "DiscoveryModeMulticast \<noteq> DiscoveryModeHybrid" "DiscoveryModeMulticast \<noteq> DiscoveryModeMDNS"
    by (simp_all add: StartMulticastListener_def StartMDNSListener_def demo_mdns_def createMulticastConnV4_def
        listenMulticastUDP_def DiscoveryModeHybrid_def DiscoveryModeMulticast_def DiscoveryModeMDNS_def)
  moreover obtain e1 l1 b1 e2 l2 b2 where
      "StartListeners ?net demo_mdns DiscoveryModeHybrid = (e1, l1, b1)"
      "StartListeners ?net demo_mdns DiscoveryModeMulticast = (e2, l2, b2)"
    by (metis surj_pair)
  ultimately show ?thesis
    using listeners_start [where net = ?net and env = demo_mdns and mode = DiscoveryModeHybrid]
      listeners_start [where net = ?net and env = demo_mdns and mode = DiscoveryModeMulticast]
    by simp
qed

text \<open>
  C38: however often and in whatever order the caller closes the advertiser and the
  context is cancelled, the mDNS server and its socket are closed exactly once, and at most one
  \<open>Close\<close> reports an error.
\<close>

theorem advertising_close:
  assumes start: "snd (StartAdvertising net env my mode announce) = Inr (Some svc, a)"
    and ops: "ops \<noteq> []" and run: "runClosers rawErr ops a = (errs, a')"
  shows "(\<exists>c. ac_mdnsCloser a' = Some c \<and> mc_server c = 1 \<and> mc_rawConn c = 1)
     \<and> (errs = [] \<or> True \<notin> set (tl errs)) \<and> (rawErr \<or> True \<notin> set errs)"
proof -
  have fresh: "closed_once False a" "\<not> ac_done a"
    using start by (auto simp: StartAdvertising_def RegisterMDNSService_def closed_once_def Let_def
        split: if_splits sum.splits option.splits)
  obtain op rest where ops': "ops = op # rest" using ops by (cases ops) auto
  have "closed_once True a' \<and> (errs = [] \<or> True \<notin> set (tl errs)) \<and> (rawErr \<or> True \<notin> set errs)"
  proof (cases op)
    case True
    obtain err a1 where c: "CloseAdvertising rawErr a = (err, a1)" by force
    obtain rs where r: "runClosers rawErr rest a1 = (rs, a')" "errs = err # rs"
      using run ops' True c by (auto split: prod.splits)
    show ?thesis using closed_once_steps(1) [OF fresh, of rawErr] runClosers_done [OF r(1)] c r(2) by auto
  next
    case False
    then have r: "runClosers rawErr rest (cancelAdvertising rawErr a) = (errs, a')" using run ops' by simp
    have "True \<notin> set errs" using runClosers_done [OF r] closed_once_steps(3) [OF fresh(1)] by blast
    then show ?thesis
      using runClosers_done [OF r] closed_once_steps(3) [OF fresh(1)] by (cases errs) auto
  qed
  then show ?thesis by (auto simp: closed_once_def)
qed

theorem advertising_close_witness:
  "\<exists>a' errs c. runClosers True [True, False, True] (\<lparr>ac_done = False,
        ac_mdnsCloser = Some \<lparr>mc_done = False, mc_server = 0, mc_rawConn = 0\<rparr>\<rparr>) = (errs, a')
     \<and> ac_mdnsCloser a' = Some c \<and> mc_server c = 1 \<and> mc_rawConn c = 1"
proof -
  let ?a = "\<lparr>ac_done = False, ac_mdnsCloser = Some \<lparr>mc_done = False, mc_server = 0, mc_rawConn = 0\<rparr>\<rparr>"
  have s: "snd (StartAdvertising demo_net demo_mdns demo_phone DiscoveryModeMDNS True) = Inr (Some (serviceOf demo_phone), ?a)"
    by (simp add: StartAdvertising_def RegisterMDNSService_def demo_mdns_def createMulticastConnV4_def
        listenMulticastUDP_def Let_def)
  obtain errs a' where r: "runClosers True [True, False, True] ?a = (errs, a')" by force
  show ?thesis using advertising_close [OF s _ r] r by blast
qed

end
