(* ===== verification/I18n.thy ===== *)
theory I18n
  imports GoStrings "HOL-Library.Word"
begin

text \<open>
  \<open>internal/i18n\<close>: the language of the messages and their lookup. The two embedded JSON files are an
  argument (\<open>None\<close> for a file that is missing or does not decode), and so are the environment
  variables and the language of the Windows user interface.
\<close>

unbundle bit_operations_syntax

section \<open>Language\<close>

type_synonym catalog = "(string \<times> string gomap) list"

record i18n =
  i18n_currentLang :: string
  i18n_translations :: catalog

definition loadTranslations :: "(string \<Rightarrow> string gomap option) \<Rightarrow> string \<Rightarrow> catalog \<Rightarrow> catalog" where
  "loadTranslations localesFS lang tr =
     (case localesFS (lang @ ''.json'') of None \<Rightarrow> tr | Some m \<Rightarrow> AList.update lang m tr)"

text \<open>The loop over the variables: \<open>Some lang\<close> when it returns, \<open>None\<close> when it runs out.\<close>

fun detectEnv :: "(string \<Rightarrow> string) \<Rightarrow> string list \<Rightarrow> string option" where
  "detectEnv getenv [] = None"
| "detectEnv getenv (env # envs) =
     (let val = getenv env in
      if val \<noteq> [] then
        (if HasPrefix (ToLower val) ''ja'' then Some ''ja''
         else if HasPrefix (ToLower val) ''en'' then Some ''en''
         else detectEnv getenv envs)
      else detectEnv getenv envs)"

definition detectLanguage :: "(string \<Rightarrow> string) \<Rightarrow> string \<Rightarrow> i18n \<Rightarrow> i18n" where
  "detectLanguage getenv sysLocale st =
     (case detectEnv getenv [''LC_ALL'', ''LC_MESSAGES'', ''LANG''] of
        Some lang \<Rightarrow> st\<lparr>i18n_currentLang := lang\<rparr>
      | None \<Rightarrow> if sysLocale = ''ja'' then st\<lparr>i18n_currentLang := ''ja''\<rparr> else st\<lparr>i18n_currentLang := ''en''\<rparr>)"

text \<open>\<open>r\<close> is the answer of \<open>GetUserDefaultUILanguage\<close>; other systems have no such call.\<close>

definition sysLocale_windows :: "64 word \<Rightarrow> string" where
  "sysLocale_windows r = (if r = 0 then [] else if r AND 0x03FF = 0x11 then ''ja'' else ''en'')"

definition sysLocale_other :: string where
  "sysLocale_other = []"

definition init :: "(string \<Rightarrow> string gomap option) \<Rightarrow> (string \<Rightarrow> string) \<Rightarrow> string \<Rightarrow> i18n" where
  "init localesFS getenv sysLocale =
     detectLanguage getenv sysLocale
       \<lparr>i18n_currentLang = ''en'',
        i18n_translations = loadTranslations localesFS ''ja'' (loadTranslations localesFS ''en'' [])\<rparr>"

definition SetLanguage :: "string \<Rightarrow> i18n \<Rightarrow> i18n" where
  "SetLanguage lang st =
     (let lang = ToLower lang in
      if lang = ''ja'' \<or> lang = ''en'' then st\<lparr>i18n_currentLang := lang\<rparr> else st)"

definition GetLanguage :: "i18n \<Rightarrow> string" where
  "GetLanguage st = i18n_currentLang st"

section \<open>Templates\<close>

text \<open>
  The part of \<open>html/template\<close> the messages use: text, and actions of the form \<open>{{.Name}}\<close>. Anything
  else between double braces counts as a template that does not parse.
\<close>

datatype segment = Text string | Field string

definition isIdent :: "char \<Rightarrow> bool" where
  "isIdent c \<longleftrightarrow> (97 \<le> ord c \<and> ord c \<le> 122) \<or> (65 \<le> ord c \<and> ord c \<le> 90) \<or> isDigit c \<or> c = CHR ''_''"

definition textThen :: "char \<Rightarrow> segment list \<Rightarrow> segment list" where
  "textThen c segs = (case segs of Text t # rest \<Rightarrow> Text (c # t) # rest | _ \<Rightarrow> Text [c] # segs)"

function parseTemplate :: "string \<Rightarrow> segment list option" where
  "parseTemplate [] = Some []"
| "parseTemplate (c # cs) =
     (if c = CHR ''{'' \<and> take 1 cs = ''{'' then
        (let action = drop 1 cs; name = takeWhile isIdent (drop 1 action) in
         if take 1 action = ''.'' \<and> name \<noteq> [] \<and> take 2 (drop (Suc (length name)) action) = ''}}''
         then map_option (Cons (Field name)) (parseTemplate (drop (length name + 3) action))
         else None)
      else map_option (textThen c) (parseTemplate cs))"
  by pat_completeness auto
termination by (relation "measure length") auto

fun htmlEscape :: "string \<Rightarrow> string" where
  "htmlEscape [] = []"
| "htmlEscape (c # cs) =
     (if c = CHR 0x00 then [CHR 0xEF, CHR 0xBF, CHR 0xBD]
      else if c = CHR 0x22 then ''&#34;''
      else if c = CHR ''&'' then ''&amp;''
      else if c = CHR 0x27 then ''&#39;''
      else if c = CHR ''+'' then ''&#43;''
      else if c = CHR ''<'' then ''&lt;''
      else if c = CHR ''>'' then ''&gt;''
      else [c]) @ htmlEscape cs"

text \<open>The values are the texts that \<open>fmt\<close> prints for them; a missing one prints as nothing.\<close>

definition execute :: "segment list \<Rightarrow> string gomap \<Rightarrow> string" where
  "execute segs args =
     concat (map (\<lambda>s. case s of
        Text t \<Rightarrow> t
      | Field name \<Rightarrow> (case map_of args name of Some v \<Rightarrow> htmlEscape v | None \<Rightarrow> [])) segs)"

definition T :: "i18n \<Rightarrow> string \<Rightarrow> string gomap option \<Rightarrow> string" where
  "T st key args =
     (let en = (case map_of (i18n_translations st) ''en'' of Some m \<Rightarrow> m | None \<Rightarrow> []);
          langTranslations = (case map_of (i18n_translations st) (i18n_currentLang st) of Some m \<Rightarrow> m | None \<Rightarrow> en);
          found = (case map_of langTranslations key of Some msg \<Rightarrow> Some msg | None \<Rightarrow> map_of en key)
      in case found of
           None \<Rightarrow> key
         | Some msg \<Rightarrow>
             (case args of
                None \<Rightarrow> msg
              | Some as \<Rightarrow> (case parseTemplate msg of None \<Rightarrow> msg | Some segs \<Rightarrow> execute segs as)))"

section \<open>Facts\<close>

text \<open>The template text of a list of segments.\<close>

fun printSegment :: "segment \<Rightarrow> string" where
  "printSegment (Text t) = t"
| "printSegment (Field name) = ''{{.'' @ name @ ''}}''"

text \<open>Segments as the parser returns them: texts without a brace, not next to each other, and names.\<close>

fun canonical :: "segment list \<Rightarrow> bool" where
  "canonical [] = True"
| "canonical (Text t # rest) \<longleftrightarrow>
     t \<noteq> [] \<and> CHR ''{'' \<notin> set t \<and> (case rest of Text _ # _ \<Rightarrow> False | _ \<Rightarrow> True) \<and> canonical rest"
| "canonical (Field name # rest) \<longleftrightarrow> name \<noteq> [] \<and> list_all isIdent name \<and> canonical rest"

lemma brace_not_ident: "\<not> isIdent (CHR ''}'')"
  by (simp add: isIdent_def isDigit_def)

lemma parse_text:
  "CHR ''{'' \<notin> set t \<Longrightarrow> parseTemplate s = Some segs \<Longrightarrow> (case segs of Text _ # _ \<Rightarrow> False | _ \<Rightarrow> True) \<Longrightarrow> t \<noteq> [] \<Longrightarrow>
     parseTemplate (t @ s) = Some (Text t # segs)"
proof (induction t)
  case (Cons c t)
  show ?case
  proof (cases t)
    case Nil
    then show ?thesis using Cons.prems by (cases segs) (auto simp: textThen_def split: segment.splits)
  next
    case (Cons d t')
    then show ?thesis using Cons.IH Cons.prems by (auto simp: textThen_def)
  qed
qed simp

lemma parse_field:
  assumes "name \<noteq> []" "list_all isIdent name"
  shows "parseTemplate (''{{.'' @ name @ ''}}'' @ s) = map_option (Cons (Field name)) (parseTemplate s)"
proof -
  have "takeWhile isIdent (name @ CHR ''}'' # CHR ''}'' # s) = name"
    using assms(2) brace_not_ident by (simp add: takeWhile_append list_all_iff)
  moreover have "drop (length name + 3) (CHR ''.'' # name @ CHR ''}'' # CHR ''}'' # s) = s"
    by (simp add: eval_nat_numeral)
  ultimately show ?thesis using assms(1) by simp
qed

lemma parseTemplate_print: "canonical segs \<Longrightarrow> parseTemplate (concat (map printSegment segs)) = Some segs"
proof (induction segs rule: canonical.induct)
  case (2 t rest)
  then show ?case using parse_text [of t "concat (map printSegment rest)" rest] by simp
next
  case (3 name rest)
  then show ?case using parse_field [of name "concat (map printSegment rest)"] by simp
qed simp

lemma detectEnv_find:
  "detectEnv getenv envs =
     map_option (\<lambda>env. if HasPrefix (ToLower (getenv env)) ''ja'' then ''ja'' else ''en'')
       (find (\<lambda>env. HasPrefix (ToLower (getenv env)) ''ja'' \<or> HasPrefix (ToLower (getenv env)) ''en'') envs)"
  by (induction envs) (auto simp: Let_def HasPrefix_def)

section \<open>Properties\<close>

text \<open>
  C39: a message is looked up in the current language, then in English, and is the key
  itself when neither has it; its placeholders are replaced by the HTML-escaped values; and the
  current language is that of the first variable that begins with a known language, else that of
  the system, unless a known language was set.
\<close>

theorem translation:
  assumes msg: "canonical segs"
    and lang: "st = SetLanguage l (init localesFS getenv sysLocale)"
    and tables: "localesFS ''en.json'' = Some en" "localesFS ''ja.json'' = Some ja"
    and entry: "map_of (if GetLanguage st = ''ja'' then ja else en) key = Some (concat (map printSegment segs))
       \<or> (map_of (if GetLanguage st = ''ja'' then ja else en) key = None
          \<and> map_of en key = Some (concat (map printSegment segs)))"
  shows "T st key (Some args) = execute segs args
     \<and> T st key None = concat (map printSegment segs)
     \<and> GetLanguage st =
        (if ToLower l \<in> {''en'', ''ja''} then ToLower l
         else case find (\<lambda>env. HasPrefix (ToLower (getenv env)) ''ja'' \<or> HasPrefix (ToLower (getenv env)) ''en'')
                [''LC_ALL'', ''LC_MESSAGES'', ''LANG''] of
              Some env \<Rightarrow> if HasPrefix (ToLower (getenv env)) ''ja'' then ''ja'' else ''en''
            | None \<Rightarrow> if sysLocale = ''ja'' then ''ja'' else ''en'')"
proof -
  have cur: "GetLanguage st =
        (if ToLower l \<in> {''en'', ''ja''} then ToLower l
         else case find (\<lambda>env. HasPrefix (ToLower (getenv env)) ''ja'' \<or> HasPrefix (ToLower (getenv env)) ''en'')
                [''LC_ALL'', ''LC_MESSAGES'', ''LANG''] of
              Some env \<Rightarrow> if HasPrefix (ToLower (getenv env)) ''ja'' then ''ja'' else ''en''
            | None \<Rightarrow> if sysLocale = ''ja'' then ''ja'' else ''en'')"
    unfolding lang by (auto simp: GetLanguage_def SetLanguage_def init_def detectLanguage_def detectEnv_find Let_def
        simp del: find.simps split: option.splits)
  have "i18n_translations st = [(''en'', en), (''ja'', ja)]"
    using tables unfolding lang
    by (auto simp: SetLanguage_def init_def detectLanguage_def loadTranslations_def Let_def split: option.splits)
  moreover have "GetLanguage st = ''ja'' \<or> GetLanguage st = ''en''"
    unfolding cur by (auto split: option.splits)
  ultimately have "T st key None = concat (map printSegment segs)"
      "T st key (Some args) = execute segs args"
    using entry parseTemplate_print [OF msg] by (auto simp: T_def GetLanguage_def Let_def)
  then show ?thesis using cur by blast
qed

theorem translation_witness:
  "T (SetLanguage ''EN'' (init (\<lambda>_. Some [(''port'', ''Port {{.Port}} of {{.Alias}}'')]) (\<lambda>_. ''ja_JP.UTF-8'') []))
     ''port'' (Some [(''Port'', ''53317''), (''Alias'', ''O'' @ [CHR 0x27] @ ''Hara'')])
   = ''Port 53317 of O&#39;Hara''"
proof -
  let ?segs = "[Text ''Port '', Field ''Port'', Text '' of '', Field ''Alias'']"
  let ?files = "\<lambda>f::string. Some [(''port'', ''Port {{.Port}} of {{.Alias}}'')]"
  have c: "canonical ?segs" by code_simp
  have p: "concat (map printSegment ?segs) = ''Port {{.Port}} of {{.Alias}}''" by code_simp
  have "map_of (if b then [(''port'', ''Port {{.Port}} of {{.Alias}}'')] else [(''port'', ''Port {{.Port}} of {{.Alias}}'')])
      ''port'' = Some (concat (map printSegment ?segs))" for b
    unfolding p by simp
  then have "T (SetLanguage ''EN'' (init ?files (\<lambda>_. ''ja_JP.UTF-8'') []))
     ''port'' (Some [(''Port'', ''53317''), (''Alias'', ''O'' @ [CHR 0x27] @ ''Hara'')])
     = execute ?segs [(''Port'', ''53317''), (''Alias'', ''O'' @ [CHR 0x27] @ ''Hara'')]"
    using translation [OF c refl, of ?files "[(''port'', ''Port {{.Port}} of {{.Alias}}'')]"
        "[(''port'', ''Port {{.Port}} of {{.Alias}}'')]" "''EN''" "\<lambda>_. ''ja_JP.UTF-8''" "[]" "''port''"] by simp
  also have "\<dots> = ''Port 53317 of O&#39;Hara''" by code_simp
  finally show ?thesis .
qed

end
