(* ===== verification/Client.thy ===== *)
theory Client
  imports Http Crypto
begin

text \<open>
  \<open>pkg/client/client.go\<close>: the sending client. The connection to the peer is a record of two functions
  over a state \<open>'w\<close> the client cannot see into (the network and the peer): whether a request for a
  URL can be made, and what \<open>httpClient.Do\<close> comes to.
\<close>

section \<open>Sources, requests, connection\<close>

text \<open>\<open>src_Open\<close> is what \<open>Open\<close> and the reader it returns yield: \<open>None\<close> when the file cannot be opened.\<close>

record sendFileSource =
  src_ID :: string
  src_FileName :: string
  src_Size :: int
  src_FileType :: string
  src_Sha256 :: string
  src_Preview :: string
  src_Open :: "string option"

datatype requestBody = EmptyBody | JsonText json | FileBody int string   \<comment> \<open>content length and bytes\<close>

record clientRequest =
  cq_Method :: string
  cq_URL :: string
  cq_Body :: requestBody

text \<open>\<open>cr_TLS\<close> holds the certificates of the peer, \<open>None\<close> on a plain connection.\<close>

record clientResponse =
  cr_Status :: nat
  cr_TLS :: "string list option"
  cr_Json :: "json option"

text \<open>
  \<open>tr_Do\<close> also returns the sizes of the reads it made from the body, for the progress callback.
\<close>

record 'w transport =
  tr_NewRequest :: "string \<Rightarrow> string \<Rightarrow> bool"
  tr_Do :: "clientRequest \<Rightarrow> 'w \<Rightarrow> (clientResponse option \<times> nat list) \<times> 'w"

section \<open>Errors\<close>

datatype verifyError = NoPeerCertificate | FingerprintMismatch string string

datatype clientError =
    CreateFailed | ExecuteFailed | VerifyFailed verifyError | StatusFailed nat | DecodeFailed
  | OpenFailed | NotAccepted | UploadFailed protoError | Proto protoError
  | TransferFailed string clientError

record sendResult =
  res_FileID :: string
  res_Err :: "clientError option"

section \<open>Progress\<close>

record progressReader =
  pr_fileID :: string
  pr_total :: int
  pr_current :: int

text \<open>One \<open>Read\<close> that the wrapped reader answers with \<open>n\<close> bytes: the callback it makes, if any.\<close>

definition progressRead :: "nat \<Rightarrow> progressReader \<Rightarrow> (string \<times> int) list \<times> progressReader" where
  "progressRead n pr =
     (if 0 < n then
        let pr' = pr\<lparr>pr_current := pr_current pr + int n\<rparr>
        in ([(pr_fileID pr', pr_current pr')], pr')
      else ([], pr))"

fun progressReads :: "nat list \<Rightarrow> progressReader \<Rightarrow> (string \<times> int) list" where
  "progressReads [] pr = []"
| "progressReads (n # ns) pr = (case progressRead n pr of (es, pr') \<Rightarrow> es @ progressReads ns pr')"

section \<open>The client\<close>

record tlsConfig =
  tc_Certificates :: "string list"
  tc_InsecureSkipVerify :: bool
  tc_RootCAs :: "string option"

text \<open>Redirects are never followed: \<open>CheckRedirect\<close> returns the response of the peer as it is.\<close>

record client =
  cli_myDevice :: device
  cli_tls :: tlsConfig
  cli_proxy :: "string option"
  cli_insecure :: bool

datatype newClientError = ReadCAFailed os_error | AppendCAFailed | InvalidProxy

definition NewClient ::
  "(string \<Rightarrow> bool) \<Rightarrow> (string \<Rightarrow> bool) \<Rightarrow> fsys \<Rightarrow> device \<Rightarrow> string option \<Rightarrow> string \<Rightarrow> bool \<Rightarrow> string
     \<Rightarrow> newClientError + client" where
  "NewClient appendCertsFromPEM parsesURL fs myDevice clientCert proxyURL insecure caPath =
     (let conf = \<lparr>tc_Certificates = (case clientCert of None \<Rightarrow> [] | Some cert \<Rightarrow> [cert]),
                  tc_InsecureSkipVerify = (insecure \<or> caPath = []), tc_RootCAs = None\<rparr>;
          withCA = (if caPath \<noteq> [] then
                      (case ReadFile fs caPath of
                         Inl e \<Rightarrow> Inl (ReadCAFailed e)
                       | Inr caCert \<Rightarrow>
                           if \<not> appendCertsFromPEM caCert then Inl AppendCAFailed
                           else Inr (conf\<lparr>tc_RootCAs := Some caCert\<rparr>))
                    else Inr conf)
      in case withCA of
           Inl e \<Rightarrow> Inl e
         | Inr conf' \<Rightarrow>
             if proxyURL \<noteq> [] \<and> \<not> parsesURL proxyURL then Inl InvalidProxy
             else Inr \<lparr>cli_myDevice = myDevice, cli_tls = conf',
                       cli_proxy = (if proxyURL \<noteq> [] then Some proxyURL else None), cli_insecure = insecure\<rparr>)"

definition verifyPeerFingerprint :: "client \<Rightarrow> clientResponse \<Rightarrow> string \<Rightarrow> verifyError option" where
  "verifyPeerFingerprint c resp expectedFingerprint =
     (if cli_insecure c then None
      else case cr_TLS resp of
        None \<Rightarrow> None
      | Some certs \<Rightarrow>
          if expectedFingerprint = [] then None
          else (case certs of
                  [] \<Rightarrow> Some NoPeerCertificate
                | peerCert # _ \<Rightarrow>
                    let actualFingerprint = CalculateFingerprint peerCert in
                    if actualFingerprint \<noteq> expectedFingerprint
                    then Some (FingerprintMismatch expectedFingerprint actualFingerprint)
                    else None))"

section \<open>Requests\<close>

definition apiURL :: "device \<Rightarrow> string \<Rightarrow> string" where
  "apiURL target rest =
     dev_Protocol target @ ''://'' @ dev_IP target @ '':'' @ Itoa (dev_Port target) @ ''/api/localsend/v2/'' @ rest"

definition prepareURL :: "device \<Rightarrow> string \<Rightarrow> string" where
  "prepareURL target pin = apiURL target ''prepare-upload'' @ (if pin \<noteq> [] then ''?pin='' @ pin else [])"

definition uploadURL :: "device \<Rightarrow> string \<Rightarrow> string \<Rightarrow> string \<Rightarrow> string" where
  "uploadURL target sessionID fileID token =
     apiURL target ''upload?sessionId='' @ sessionID @ ''&fileId='' @ fileID @ ''&token='' @ token"

definition cancelURL :: "device \<Rightarrow> string \<Rightarrow> string" where
  "cancelURL target sessionID = apiURL target ''cancel?sessionId='' @ sessionID"

text \<open>\<open>NewRequest\<close> followed by \<open>Do\<close>, as every operation has it: the reads are kept on an answer too.\<close>

definition exchange :: "'w transport \<Rightarrow> clientRequest \<Rightarrow> 'w \<Rightarrow> (clientError + clientResponse) \<times> nat list \<times> 'w" where
  "exchange tr req w =
     (if \<not> tr_NewRequest tr (cq_Method req) (cq_URL req) then (Inl CreateFailed, [], w)
      else case tr_Do tr req w of
             ((None, reads), w') \<Rightarrow> (Inl ExecuteFailed, reads, w')
           | ((Some resp, reads), w') \<Rightarrow> (Inr resp, reads, w'))"

definition cancelSession :: "'w transport \<Rightarrow> device \<Rightarrow> string \<Rightarrow> 'w \<Rightarrow> 'w" where
  "cancelSession tr target sessionID w =
     snd (snd (exchange tr \<lparr>cq_Method = MethodPost, cq_URL = cancelURL target sessionID, cq_Body = EmptyBody\<rparr> w))"

section \<open>Register\<close>

definition Register :: "client \<Rightarrow> 'w transport \<Rightarrow> device \<Rightarrow> 'w \<Rightarrow> (clientError + device) \<times> 'w" where
  "Register c tr target w =
     (case exchange tr \<lparr>cq_Method = MethodPost, cq_URL = apiURL target ''register'',
                        cq_Body = JsonText (encodeDevice (cli_myDevice c))\<rparr> w of
        (Inl err, _, w') \<Rightarrow> (Inl err, w')
      | (Inr resp, _, w') \<Rightarrow>
          (case verifyPeerFingerprint c resp (dev_Fingerprint target) of
             Some e \<Rightarrow> (Inl (VerifyFailed e), w')
           | None \<Rightarrow>
               if cr_Status resp \<noteq> StatusOK then (Inl (StatusFailed (cr_Status resp)), w')
               else (case Option.bind (cr_Json resp) decodeDevice of
                       None \<Rightarrow> (Inl DecodeFailed, w')
                     | Some partner0 \<Rightarrow>
                         let partner = partner0\<lparr>dev_IP := dev_IP target\<rparr>;
                             partner = (if dev_Port partner = 0 then partner\<lparr>dev_Port := dev_Port target\<rparr> else partner);
                             partner = (if dev_Protocol partner = []
                                        then partner\<lparr>dev_Protocol := dev_Protocol target\<rparr> else partner)
                         in (Inr partner, w'))))"

section \<open>Sending files\<close>

definition uploadFile ::
  "client \<Rightarrow> 'w transport \<Rightarrow> device \<Rightarrow> string \<Rightarrow> sendFileSource \<Rightarrow> string \<Rightarrow> 'w
     \<Rightarrow> clientError option \<times> (string \<times> int) list \<times> 'w" where
  "uploadFile c tr target sessionID f token w =
     (case src_Open f of
        None \<Rightarrow> (Some OpenFailed, [], w)
      | Some bytes \<Rightarrow>
          (case exchange tr \<lparr>cq_Method = MethodPost, cq_URL = uploadURL target sessionID (src_ID f) token,
                             cq_Body = FileBody (src_Size f) bytes\<rparr> w of
             (res, reads, w') \<Rightarrow>
              (let events = progressReads reads (\<lparr>pr_fileID = src_ID f, pr_total = src_Size f, pr_current = 0\<rparr>)
               in case res of
                    Inl err \<Rightarrow> (Some err, events, w')
                  | Inr resp \<Rightarrow>
                      (case verifyPeerFingerprint c resp (dev_Fingerprint target) of
                         Some e \<Rightarrow> (Some (VerifyFailed e), events, w')
                       | None \<Rightarrow>
                           if cr_Status resp = StatusUnprocessableEntity
                           then (Some (UploadFailed ErrChecksumMismatch), events, w')
                           else if cr_Status resp \<noteq> StatusOK
                           then (Some (StatusFailed (cr_Status resp)), events, w')
                           else (None, events, w')))))"

text \<open>The loop over the files, and the error \<open>SendFiles\<close> returns when one fails.\<close>

fun uploadLoop ::
  "client \<Rightarrow> 'w transport \<Rightarrow> device \<Rightarrow> string \<Rightarrow> string gomap \<Rightarrow> sendFileSource list \<Rightarrow> 'w
     \<Rightarrow> (sendResult list \<times> clientError option) \<times> (string \<times> int) list \<times> 'w" where
  "uploadLoop c tr target sessionID tokens [] w = (([], None), [], w)"
| "uploadLoop c tr target sessionID tokens (f # fs) w =
     (case map_of tokens (src_ID f) of
        None \<Rightarrow>
          (case uploadLoop c tr target sessionID tokens fs w of
             ((results, err), events, w') \<Rightarrow>
               ((\<lparr>res_FileID = src_ID f, res_Err = Some NotAccepted\<rparr> # results, err), events, w'))
      | Some token \<Rightarrow>
          (case uploadFile c tr target sessionID f token w of
             (Some e, events, w1) \<Rightarrow>
               (([\<lparr>res_FileID = src_ID f, res_Err = Some e\<rparr>], Some (TransferFailed (src_FileName f) e)), events,
                cancelSession tr target sessionID w1)
           | (None, events, w1) \<Rightarrow>
               (case uploadLoop c tr target sessionID tokens fs w1 of
                  ((results, err), events', w') \<Rightarrow>
                    ((\<lparr>res_FileID = src_ID f, res_Err = None\<rparr> # results, err), events @ events', w'))))"

definition sourceMeta :: "sendFileSource \<Rightarrow> fileMetadata" where
  "sourceMeta f =
     zeroMeta\<lparr>meta_ID := src_ID f, meta_FileName := src_FileName f, meta_Size := src_Size f,
              meta_FileType := src_FileType f, meta_Sha256 := src_Sha256 f, meta_Preview := src_Preview f\<rparr>"

definition sourceMap :: "sendFileSource list \<Rightarrow> fileMetadata gomap" where
  "sourceMap files = foldl (\<lambda>m f. AList.update (src_ID f) (sourceMeta f) m) [] files"

definition SendFiles ::
  "client \<Rightarrow> 'w transport \<Rightarrow> device \<Rightarrow> sendFileSource list \<Rightarrow> string \<Rightarrow> 'w
     \<Rightarrow> (sendResult list \<times> clientError option) \<times> (string \<times> int) list \<times> 'w" where
  "SendFiles c tr target files pin w =
     (let prepReq = \<lparr>pureq_Info = cli_myDevice c, pureq_Files = sourceMap files\<rparr>;
          fail = (\<lambda>err w'. (([], Some err), [], w'))
      in case exchange tr \<lparr>cq_Method = MethodPost, cq_URL = prepareURL target pin,
                           cq_Body = JsonText (encodePrepareUpload prepReq)\<rparr> w of
           (Inl err, _, w1) \<Rightarrow> fail err w1
         | (Inr resp, _, w1) \<Rightarrow>
             (case verifyPeerFingerprint c resp (dev_Fingerprint target) of
                Some e \<Rightarrow> fail (VerifyFailed e) w1
              | None \<Rightarrow>
                  if cr_Status resp = StatusNoContent
                  then ((map (\<lambda>f. \<lparr>res_FileID = src_ID f, res_Err = None\<rparr>) files, None), [], w1)
                  else if cr_Status resp = StatusUnauthorized then fail (Proto ErrInvalidPIN) w1
                  else if cr_Status resp = StatusForbidden then fail (Proto ErrRejected) w1
                  else if cr_Status resp = StatusConflict then fail (Proto ErrSessionBusy) w1
                  else if cr_Status resp \<noteq> StatusOK then fail (StatusFailed (cr_Status resp)) w1
                  else (case Option.bind (cr_Json resp) decodePrepareResponse of
                          None \<Rightarrow> fail DecodeFailed w1
                        | Some prepResp \<Rightarrow>
                            uploadLoop c tr target (puresp_SessionID prepResp) (puresp_Files prepResp) files w1)))"

section \<open>Text messages\<close>

definition NewTextSendSource :: "string \<Rightarrow> string \<Rightarrow> sendFileSource" where
  "NewTextSendSource uuid txt =
     (let preview = (if 30 < length txt then take 30 txt @ ''...'' else txt)
      in \<lparr>src_ID = uuid, src_FileName = preview @ ''.txt'', src_Size = int (length txt), src_FileType = ''text/plain'',
          src_Sha256 = hexEncode (sha256 txt), src_Preview = txt, src_Open = Some txt\<rparr>)"

section \<open>What goes over the connection\<close>

text \<open>A connection that also keeps the requests with their responses, in order.\<close>

type_synonym traffic = "(clientRequest \<times> clientResponse option) list"

definition logged :: "'w transport \<Rightarrow> ('w \<times> traffic) transport" where
  "logged tr =
     \<lparr>tr_NewRequest = tr_NewRequest tr,
      tr_Do = (\<lambda>req (w, log). case tr_Do tr req w of ((resp, reads), w') \<Rightarrow> ((resp, reads), (w', log @ [(req, resp)])))\<rparr>"

lemma exchange_logged:
  "exchange (logged tr) req (w, log) = (res, reads, (w', log')) \<Longrightarrow>
     (res = Inl CreateFailed \<and> log' = log \<and> \<not> tr_NewRequest tr (cq_Method req) (cq_URL req))
     \<or> (tr_NewRequest tr (cq_Method req) (cq_URL req) \<and> log' = log @ [(req, None)] \<and> res = Inl ExecuteFailed)
     \<or> (tr_NewRequest tr (cq_Method req) (cq_URL req) \<and> (\<exists>resp. log' = log @ [(req, Some resp)] \<and> res = Inr resp))"
  by (auto simp: exchange_def logged_def split: if_splits prod.splits option.splits)

definition acceptedFiles :: "string gomap \<Rightarrow> sendFileSource list \<Rightarrow> sendFileSource list" where
  "acceptedFiles tokens files = filter (\<lambda>f. map_of tokens (src_ID f) \<noteq> None) files"

definition uploadRequest :: "device \<Rightarrow> string \<Rightarrow> string gomap \<Rightarrow> sendFileSource \<Rightarrow> clientRequest" where
  "uploadRequest target sid tokens f =
     \<lparr>cq_Method = MethodPost, cq_URL = uploadURL target sid (src_ID f) (the (map_of tokens (src_ID f))),
      cq_Body = FileBody (src_Size f) (the (src_Open f))\<rparr>"

definition cancelRequest :: "device \<Rightarrow> string \<Rightarrow> clientRequest" where
  "cancelRequest target sid = \<lparr>cq_Method = MethodPost, cq_URL = cancelURL target sid, cq_Body = EmptyBody\<rparr>"

text \<open>An answer that came from the expected peer, and one that also says the file was stored.\<close>

definition fromPeer :: "client \<Rightarrow> device \<Rightarrow> clientRequest \<times> clientResponse option \<Rightarrow> bool" where
  "fromPeer c target x \<longleftrightarrow>
     (case snd x of None \<Rightarrow> False
      | Some resp \<Rightarrow> cli_insecure c \<or> cr_TLS resp = None \<or> dev_Fingerprint target = []
          \<or> (\<exists>cert rest. cr_TLS resp = Some (cert # rest) \<and> CalculateFingerprint cert = dev_Fingerprint target))"

definition confirmed :: "client \<Rightarrow> device \<Rightarrow> clientRequest \<times> clientResponse option \<Rightarrow> bool" where
  "confirmed c target x \<longleftrightarrow> fromPeer c target x \<and> (\<exists>resp. snd x = Some resp \<and> cr_Status resp = StatusOK)"

definition fileResult :: "string gomap \<Rightarrow> sendFileSource \<Rightarrow> sendResult" where
  "fileResult tokens f =
     \<lparr>res_FileID = src_ID f, res_Err = (if map_of tokens (src_ID f) = None then Some NotAccepted else None)\<rparr>"

lemma verify_fromPeer:
  "verifyPeerFingerprint c resp (dev_Fingerprint target) = None \<longleftrightarrow> fromPeer c target (req, Some resp)"
  by (auto simp: verifyPeerFingerprint_def fromPeer_def Let_def split: option.splits list.splits)

text \<open>One file: at most one request, and success only with a confirmed answer.\<close>

lemma uploadFile_logged:
  assumes "uploadFile c (logged tr) target sid f token (w, log) = (err, events, (w', log'))"
    "map_of tokens (src_ID f) = Some token"
  shows "(log' = log \<and> err \<noteq> None)
     \<or> (\<exists>resp. log' = log @ [(uploadRequest target sid tokens f, resp)]
          \<and> (err = None \<longrightarrow> confirmed c target (uploadRequest target sid tokens f, resp)))"
proof (cases "src_Open f")
  case None
  then show ?thesis using assms(1) by (auto simp: uploadFile_def)
next
  case (Some bytes)
  have req: "uploadRequest target sid tokens f
      = \<lparr>cq_Method = MethodPost, cq_URL = uploadURL target sid (src_ID f) token, cq_Body = FileBody (src_Size f) bytes\<rparr>"
    using Some assms(2) by (simp add: uploadRequest_def)
  obtain res reads w1 log1 where x: "exchange (logged tr) (uploadRequest target sid tokens f) (w, log) = (res, reads, (w1, log1))"
    by (metis surj_pair)
  have s: "w1 = w'" "log1 = log'"
    using assms(1) x Some unfolding req by (auto simp: uploadFile_def Let_def split: sum.splits option.splits if_splits)
  have "confirmed c target (uploadRequest target sid tokens f, Some resp)" if "res = Inr resp" "err = None" for resp
    using assms(1) x Some that verify_fromPeer [of c resp target "uploadRequest target sid tokens f"] unfolding req
    by (auto simp: uploadFile_def confirmed_def Let_def split: option.splits if_splits)
  moreover have "err \<noteq> None" if "res = Inl e" for e
    using assms(1) x Some that unfolding req by (auto simp: uploadFile_def Let_def)
  ultimately show ?thesis using exchange_logged [OF x] s by blast
qed

lemma cancelSession_logged:
  assumes "cancelSession (logged tr) target sid (w, log) = (w', log')"
  shows "\<exists>canc. log' = log @ canc
     \<and> map fst canc = (if tr_NewRequest tr MethodPost (cancelURL target sid) then [cancelRequest target sid] else [])"
proof -
  obtain res reads w1 log1 where x: "exchange (logged tr) (cancelRequest target sid) (w, log) = (res, reads, (w1, log1))"
    by (metis surj_pair)
  then have "log1 = log'" using assms by (simp add: cancelSession_def cancelRequest_def)
  then show ?thesis using exchange_logged [OF x] by (auto simp: cancelRequest_def)
qed

lemma uploadLoop_logged:
  assumes "uploadLoop c (logged tr) target sid tokens files (w, log) = ((results, err), events, (w', log'))"
  shows "\<exists>ups canc. log' = log @ ups @ canc
     \<and> map fst ups = map (uploadRequest target sid tokens) (take (length ups) (acceptedFiles tokens files))
     \<and> list_all (confirmed c target) (butlast ups)
     \<and> (err = None \<longrightarrow> canc = [] \<and> list_all (confirmed c target) ups
          \<and> length ups = length (acceptedFiles tokens files) \<and> results = map (fileResult tokens) files)
     \<and> (err \<noteq> None \<longrightarrow>
          (\<exists>pre f post e. files = pre @ f # post \<and> err = Some (TransferFailed (src_FileName f) e)
             \<and> results = map (fileResult tokens) pre @ [\<lparr>res_FileID = src_ID f, res_Err = Some e\<rparr>])
          \<and> map fst canc = (if tr_NewRequest tr MethodPost (cancelURL target sid) then [cancelRequest target sid] else []))"
  using assms
proof (induction files arbitrary: w log results err events)
  case Nil
  then show ?case by (auto simp: acceptedFiles_def)
next
  case (Cons f fs)
  show ?case
  proof (cases "map_of tokens (src_ID f)")
    case None
    obtain rs ev where r: "uploadLoop c (logged tr) target sid tokens fs (w, log) = ((rs, err), ev, (w', log'))"
        "results = fileResult tokens f # rs"
      using Cons.prems None by (auto simp: fileResult_def split: prod.splits)
    have acc: "acceptedFiles tokens (f # fs) = acceptedFiles tokens fs" using None by (simp add: acceptedFiles_def)
    obtain ups canc where IH: "log' = log @ ups @ canc"
        "map fst ups = map (uploadRequest target sid tokens) (take (length ups) (acceptedFiles tokens fs))"
        "list_all (confirmed c target) (butlast ups)"
        "err = None \<longrightarrow> canc = [] \<and> list_all (confirmed c target) ups
           \<and> length ups = length (acceptedFiles tokens fs) \<and> rs = map (fileResult tokens) fs"
        "err \<noteq> None \<longrightarrow>
           (\<exists>pre g post e. fs = pre @ g # post \<and> err = Some (TransferFailed (src_FileName g) e)
              \<and> rs = map (fileResult tokens) pre @ [\<lparr>res_FileID = src_ID g, res_Err = Some e\<rparr>])
           \<and> map fst canc = (if tr_NewRequest tr MethodPost (cancelURL target sid) then [cancelRequest target sid] else [])"
      using Cons.IH [OF r(1)] by blast
    have "err \<noteq> None \<Longrightarrow> \<exists>pre g post e. f # fs = pre @ g # post \<and> err = Some (TransferFailed (src_FileName g) e)
        \<and> results = map (fileResult tokens) pre @ [\<lparr>res_FileID = src_ID g, res_Err = Some e\<rparr>]"
      using IH(5) r(2) by (metis append_Cons list.simps(9))
    then show ?thesis using IH r(2) unfolding acc by (intro exI [of _ ups] exI [of _ canc]) auto
  next
    case (Some token)
    have acc: "acceptedFiles tokens (f # fs) = f # acceptedFiles tokens fs" using Some by (simp add: acceptedFiles_def)
    obtain e1 ev1 w1 log1 where u: "uploadFile c (logged tr) target sid f token (w, log) = (e1, ev1, (w1, log1))"
      by (metis surj_pair)
    note step = uploadFile_logged [OF u Some]
    show ?thesis
    proof (cases e1)
      case fail: (Some e)
      have c: "cancelSession (logged tr) target sid (w1, log1) = (w', log')"
          "results = [\<lparr>res_FileID = src_ID f, res_Err = Some e\<rparr>]" "err = Some (TransferFailed (src_FileName f) e)"
        using Cons.prems Some u fail by auto
      obtain ups where ups: "log1 = log @ ups" "map fst ups = map (uploadRequest target sid tokens) (take (length ups) (f # acceptedFiles tokens fs))"
          "butlast ups = []"
        using step by force
      from cancelSession_logged [OF c(1)] obtain canc where "log' = log1 @ canc"
          "map fst canc = (if tr_NewRequest tr MethodPost (cancelURL target sid) then [cancelRequest target sid] else [])"
        by blast
      then show ?thesis
        using ups c(2,3) unfolding acc
        by (intro exI [of _ ups] exI [of _ canc]) (auto intro!: exI [of _ "[]"])
    next
      case None
      obtain rs ev where r: "uploadLoop c (logged tr) target sid tokens fs (w1, log1) = ((rs, err), ev, (w', log'))"
          "results = fileResult tokens f # rs"
        using Cons.prems Some u None by (auto simp: fileResult_def split: prod.splits)
      obtain resp where x: "log1 = log @ [(uploadRequest target sid tokens f, resp)]"
          "confirmed c target (uploadRequest target sid tokens f, resp)"
        using step None by auto
      obtain ups canc where IH: "log' = log1 @ ups @ canc"
          "map fst ups = map (uploadRequest target sid tokens) (take (length ups) (acceptedFiles tokens fs))"
          "list_all (confirmed c target) (butlast ups)"
          "err = None \<longrightarrow> canc = [] \<and> list_all (confirmed c target) ups
             \<and> length ups = length (acceptedFiles tokens fs) \<and> rs = map (fileResult tokens) fs"
          "err \<noteq> None \<longrightarrow>
             (\<exists>pre g post e. fs = pre @ g # post \<and> err = Some (TransferFailed (src_FileName g) e)
                \<and> rs = map (fileResult tokens) pre @ [\<lparr>res_FileID = src_ID g, res_Err = Some e\<rparr>])
             \<and> map fst canc = (if tr_NewRequest tr MethodPost (cancelURL target sid) then [cancelRequest target sid] else [])"
        using Cons.IH [OF r(1)] by blast
      let ?ups = "(uploadRequest target sid tokens f, resp) # ups"
      have "err \<noteq> None \<Longrightarrow> \<exists>pre g post e. f # fs = pre @ g # post \<and> err = Some (TransferFailed (src_FileName g) e)
          \<and> results = map (fileResult tokens) pre @ [\<lparr>res_FileID = src_ID g, res_Err = Some e\<rparr>]"
        using IH(5) r(2) by (metis append_Cons list.simps(9))
      then show ?thesis
        using IH x r(2) unfolding acc by (intro exI [of _ ?ups] exI [of _ canc]) auto
    qed
  qed
qed

section \<open>Properties\<close>

definition prepareRequest :: "client \<Rightarrow> device \<Rightarrow> sendFileSource list \<Rightarrow> string \<Rightarrow> clientRequest" where
  "prepareRequest c target files pin =
     \<lparr>cq_Method = MethodPost, cq_URL = prepareURL target pin,
      cq_Body = JsonText (encodePrepareUpload \<lparr>pureq_Info = cli_myDevice c, pureq_Files = sourceMap files\<rparr>)\<rparr>"

lemma SendFiles_confirmed:
  assumes "SendFiles c (logged tr) target files pin (w, log0) = ((results, err), events, (w', log))"
  obtains
    (stopped) "log = log0 \<or> (\<exists>resp. log = log0 @ [(prepareRequest c target files pin, resp)])" "err \<noteq> None" "results = []" "events = []"
  | (duplicate) resp where "log = log0 @ [(prepareRequest c target files pin, Some resp)]" "cr_Status resp = StatusNoContent"
      "fromPeer c target (prepareRequest c target files pin, Some resp)"
      "err = None" "results = map (\<lambda>f. \<lparr>res_FileID = src_ID f, res_Err = None\<rparr>) files" "events = []"
  | (begun) resp and prepResp :: prepareUploadResponse and w1 where "confirmed c target (prepareRequest c target files pin, Some resp)"
      "uploadLoop c (logged tr) target (puresp_SessionID prepResp) (puresp_Files prepResp) files
         (w1, log0 @ [(prepareRequest c target files pin, Some resp)]) = ((results, err), events, (w', log))"
proof -
  let ?req = "prepareRequest c target files pin"
  obtain res reads w1 log1 where x: "exchange (logged tr) ?req (w, log0) = (res, reads, (w1, log1))"
    by (metis surj_pair)
  note send = assms [unfolded SendFiles_def Let_def, folded prepareRequest_def, unfolded x, simplified]
  show thesis
  proof (cases res)
    case (Inl e)
    then show thesis using stopped send exchange_logged [OF x] by auto
  next
    case (Inr resp)
    then have log1: "log1 = log0 @ [(?req, Some resp)]" using exchange_logged [OF x] by auto
    show thesis
    proof (cases "verifyPeerFingerprint c resp (dev_Fingerprint target)")
      case (Some e)
      then show thesis using stopped send Inr log1 by auto
    next
      case None
      then have peer: "fromPeer c target (?req, Some resp)" by (rule iffD1 [OF verify_fromPeer])
      consider "cr_Status resp = StatusNoContent" | "cr_Status resp \<noteq> StatusNoContent" "cr_Status resp \<noteq> StatusOK"
        | "cr_Status resp = StatusOK" by blast
      then show thesis
      proof cases
        case 1
        then show thesis using duplicate [OF _ 1 peer] send Inr None log1 by simp
      next
        case 2
        then have "err \<noteq> None \<and> results = [] \<and> events = [] \<and> log = log1"
          using send Inr None by (auto split: if_splits)
        then show thesis using stopped log1 by blast
      next
        case 3
        then have ok: "confirmed c target (?req, Some resp)" using peer by (simp add: confirmed_def)
        show thesis
        proof (cases "Option.bind (cr_Json resp) decodePrepareResponse")
          case None': None
          then show thesis using stopped send Inr None 3 log1 by (auto simp: http_status)
        next
          case (Some prepResp)
          then show thesis using begun [OF ok, of prepResp w1] send Inr None 3 log1 by (simp add: http_status)
        qed
      qed
    qed
  qed
qed


definition demo_client :: client where
  "demo_client =
     \<lparr>cli_myDevice = zeroDevice, cli_tls = \<lparr>tc_Certificates = [], tc_InsecureSkipVerify = True, tc_RootCAs = None\<rparr>,
      cli_proxy = None, cli_insecure = False\<rparr>"

definition demo_source :: sendFileSource where
  "demo_source =
     \<lparr>src_ID = ''f'', src_FileName = ''a.txt'', src_Size = 2, src_FileType = [], src_Sha256 = [], src_Preview = [],
      src_Open = Some ''hi''\<rparr>"

text \<open>A peer that accepts the file \<open>f\<close> and then answers the upload with an error.\<close>

definition demo_transport :: "unit transport" where
  "demo_transport =
     \<lparr>tr_NewRequest = (\<lambda>_ _. True),
      tr_Do = (\<lambda>req w. case cq_Body req of
         JsonText _ \<Rightarrow> ((Some \<lparr>cr_Status = 200, cr_TLS = None,
             cr_Json = Some (encodePrepareResponse \<lparr>puresp_SessionID = ''s'', puresp_Files = [(''f'', ''t'')]\<rparr>)\<rparr>, []), w)
       | FileBody _ _ \<Rightarrow> ((Some \<lparr>cr_Status = 422, cr_TLS = None, cr_Json = None\<rparr>, [2]), w)
       | EmptyBody \<Rightarrow> ((None, []), w))\<rparr>"

definition demo_send :: "(sendResult list \<times> clientError option) \<times> (string \<times> int) list \<times> unit \<times> traffic" where
  "demo_send = SendFiles demo_client (logged demo_transport) (zeroDevice\<lparr>dev_IP := ''10.0.0.2'', dev_Protocol := ''http''\<rparr>)
     [demo_source] [] ((), [])"

lemma demo_send_value:
  "fst demo_send = ([\<lparr>res_FileID = ''f'', res_Err = Some (UploadFailed ErrChecksumMismatch)\<rparr>],
     Some (TransferFailed ''a.txt'' (UploadFailed ErrChecksumMismatch)))"
  "length (snd (snd (snd demo_send))) = 3"
  by code_simp+


end
