(* ===== verification/Cli.thy ===== *)
theory Cli
  imports Download Client I18n Mdns Scan
begin

text \<open>
  \<open>cmd/localsend/main.go\<close>: the three commands. Flags, the file system, the answers typed at the
  prompts, the devices the discovery reports and the connection to the peer are arguments; an
  \<open>os.Exit\<close> is the result of the command. What is printed is kept where the user decides on it.
\<close>

section \<open>Root command\<close>

text \<open>\<open>PersistentPreRun\<close>: the language, then the discovery mode; \<open>Inl\<close> is the exit code.\<close>

definition validMode :: "string \<Rightarrow> bool" where
  "validMode mode \<longleftrightarrow>
     \<not> (mode \<noteq> DiscoveryModeHybrid \<and> mode \<noteq> DiscoveryModeMulticast \<and> mode \<noteq> DiscoveryModeMDNS)"

definition rootPreRun :: "string \<Rightarrow> string \<Rightarrow> i18n \<Rightarrow> nat + i18n \<times> string" where
  "rootPreRun langFlag discoveryModeFlag lang =
     (let lang' = (if langFlag \<noteq> [] then SetLanguage langFlag lang else lang);
          mode = ToLower discoveryModeFlag
      in if \<not> validMode mode then Inl 1 else Inr (lang', mode))"

section \<open>Discovered devices\<close>

text \<open>The callback \<open>onDiscover\<close> of \<open>scan\<close> and \<open>send\<close>, and the map after all reports.\<close>

definition deviceKey :: "device \<Rightarrow> string" where
  "deviceKey dev = dev_IP dev @ '':'' @ Itoa (dev_Port dev)"

definition recordDevice :: "device \<Rightarrow> device \<Rightarrow> device gomap \<Rightarrow> device gomap" where
  "recordDevice myDevice dev discovered =
     (if dev_Fingerprint dev = dev_Fingerprint myDevice \<and> dev_Port dev = dev_Port myDevice then discovered
      else AList.update (deviceKey dev) dev discovered)"

definition collectDevices :: "device \<Rightarrow> device list \<Rightarrow> device gomap" where
  "collectDevices myDevice reports = foldl (\<lambda>m dev. recordDevice myDevice dev m) [] reports"

definition deviceLine :: "nat \<Rightarrow> device \<Rightarrow> string" where
  "deviceLine i dev =
     ''['' @ Itoa (int i + 1) @ ''] '' @ dev_Alias dev @ '' ('' @ dev_DeviceModel dev @ '') - ''
       @ dev_Protocol dev @ ''://'' @ dev_IP dev @ '':'' @ Itoa (dev_Port dev)"

datatype scanOutput = ScanJson json | NoDevices | DeviceLines "string list"

text \<open>\<open>visit\<close> is the order in which \<open>sync.Map.Range\<close> visits the entries. A nil slice encodes as \<open>null\<close>.\<close>

definition scanCmd :: "(device gomap \<Rightarrow> device list) \<Rightarrow> bool \<Rightarrow> device \<Rightarrow> device list \<Rightarrow> scanOutput \<times> nat" where
  "scanCmd visit jsonOutput myDevice reports =
     (let devices = visit (collectDevices myDevice reports)
      in if jsonOutput then (ScanJson (if devices = [] then JNull else JArr (map encodeDevice devices)), 0)
         else if devices = [] then (NoDevices, 2)
         else (DeviceLines (map (\<lambda>(i, dev). deviceLine i dev) (enumerate 0 devices)), 0))"

text \<open>What \<open>scan\<close> and \<open>send\<close> start: listeners, an announcement, and outside the mDNS mode the HTTP scan.\<close>

definition startDiscovery ::
  "network \<Rightarrow> mdnsEnv \<Rightarrow> string list option \<Rightarrow> device \<Rightarrow> string
     \<Rightarrow> (listener list \<times> bool) \<times> (goIP option \<times> json) list \<times> scan option" where
  "startDiscovery net env localIPs myDevice mode =
     (snd (StartListeners net env mode), fst (StartAdvertising net env myDevice mode True),
      if mode = DiscoveryModeHybrid \<or> mode = DiscoveryModeMulticast then ScanLegacy myDevice localIPs else None)"

section \<open>Prompts\<close>

text \<open>
  \<open>inputs k\<close> is what the \<open>k\<close>-th \<open>fmt.Scanln\<close> leaves in its fresh variable: the first word of the line,
  or nothing for an empty line and at the end of the input. The result has the count of lines read.
\<close>

type_synonym inputs = "nat \<Rightarrow> string"

partial_function (option) confirmLoop :: "inputs \<Rightarrow> nat \<Rightarrow> (bool \<times> nat) option" where
  "confirmLoop inputs k =
     (let input = TrimSpace (ToLower (inputs k))
      in if input = ''y'' \<or> input = ''yes'' then Some (True, Suc k)
         else if input = ''n'' \<or> input = ''no'' then Some (False, Suc k)
         else confirmLoop inputs (Suc k))"

partial_function (option) selectLoop :: "inputs \<Rightarrow> nat \<Rightarrow> nat \<Rightarrow> (int \<times> nat) option" where
  "selectLoop inputs n k =
     (case Atoi (TrimSpace (inputs k)) of
        (choice, err) \<Rightarrow>
          if err = None \<and> 1 \<le> choice \<and> choice \<le> int n then Some (choice, Suc k)
          else selectLoop inputs n (Suc k))"

section \<open>Receive\<close>

text \<open>The search for a port: at most ten attempts.\<close>

function findPort :: "(int \<Rightarrow> bool) \<Rightarrow> int \<Rightarrow> int \<Rightarrow> int option" where
  "findPort listens maxPort currentPort =
     (if listens currentPort then Some currentPort
      else if currentPort < maxPort then findPort listens maxPort (currentPort + 1)
      else None)"
  by pat_completeness auto
termination by (relation "measure (\<lambda>(_, maxPort, currentPort). nat (maxPort - currentPort))") auto

definition searchPort :: "(int \<Rightarrow> bool) \<Rightarrow> int \<Rightarrow> int option" where
  "searchPort listens startPort = findPort listens (wrap64 (startPort + 9)) startPort"

record receiveFlags =
  rf_port :: int
  rf_noTLS :: bool
  rf_alias :: string
  rf_tlsStrict :: bool
  rf_pin :: string
  rf_dir :: string
  rf_yes :: bool

text \<open>The machine: host data for the default device, directories, credentials, identifiers.\<close>

record machine =
  ma_intn :: "nat \<Rightarrow> nat \<Rightarrow> nat"
  ma_goos :: string
  ma_hostname :: "string option"
  ma_home :: "string option"
  ma_cwd :: "string option"
  ma_x509 :: x509Env
  ma_certRun :: certRun
  ma_mkdirCert :: "os_error option"
  ma_mkdirSave :: "os_error option"
  ma_uuid :: "nat \<Rightarrow> string"

definition credentialPaths :: "string option \<Rightarrow> string \<times> string" where
  "credentialPaths home =
     (case home of
        Some h \<Rightarrow> (PathJoin [h, ''.config'', ''localsend'', ''cert.pem''], PathJoin [h, ''.config'', ''localsend'', ''key.pem''])
      | None \<Rightarrow> (PathJoin [''.'', ''cert.pem''], PathJoin [''.'', ''key.pem'']))"

text \<open>\<open>filepath.Abs\<close>.\<close>

definition Abs :: "string option \<Rightarrow> string \<Rightarrow> string option" where
  "Abs cwd path = (if isRooted path then Some (Clean path) else map_option (\<lambda>wd. PathJoin [wd, path]) cwd)"

definition saveDirOf :: "string option \<Rightarrow> string \<Rightarrow> string option" where
  "saveDirOf cwd dir =
     (case (if dir = [] then cwd else Some dir) of
        None \<Rightarrow> None
      | Some saveDir \<Rightarrow> Some (case Abs cwd saveDir of Some p \<Rightarrow> p | None \<Rightarrow> saveDir))"

text \<open>What the prompt shows: a line per file and the total, an \<open>int64\<close>.\<close>

definition promptLines :: "fileMetadata list \<Rightarrow> string list" where
  "promptLines files = map (\<lambda>f. ''  - '' @ meta_FileName f @ '' ('' @ Itoa (meta_Size f) @ '' bytes)'') files"

definition totalSize :: "int list \<Rightarrow> int" where
  "totalSize sizes = foldl (\<lambda>total n. wrap64 (total + n)) 0 sizes"

text \<open>The callback \<open>OnPrepareUpload\<close>; with \<open>--yes\<close> nothing is read.\<close>

definition receivePrompt :: "bool \<Rightarrow> inputs \<Rightarrow> nat \<Rightarrow> ((bool gomap option \<times> bool) \<times> nat) option" where
  "receivePrompt yes inputs k =
     (if yes then Some ((None, True), k)
      else map_option (\<lambda>(answer, k'). ((None, answer), k')) (confirmLoop inputs k))"

datatype receiveEnd = ReceiveExit nat | Listening server sessionManager int clientAuth

text \<open>
  The command up to the running server. \<open>decide\<close> stands for what the prompt comes to for a request; \<open>listens\<close>
  answers the test of a port, \<open>serves\<close> the listener the server opens afterwards.
\<close>

definition receiveCmd ::
  "machine \<Rightarrow> receiveFlags \<Rightarrow> (device \<Rightarrow> fileMetadata list \<Rightarrow> bool) \<Rightarrow> (int \<Rightarrow> bool) \<Rightarrow> (int \<Rightarrow> bool) \<Rightarrow> fsys
     \<Rightarrow> receiveEnd \<times> fsys" where
  "receiveCmd ma fl decide listens serves fs =
     (let protocolStr = (if rf_noTLS fl then ''http'' else ''https'')
      in case searchPort listens (rf_port fl) of
           None \<Rightarrow> (ReceiveExit 1, fs)
         | Some port \<Rightarrow>
             let dev0 = GetDefaultDevice (ma_intn ma) (ma_goos ma) (ma_hostname ma) port protocolStr True;
                 dev1 = (if rf_alias fl \<noteq> [] then dev0\<lparr>dev_Alias := rf_alias fl\<rparr> else dev0)
             in (case saveDirOf (ma_cwd ma) (rf_dir fl) of
                   None \<Rightarrow> (ReceiveExit 1, fs)
                 | Some saveDir \<Rightarrow>
                     (let (certPath, keyPath) = credentialPaths (ma_home ma);
                          (creds, fs') =
                            (if \<not> rf_noTLS fl then
                               (case LoadOrGenerateCredentials (ma_x509 ma) (ma_certRun ma) (ma_mkdirCert ma) certPath keyPath fs of
                                  (Inl _, fs1) \<Rightarrow> (None, fs1)
                                | (Inr ci, fs1) \<Rightarrow> (Some (ci_Leaf ci, ci_Fingerprint ci), fs1))
                             else (Some ([], ma_uuid ma 0), fs))
                      in case creds of
                           None \<Rightarrow> (ReceiveExit 1, fs')
                         | Some (tlsCert, fingerprint) \<Rightarrow>
                             let (srv0, mgr) = NewServer (dev1\<lparr>dev_Fingerprint := fingerprint\<rparr>) tlsCert saveDir (rf_pin fl) (rf_tlsStrict fl);
                                 srv = srv0\<lparr>srv_OnPrepareUpload := Some (\<lambda>sender files. (None, rf_yes fl \<or> decide sender files)),
                                            srv_hasOnProgress := True, srv_hasOnDone := True\<rparr>
                             in (case Start srv (ma_mkdirSave ma) serves port of
                                   Inl _ \<Rightarrow> (ReceiveExit 1, fs')
                                 | Inr auth \<Rightarrow> (Listening srv mgr port auth, fs')))))"

text \<open>What \<open>receive\<close> starts before the server: its errors are only logged, and it announces without asking back.\<close>

definition receiveDiscovery ::
  "network \<Rightarrow> mdnsEnv \<Rightarrow> device \<Rightarrow> string
     \<Rightarrow> (listener list \<times> bool) \<times> (goIP option \<times> json) list \<times> advertisingCloser option" where
  "receiveDiscovery net env myDevice mode =
     (let (packets, adv) = StartAdvertising net env myDevice mode False
      in (snd (StartListeners net env mode), packets, case adv of Inl _ \<Rightarrow> None | Inr (_, closer) \<Rightarrow> Some closer))"

text \<open>The answer to an announcement: the device registers with the announcing one.\<close>

definition onAnnounce :: "(client \<Rightarrow> 'w transport) \<Rightarrow> device \<Rightarrow> string \<Rightarrow> fsys \<Rightarrow> device \<Rightarrow> 'w \<Rightarrow> 'w" where
  "onAnnounce connect myDevice tlsCert fs dev w =
     (case NewClient (\<lambda>_. False) (\<lambda>_. False) fs myDevice (Some tlsCert) [] True [] of
        Inl _ \<Rightarrow> w
      | Inr cli \<Rightarrow> snd (Register cli (connect cli) dev w))"

section \<open>Facts\<close>

text \<open>The word typed at a yes-or-no prompt, as the program understands it.\<close>

definition answerOf :: "string \<Rightarrow> bool option" where
  "answerOf input =
     (let word = TrimSpace (ToLower input)
      in if word = ''y'' \<or> word = ''yes'' then Some True
         else if word = ''n'' \<or> word = ''no'' then Some False else None)"

lemma confirmLoop_step:
  "confirmLoop inputs k = (case answerOf (inputs k) of Some b \<Rightarrow> Some (b, Suc k) | None \<Rightarrow> confirmLoop inputs (Suc k))"
  by (subst confirmLoop.simps) (auto simp: answerOf_def Let_def)

lemma confirmLoop_skip:
  "(\<And>l. k \<le> l \<Longrightarrow> l < k + n \<Longrightarrow> answerOf (inputs l) = None) \<Longrightarrow> confirmLoop inputs k = confirmLoop inputs (k + n)"
proof (induction n)
  case (Suc n)
  then show ?case using confirmLoop_step [of inputs "k + n"] by simp
qed simp

definition answeredAt :: "inputs \<Rightarrow> nat \<Rightarrow> bool \<times> nat \<Rightarrow> bool" where
  "answeredAt inputs k r \<longleftrightarrow>
     (\<exists>i \<ge> k. answerOf (inputs i) = Some (fst r) \<and> snd r = Suc i
        \<and> (\<forall>l. k \<le> l \<and> l < i \<longrightarrow> answerOf (inputs l) = None))"

lemma answeredAt_Suc:
  assumes "answerOf (inputs k) = None" "answeredAt inputs (Suc k) r"
  shows "answeredAt inputs k r"
proof -
  obtain i where i: "Suc k \<le> i" "answerOf (inputs i) = Some (fst r)" "snd r = Suc i"
      "\<forall>l. Suc k \<le> l \<and> l < i \<longrightarrow> answerOf (inputs l) = None"
    using assms(2) by (auto simp: answeredAt_def)
  then have "answerOf (inputs l) = None" if "k \<le> l" "l < i" for l
    using assms(1) that by (cases "l = k") auto
  then show ?thesis unfolding answeredAt_def using i by (intro exI [of _ i]) auto
qed

lemma confirmLoop_Some: "confirmLoop inputs k = Some r \<Longrightarrow> answeredAt inputs k r"
proof (erule confirmLoop.raw_induct [where P = answeredAt, rotated])
  fix loop inputs k r
  assume IH: "\<And>inputs k r. loop inputs k = Some r \<Longrightarrow> answeredAt inputs k r"
    and eq: "(let input = TrimSpace (ToLower (inputs k))
       in if input = ''y'' \<or> input = ''yes'' then Some (True, Suc k)
          else if input = ''n'' \<or> input = ''no'' then Some (False, Suc k) else loop inputs (Suc k)) = Some r"
  show "answeredAt inputs k r"
  proof (cases "answerOf (inputs k)")
    case None
    then have "loop inputs (Suc k) = Some r" using eq by (auto simp: answerOf_def Let_def split: if_splits)
    then show ?thesis using answeredAt_Suc [of inputs k r] None IH by blast
  next
    case (Some b)
    then have "r = (b, Suc k)" using eq by (auto simp: answerOf_def Let_def split: if_splits)
    then show ?thesis using Some by (auto simp: answeredAt_def intro!: exI [of _ k])
  qed
qed

definition chosenAt :: "inputs \<Rightarrow> nat \<Rightarrow> nat \<Rightarrow> int \<times> nat \<Rightarrow> bool" where
  "chosenAt inputs n k r \<longleftrightarrow>
     1 \<le> fst r \<and> fst r \<le> int n \<and> k < snd r \<and> Atoi (TrimSpace (inputs (snd r - 1))) = (fst r, None)"

lemma selectLoop_Some: "selectLoop inputs n k = Some r \<Longrightarrow> chosenAt inputs n k r"
proof (erule selectLoop.raw_induct [where P = chosenAt, rotated])
  fix loop inputs n k r
  assume IH: "\<And>inputs n k r. loop inputs n k = Some r \<Longrightarrow> chosenAt inputs n k r"
    and eq: "(case Atoi (TrimSpace (inputs k)) of
        (choice, err) \<Rightarrow>
          if err = None \<and> 1 \<le> choice \<and> choice \<le> int n then Some (choice, Suc k)
          else loop inputs n (Suc k)) = Some r"
  obtain choice err where a: "Atoi (TrimSpace (inputs k)) = (choice, err)" by force
  show "chosenAt inputs n k r"
  proof (cases "err = None \<and> 1 \<le> choice \<and> choice \<le> int n")
    case True
    then show ?thesis using eq a by (auto simp: chosenAt_def)
  next
    case False
    then have "loop inputs n (Suc k) = Some r" using eq a by (simp add: if_not_P [OF False])
    then show ?thesis using IH [of inputs n "Suc k" r] by (auto simp: chosenAt_def)
  qed
qed

section \<open>Properties\<close>

text \<open>
  C35: the search for a port ends for every starting port and takes the first free port of
  the ten from the starting one on, or reports that there is none.
\<close>

theorem port_search:
  assumes "start + 9 < 2 ^ 63" "- (2 ^ 63) \<le> start"
  shows "searchPort listens start = find listens [start..start + 9]"
proof -
  have w: "wrap64 (start + 9) = start + 9" using assms by (intro wrap64_id) (simp add: int64_ok_def)
  have upto: "find listens [cur..m] = findPort listens m cur" if "cur \<le> m" for cur m
    using that
  proof (induction "nat (m - cur)" arbitrary: cur)
    case 0
    then show ?case by (subst findPort.simps) (simp del: findPort.simps)
  next
    case (Suc n)
    then have "find listens [cur + 1..m] = findPort listens m (cur + 1)" "cur < m" by simp_all
    then show ?case by (subst findPort.simps, subst upto_rec1) (simp_all del: findPort.simps)
  qed
  show ?thesis unfolding searchPort_def w using upto [of start "start + 9"] by simp
qed

theorem port_search_witness:
  "searchPort (\<lambda>p. p = 53319) DefaultPort = Some 53319 \<and> searchPort (\<lambda>p. p = 53327) DefaultPort = None"
proof -
  have u: "[DefaultPort..DefaultPort + 9] = [53317, 53318, 53319, 53320, 53321, 53322, 53323, 53324, 53325, 53326]"
    by code_simp
  have ok: "DefaultPort + 9 < 2 ^ 63" "- (2 ^ 63) \<le> DefaultPort" by (simp_all add: DefaultPort_def)
  show ?thesis unfolding port_search [OF ok] u by simp
qed

text \<open>
  C36: the yes-or-no prompt returns exactly when some line of the input from now on is an
  answer, and then with the first one; at the end of the input, where every further line reads as
  empty, it asks forever.
\<close>

theorem confirm_prompt:
  "(confirmLoop inputs k = Some (b, j) \<longleftrightarrow>
      0 < j \<and> k \<le> j - 1 \<and> answerOf (inputs (j - 1)) = Some b
      \<and> (\<forall>l \<in> {k..<j - 1}. answerOf (inputs l) = None))
   \<and> ((\<forall>l \<ge> n. inputs l = []) \<and> n \<le> k \<longrightarrow> confirmLoop inputs k = None)"
proof -
  have first: "confirmLoop inputs k = Some (b, Suc i)"
    if "k \<le> i" "answerOf (inputs i) = Some b" "\<forall>l \<in> {k..<i}. answerOf (inputs l) = None" for i
  proof -
    have "confirmLoop inputs k = confirmLoop inputs (k + (i - k))" using that by (intro confirmLoop_skip) auto
    then show ?thesis using that confirmLoop_step [of inputs i] by simp
  qed
  have at: "answeredAt inputs k (b, j) \<longleftrightarrow>
      0 < j \<and> k \<le> j - 1 \<and> answerOf (inputs (j - 1)) = Some b \<and> (\<forall>l \<in> {k..<j - 1}. answerOf (inputs l) = None)"
    by (cases j) (auto simp: answeredAt_def)
  have "confirmLoop inputs k = None" if "\<forall>l \<ge> n. inputs l = []" "n \<le> k"
  proof (rule ccontr)
    assume "confirmLoop inputs k \<noteq> None"
    then obtain r where "answeredAt inputs k r" using confirmLoop_Some by blast
    then obtain i where "k \<le> i" "answerOf (inputs i) \<noteq> None" by (auto simp: answeredAt_def)
    moreover have "inputs i = []" using that \<open>k \<le> i\<close> by simp
    moreover have "answerOf [] = None" by (simp add: answerOf_def TrimSpace_def)
    ultimately show False by simp
  qed
  moreover have "confirmLoop inputs k = Some (b, j) \<longleftrightarrow> answeredAt inputs k (b, j)"
  proof
    assume "answeredAt inputs k (b, j)"
    then have "0 < j" and c: "k \<le> j - 1" "answerOf (inputs (j - 1)) = Some b" "\<forall>l \<in> {k..<j - 1}. answerOf (inputs l) = None"
      unfolding at by blast+
    then show "confirmLoop inputs k = Some (b, j)" using first [OF c] by simp
  qed (rule confirmLoop_Some)
  ultimately show ?thesis unfolding at by blast
qed

theorem confirm_prompt_witness:
  "confirmLoop (\<lambda>k. if k = 0 then ''maybe'' else if k = 1 then ''YES'' else []) 0 = Some (True, 2)
     \<and> confirmLoop (\<lambda>k. if k = 0 then ''maybe'' else if k = 1 then ''YES'' else []) 2 = None"
proof -
  let ?in = "\<lambda>k::nat. if k = 0 then ''maybe'' else if k = 1 then ''YES'' else []"
  have "answerOf (?in 0) = None" "answerOf (?in 1) = Some True" by code_simp+
  moreover have "{0..<1::nat} = {0}" by auto
  ultimately have "confirmLoop ?in 0 = Some (True, 2)"
    using confirm_prompt [of ?in 0 True 2] by simp
  moreover have "confirmLoop ?in 2 = None" using confirm_prompt [of ?in 2 True 2 2] by simp
  ultimately show ?thesis by blast
qed

end
