(* ===== verification/Send.thy ===== *)
theory Send
  imports Cli
begin

text \<open>The \<open>send\<close> command of \<open>cmd/localsend/main.go\<close>, from the arguments to the exit code.\<close>

section \<open>Files\<close>

record sendFlags =
  sfl_target :: string
  sfl_yes :: bool
  sfl_proxy :: string
  sfl_insecure :: bool
  sfl_ca :: string
  sfl_pin :: string
  sfl_browser :: bool
  sfl_text :: string

text \<open>\<open>computeFileSha256\<close>; reading a directory is the error \<open>ReadFile\<close> reports.\<close>

definition computeFileSha256 :: "fsys \<Rightarrow> string \<Rightarrow> os_error + string" where
  "computeFileSha256 fs filePath =
     (case ReadFile fs filePath of Inl e \<Rightarrow> Inl e | Inr bytes \<Rightarrow> Inr (hexEncode (sha256 bytes)))"

text \<open>The first loop: every argument must be an existing file. \<open>None\<close> is exit code 1.\<close>

fun statArgs :: "fsys \<Rightarrow> string list \<Rightarrow> (string \<times> int) list option" where
  "statArgs fs [] = Some []"
| "statArgs fs (arg # args) =
     (case Stat fs arg of
        Inl _ \<Rightarrow> None
      | Inr info \<Rightarrow>
          if isDir info then None
          else map_option (Cons (arg, nodeSize info)) (statArgs fs args))"

definition fileSource :: "fsys \<Rightarrow> string \<Rightarrow> string \<times> int \<Rightarrow> sendFileSource" where
  "fileSource fs uuid fi =
     (case fi of (path, n) \<Rightarrow>
       \<lparr>src_ID = uuid, src_FileName = Base path, src_Size = n, src_FileType = ''application/octet-stream'',
        src_Sha256 = (case computeFileSha256 fs path of Inl _ \<Rightarrow> [] | Inr hashStr \<Rightarrow> hashStr),
        src_Preview = [],
        src_Open = (case ReadFile fs path of Inl _ \<Rightarrow> None | Inr bytes \<Rightarrow> Some bytes)\<rparr>)"

text \<open>The text message first, if there is one, then the files in the order of the arguments.\<close>

definition sendSources :: "fsys \<Rightarrow> (nat \<Rightarrow> string) \<Rightarrow> string \<Rightarrow> (string \<times> int) list \<Rightarrow> sendFileSource list" where
  "sendSources fs uuid textMsg infos =
     (if textMsg \<noteq> [] then [NewTextSendSource (uuid 0) textMsg] else [])
       @ map (\<lambda>(i, fi). fileSource fs (uuid (Suc i)) fi) (enumerate 0 infos)"

section \<open>Browser mode\<close>

text \<open>The loop indexes \<open>files\<close> with the position in \<open>args\<close>.\<close>

definition browserFiles :: "sendFileSource list \<Rightarrow> string list \<Rightarrow> shareFile list" where
  "browserFiles files args =
     map (\<lambda>(i, arg). \<lparr>sf_ID = src_ID (files ! i), sf_Path = arg, sf_FileName = src_FileName (files ! i),
                      sf_Size = src_Size (files ! i), sf_FileType = ''application/octet-stream''\<rparr>) (enumerate 0 args)"

definition displayIP :: "string list option \<Rightarrow> string" where
  "displayIP localIPs = (case localIPs of Some (ip # _) \<Rightarrow> ip | _ \<Rightarrow> ''localhost'')"

section \<open>Target\<close>

definition parseTarget :: "string \<Rightarrow> device" where
  "parseTarget targetAddr =
     (let (host, portStr) = (case SplitHostPort targetAddr of Some hp \<Rightarrow> hp | None \<Rightarrow> (targetAddr, Itoa DefaultPort))
      in zeroDevice\<lparr>dev_IP := host, dev_Port := fst (Atoi portStr), dev_Protocol := ''https''\<rparr>)"

text \<open>HTTPS first, then plain HTTP; \<open>Inl\<close> is the exit code.\<close>

definition resolveTarget ::
  "(nat + client) \<Rightarrow> (client \<Rightarrow> 'w transport) \<Rightarrow> string \<Rightarrow> 'w \<Rightarrow> (nat + device) \<times> 'w" where
  "resolveTarget newClient connect targetAddr w =
     (case newClient of
        Inl code \<Rightarrow> (Inl code, w)
      | Inr tempCli \<Rightarrow>
          let targetDevice = parseTarget targetAddr in
          (case Register tempCli (connect tempCli) targetDevice w of
             (Inr partner, w1) \<Rightarrow> (Inr partner, w1)
           | (Inl _, w1) \<Rightarrow>
               (case Register tempCli (connect tempCli) (targetDevice\<lparr>dev_Protocol := ''http''\<rparr>) w1 of
                  (Inl _, w2) \<Rightarrow> (Inl 2, w2)
                | (Inr partner2, w2) \<Rightarrow> (Inr partner2, w2))))"

text \<open>Without \<open>--target\<close> the user picks one of the discovered devices; \<open>None\<close> while nothing valid is typed.\<close>

definition selectDevice :: "inputs \<Rightarrow> device list \<Rightarrow> nat \<Rightarrow> ((nat + device) \<times> nat) option" where
  "selectDevice inputs devices k =
     (if devices = [] then Some (Inl 2, k)
      else map_option (\<lambda>(choice, k'). (Inr (devices ! nat (choice - 1)), k')) (selectLoop inputs (length devices) k))"

section \<open>Sending\<close>

definition sendExit :: "sendResult list \<times> clientError option \<Rightarrow> nat" where
  "sendExit res =
     (case res of
        (_, Some err) \<Rightarrow> if err = Proto ErrRejected then 3 else 4
      | (results, None) \<Rightarrow> if list_ex (\<lambda>r. res_Err r \<noteq> None) results then 4 else 0)"

text \<open>The callback of the progress line: the file it names and the counts, nothing for an unknown file.\<close>

definition progressLine :: "sendFileSource list \<Rightarrow> string \<times> int \<Rightarrow> (string \<times> int \<times> int) option" where
  "progressLine files ev =
     (case ev of (fileID, sentBytes) \<Rightarrow>
       map_option (\<lambda>f. (src_FileName f, sentBytes, src_Size f))
         (map_of (foldl (\<lambda>m f. AList.update (src_ID f) f m) [] files) fileID))"

datatype sendEnd = Exit nat | Browsing downloads

text \<open>
  The whole command. The result is \<open>None\<close> when a prompt waits forever. \<open>connect\<close> is the connection a
  client has, \<open>reports\<close> what the discovery finds, \<open>appendCerts\<close> and \<open>parsesURL\<close> the library calls of
  \<open>NewClient\<close>.
\<close>

record sendEnv =
  se_machine :: machine
  se_appendCerts :: "string \<Rightarrow> bool"
  se_parsesURL :: "string \<Rightarrow> bool"
  se_listens :: "int \<Rightarrow> bool"
  se_reports :: "device list"
  se_visit :: "device gomap \<Rightarrow> device list"
  se_inputs :: inputs

definition sendIdentity :: "machine \<Rightarrow> fsys \<Rightarrow> (device \<times> string option) \<times> fsys" where
  "sendIdentity ma fs =
     (let myDevice = GetDefaultDevice (ma_intn ma) (ma_goos ma) (ma_hostname ma) 0 ''https'' False;
          (certPath, keyPath) = credentialPaths (ma_home ma)
      in case LoadOrGenerateCredentials (ma_x509 ma) (ma_certRun ma) (ma_mkdirCert ma) certPath keyPath fs of
           (Inl _, fs1) \<Rightarrow> ((myDevice, None), fs1)
         | (Inr ci, fs1) \<Rightarrow> ((myDevice\<lparr>dev_Fingerprint := ci_Fingerprint ci\<rparr>, Some (ci_Leaf ci)), fs1))"

definition browse :: "sendEnv \<Rightarrow> sendFileSource list \<Rightarrow> string list \<Rightarrow> sendEnd" where
  "browse env files args =
     (case StartDownloadServer (ma_uuid (se_machine env)) (se_listens env) 53318 (browserFiles files args)
             \<lparr>dl_running = False, dl_sharedFiles = [], dl_session = [], dl_uuids = Suc (length files)\<rparr> of
        (Some _, _) \<Rightarrow> Exit 1
      | (None, d) \<Rightarrow> Browsing d)"

text \<open>From the chosen device on: the confirmation, the client, the transfer.\<close>

definition transfer ::
  "sendEnv \<Rightarrow> sendFlags \<Rightarrow> (nat + client) \<Rightarrow> (client \<Rightarrow> 'w transport) \<Rightarrow> sendFileSource list \<Rightarrow> device \<Rightarrow> nat \<Rightarrow> 'w
     \<Rightarrow> (sendEnd \<times> 'w) option" where
  "transfer env fl newClient connect files targetDevice k w =
     (case (if sfl_yes fl then Some (True, k) else confirmLoop (se_inputs env) k) of
        None \<Rightarrow> None
      | Some (False, _) \<Rightarrow> Some (Exit 0, w)
      | Some (True, _) \<Rightarrow>
          (case newClient of
             Inl code \<Rightarrow> Some (Exit code, w)
           | Inr cli \<Rightarrow>
               (case SendFiles cli (connect cli) targetDevice files (sfl_pin fl) w of
                  (res, events, w') \<Rightarrow> Some (Exit (sendExit res), w'))))"

definition chooseTarget ::
  "sendEnv \<Rightarrow> sendFlags \<Rightarrow> (nat + client) \<Rightarrow> (client \<Rightarrow> 'w transport) \<Rightarrow> device \<Rightarrow> 'w
     \<Rightarrow> ((nat + device) \<times> nat \<times> 'w) option" where
  "chooseTarget env fl newClient connect myDevice w =
     (if sfl_target fl \<noteq> [] then
        (case resolveTarget newClient connect (sfl_target fl) w of (r, w1) \<Rightarrow> Some (r, 0, w1))
      else map_option (\<lambda>(r, k). (r, k, w))
             (selectDevice (se_inputs env) (se_visit env (collectDevices myDevice (se_reports env))) 0))"

definition sendCmd ::
  "sendEnv \<Rightarrow> sendFlags \<Rightarrow> string list \<Rightarrow> fsys \<Rightarrow> (client \<Rightarrow> 'w transport) \<Rightarrow> 'w \<Rightarrow> (sendEnd \<times> 'w) option" where
  "sendCmd env fl args fs connect w =
     (if args = [] \<and> sfl_text fl = [] then Some (Exit 1, w)
      else case statArgs fs args of
        None \<Rightarrow> Some (Exit 1, w)
      | Some infos \<Rightarrow>
          (let files = sendSources fs (ma_uuid (se_machine env)) (sfl_text fl) infos;
               ((myDevice, clientCert), fs1) = sendIdentity (se_machine env) fs
           in if sfl_browser fl then Some (browse env files args, w)
              else
                let newClient = (case NewClient (se_appendCerts env) (se_parsesURL env) fs1 myDevice clientCert
                                        (sfl_proxy fl) (sfl_insecure fl) (sfl_ca fl) of
                                   Inl _ \<Rightarrow> Inl 1 | Inr cli \<Rightarrow> Inr cli)
                in case chooseTarget env fl newClient connect myDevice w of
                     None \<Rightarrow> None
                   | Some (Inl code, _, w1) \<Rightarrow> Some (Exit code, w1)
                   | Some (Inr targetDevice, k, w1) \<Rightarrow> transfer env fl newClient connect files targetDevice k w1))"

section \<open>Facts\<close>

text \<open>What exit code 0 of a transfer stands for, over the traffic of the transfer.\<close>

definition delivered ::
  "client \<Rightarrow> device \<Rightarrow> sendFileSource list \<Rightarrow> string \<Rightarrow> traffic \<Rightarrow> bool" where
  "delivered c target files pin log \<longleftrightarrow>
     (\<exists>resp ups. log = (prepareRequest c target files pin, Some resp) # ups
        \<and> fromPeer c target (prepareRequest c target files pin, Some resp)
        \<and> (cr_Status resp = StatusNoContent \<and> ups = []
           \<or> cr_Status resp = StatusOK
             \<and> (\<exists>sid tokens. map fst ups = map (uploadRequest target sid tokens) files
                   \<and> (\<forall>f \<in> set files. map_of tokens (src_ID f) \<noteq> None))
             \<and> list_all (confirmed c target) ups))"

lemma acceptedFiles_all:
  assumes "\<not> list_ex (\<lambda>r. res_Err r \<noteq> None) (map (fileResult tokens) files)"
  shows "acceptedFiles tokens files = files" "\<forall>f \<in> set files. map_of tokens (src_ID f) \<noteq> None"
proof -
  show "\<forall>f \<in> set files. map_of tokens (src_ID f) \<noteq> None"
    using assms by (auto simp: list_ex_iff fileResult_def split: if_splits)
  then show "acceptedFiles tokens files = files" by (auto simp: acceptedFiles_def filter_id_conv)
qed

lemma SendFiles_exit_zero:
  assumes "SendFiles c (logged tr) target files pin (w, log0) = (res, events, (w', log))" "sendExit res = 0"
  shows "\<exists>log1. log = log0 @ log1 \<and> delivered c target files pin log1"
proof -
  obtain results err where res: "res = (results, err)" by force
  have e: "err = None" "\<not> list_ex (\<lambda>r. res_Err r \<noteq> None) results"
    using assms(2) res by (auto simp: sendExit_def split: option.splits if_splits)
  note send = assms(1) [unfolded res e(1)]
  let ?req = "prepareRequest c target files pin"
  show ?thesis
  proof (rule SendFiles_confirmed [OF send])
    fix resp
    assume "log = log0 @ [(?req, Some resp)]" "cr_Status resp = StatusNoContent" "fromPeer c target (?req, Some resp)"
    then show ?thesis by (auto simp: delivered_def)
  next
    fix resp w1 and prepResp :: prepareUploadResponse
    let ?sid = "puresp_SessionID prepResp" and ?tokens = "puresp_Files prepResp"
    assume ok: "confirmed c target (?req, Some resp)"
      and loop: "uploadLoop c (logged tr) target ?sid ?tokens files (w1, log0 @ [(?req, Some resp)])
         = ((results, None), events, (w', log))"
    obtain ups where u: "log = (log0 @ [(?req, Some resp)]) @ ups"
        "map fst ups = map (uploadRequest target ?sid ?tokens) (take (length ups) (acceptedFiles ?tokens files))"
        "list_all (confirmed c target) ups" "length ups = length (acceptedFiles ?tokens files)"
        "results = map (fileResult ?tokens) files"
      using uploadLoop_logged [OF loop] by auto
    note all = acceptedFiles_all [OF e(2) [unfolded u(5)]]
    have "delivered c target files pin ((?req, Some resp) # ups)"
      unfolding delivered_def using u(2-4) all ok by (auto simp: confirmed_def)
    then show ?thesis using u(1) by auto
  qed simp_all
qed

lemma transfer_exit_zero:
  assumes "transfer env fl newClient (\<lambda>cli. logged (connect cli)) files target k (w, log0) = Some (Exit 0, (w', log))"
    "newClient \<noteq> Inl 0"
  shows "(\<exists>j. confirmLoop (se_inputs env) k = Some (False, j))
     \<or> (\<exists>c log1. newClient = Inr c \<and> log = log0 @ log1 \<and> delivered c target files (sfl_pin fl) log1)"
proof (cases "\<exists>j. confirmLoop (se_inputs env) k = Some (False, j)")
  case False
  then obtain c res events where c: "newClient = Inr c" and
      t: "SendFiles c (logged (connect c)) target files (sfl_pin fl) (w, log0) = (res, events, (w', log))" "sendExit res = 0"
    using assms by (auto simp: transfer_def split: option.splits if_splits bool.splits sum.splits prod.splits)
  show ?thesis using SendFiles_exit_zero [OF t] c by blast
qed blast

lemma chooseTarget_code:
  "chooseTarget env fl newClient connect myDevice w = Some (Inl code, k, w') \<Longrightarrow> newClient = Inl code \<or> code = 2"
  by (auto simp: chooseTarget_def resolveTarget_def selectDevice_def Let_def split: sum.splits prod.splits if_splits)

section \<open>Properties\<close>


text \<open>A machine without credentials, one discovered device, and a peer that has every file already.\<close>

definition demo_machine :: machine where
  "demo_machine =
     \<lparr>ma_intn = (\<lambda>_ _. 0), ma_goos = ''linux'', ma_hostname = None, ma_home = None, ma_cwd = None, ma_x509 = demo_x509,
      ma_certRun = demo_run\<lparr>cr_GenerateKey := None\<rparr>, ma_mkdirCert = None, ma_mkdirSave = None, ma_uuid = demo_uuid\<rparr>"

definition demo_env :: sendEnv where
  "demo_env =
     \<lparr>se_machine = demo_machine, se_appendCerts = (\<lambda>_. True), se_parsesURL = (\<lambda>_. True), se_listens = (\<lambda>_. True),
      se_reports = [demo_phone\<lparr>dev_IP := ''10.0.0.2'', dev_Protocol := ''http''\<rparr>], se_visit = map snd,
      se_inputs = (\<lambda>_. ''1'')\<rparr>"

definition demo_flags :: sendFlags where
  "demo_flags =
     \<lparr>sfl_target = [], sfl_yes = True, sfl_proxy = [], sfl_insecure = False, sfl_ca = [], sfl_pin = [],
      sfl_browser = False, sfl_text = ''hi''\<rparr>"

definition demo_has_all :: "unit transport" where
  "demo_has_all =
     \<lparr>tr_NewRequest = (\<lambda>_ _. True), tr_Do = (\<lambda>_ w. ((Some \<lparr>cr_Status = 204, cr_TLS = None, cr_Json = None\<rparr>, []), w))\<rparr>"

abbreviation demo_empty_fs :: fsys where
  "demo_empty_fs \<equiv> \<lparr>fs_nodes = [], fs_refuse = (\<lambda>_. None)\<rparr>"

lemma demo_identity: "\<exists>d. sendIdentity demo_machine demo_empty_fs = ((d, None), demo_empty_fs) \<and> dev_Fingerprint d = []"
  by (auto simp: sendIdentity_def demo_machine_def demo_run_def credentialPaths_def LoadOrGenerateCredentials_def
      loadExisting_def statOk_def Stat_def path_error_def GenerateSelfSignedCert_def GetDefaultDevice_def osModel_def Let_def
      split: option.splits)

lemma demo_choice: "selectLoop (\<lambda>_. ''1'') 1 0 = Some (1, 1)"
proof -
  have "Atoi (TrimSpace ''1'') = (1, None)" by code_simp
  then show ?thesis by (subst selectLoop.simps) simp
qed

lemma demo_has_all_send:
  "\<exists>log. SendFiles cli (logged demo_has_all) t files pin ((), l)
     = ((map (\<lambda>f. \<lparr>res_FileID = src_ID f, res_Err = None\<rparr>) files, None), [], ((), log))"
  by (simp add: SendFiles_def exchange_def logged_def demo_has_all_def verifyPeerFingerprint_def http_status)

lemma demo_sendCmd:
  "\<exists>log. sendCmd demo_env demo_flags [] demo_empty_fs (\<lambda>cli. logged demo_has_all) ((), []) = Some (Exit 0, ((), log))"
proof -
  obtain d where d: "sendIdentity demo_machine demo_empty_fs = ((d, None), demo_empty_fs)" "dev_Fingerprint d = []"
    using demo_identity by blast
  let ?t = "demo_phone\<lparr>dev_IP := ''10.0.0.2'', dev_Protocol := ''http''\<rparr>"
  have "dev_Fingerprint ?t \<noteq> dev_Fingerprint d" using d(2) by (simp add: demo_phone_def)
  then have "collectDevices d (se_reports demo_env) = [(deviceKey ?t, ?t)]"
    unfolding collectDevices_def demo_env_def sendEnv.simps foldl.simps recordDevice_def
    by (simp only: if_False simp_thms update.simps)
  then have dev: "se_visit demo_env (collectDevices d (se_reports demo_env)) = [?t]" by (simp add: demo_env_def)
  have c: "chooseTarget demo_env demo_flags nc (\<lambda>cli. logged demo_has_all) d ((), []) = Some (Inr ?t, 1, ((), []))" for nc
  proof -
    have "sfl_target demo_flags = []" "se_inputs demo_env = (\<lambda>_. ''1'')" by (simp_all add: demo_flags_def demo_env_def)
    then show ?thesis unfolding chooseTarget_def dev selectDevice_def using demo_choice by simp
  qed
  obtain cli where n: "NewClient (se_appendCerts demo_env) (se_parsesURL demo_env) demo_empty_fs d None [] False [] = Inr cli"
    by (simp add: NewClient_def)
  let ?files = "sendSources demo_empty_fs demo_uuid ''hi'' []"
  obtain log where "SendFiles cli (logged demo_has_all) ?t ?files [] ((), [])
      = ((map (\<lambda>f. \<lparr>res_FileID = src_ID f, res_Err = None\<rparr>) ?files, None), [], ((), log))"
    using demo_has_all_send by metis
  moreover have "sendExit (map (\<lambda>f. \<lparr>res_FileID = src_ID f, res_Err = None\<rparr>) files, None) = 0" for files :: "sendFileSource list"
    by (simp add: sendExit_def list_ex_iff)
  moreover have "sfl_yes demo_flags" "sfl_pin demo_flags = []" by (simp_all add: demo_flags_def)
  ultimately have "transfer demo_env demo_flags (Inr cli) (\<lambda>cli. logged demo_has_all) ?files ?t 1 ((), []) = Some (Exit 0, ((), log))"
    by (simp add: transfer_def del: One_nat_def)
  moreover have "se_machine demo_env = demo_machine" "ma_uuid demo_machine = demo_uuid"
      "sfl_text demo_flags = ''hi''" "\<not> sfl_browser demo_flags"
      "\<not> sfl_insecure demo_flags" "sfl_proxy demo_flags = []" "sfl_ca demo_flags = []"
    by (simp_all add: demo_flags_def demo_env_def demo_machine_def)
  ultimately show ?thesis using n c d(1) by (simp add: sendCmd_def)
qed


text \<open>
  C37: in browser mode without a text message every argument is offered under its own name
  and size. With a text message the list is shifted: the path of an argument is offered with the
  identifier, the name and the size of the one before it, and the first path with those of the text.
\<close>

theorem browser_shift:
  assumes "statArgs fs args = Some infos" "i < length args"
  shows "sf_Path (browserFiles (sendSources fs uuid txt infos) args ! i) = args ! i
     \<and> (let f = browserFiles (sendSources fs uuid txt infos) args ! i in
        if txt = [] then sf_FileName f = Base (args ! i) \<and> sf_Size f = snd (infos ! i) \<and> sf_ID f = uuid (Suc i)
        else if i = 0 then sf_FileName f = src_FileName (NewTextSendSource (uuid 0) txt) \<and> sf_Size f = int (length txt)
        else sf_FileName f = Base (args ! (i - 1)) \<and> sf_Size f = snd (infos ! (i - 1)))"
proof -
  have infos: "map fst infos = args"
    using assms(1)
    by (induction args arbitrary: infos) (auto split: sum.splits if_splits option.splits)
  then have len: "length infos = length args" by (metis length_map)
  have fst_info: "fst (infos ! j) = args ! j" if "j < length args" for j
    using infos len that by (metis nth_map)
  let ?files = "sendSources fs uuid txt infos"
  have f: "browserFiles ?files args ! i = \<lparr>sf_ID = src_ID (?files ! i), sf_Path = args ! i,
      sf_FileName = src_FileName (?files ! i), sf_Size = src_Size (?files ! i), sf_FileType = ''application/octet-stream''\<rparr>"
    using assms(2) by (simp add: browserFiles_def nth_enumerate_eq)
  have nth: "?files ! j = (if txt = [] then fileSource fs (uuid (Suc j)) (infos ! j)
      else if j = 0 then NewTextSendSource (uuid 0) txt else fileSource fs (uuid j) (infos ! (j - 1)))"
    if "j < length args" for j
    using that len by (auto simp: sendSources_def nth_append nth_enumerate_eq nth_Cons')
  show ?thesis
    unfolding f using nth [OF assms(2)] fst_info [of i] fst_info [of "i - 1"] assms(2)
    by (auto simp: fileSource_def NewTextSendSource_def Let_def split: prod.splits)
qed

theorem browser_shift_witness:
  "sf_Path (browserFiles (sendSources \<lparr>fs_nodes = [(''a'', File ''x''), (''b'', File ''yz'')], fs_refuse = (\<lambda>_. None)\<rparr>
       demo_uuid ''hi'' [(''a'', 1), (''b'', 2)]) [''a'', ''b''] ! 1) = ''b''
   \<and> sf_FileName (browserFiles (sendSources \<lparr>fs_nodes = [(''a'', File ''x''), (''b'', File ''yz'')], fs_refuse = (\<lambda>_. None)\<rparr>
       demo_uuid ''hi'' [(''a'', 1), (''b'', 2)]) [''a'', ''b''] ! 1) = ''a''"
proof -
  let ?fs = "\<lparr>fs_nodes = [(''a'', File ''x''), (''b'', File ''yz'')], fs_refuse = (\<lambda>_. None)\<rparr>"
  have s: "statArgs ?fs [''a'', ''b''] = Some [(''a'', 1), (''b'', 2)]" by code_simp
  have "Base ''a'' = ''a''" by code_simp
  then show ?thesis using browser_shift [OF s, of 1 demo_uuid "''hi''"] by (simp add: Let_def)
qed

end
